theory Spec2Isabelle
  imports
    Complex_Main
    "HOL-Library.AList"
    "HOL-Library.Char_ord"
    "HOL-Library.List_Lexorder"
begin

section \<open>The OpenMC wrapper of OpenDeplete (\<^verbatim>\<open>opendeplete/openmc_wrapper.py\<close>)\<close>

text \<open>
  The development embeds the class \<^verbatim>\<open>OpenMCOperator\<close>: the decomposition of the geometry
  over the MPI ranks (\<^verbatim>\<open>extract_mat_ids\<close>), the generation of the materials and settings
  documents, the ingestion and power normalisation of the tallies
  (\<^verbatim>\<open>unpack_tallies_and_normalize\<close>) and the order of the calls of one step (\<^verbatim>\<open>eval\<close>).

  Conventions.
  \<^item> A Python \<^verbatim>\<open>str\<close> is a \<^typ>\<open>string\<close>; the order of \<^verbatim>\<open>sorted\<close> on strings is
    the lexicographic order of the character codes, which is the order of
    \<^theory_text>\<open>List_Lexorder\<close> over \<^theory_text>\<open>Char_ord\<close>.
  \<^item> An \<^verbatim>\<open>OrderedDict\<close> is an association list in insertion order with distinct
    keys; \<^verbatim>\<open>d[k] = v\<close> is \<^const>\<open>AList.update\<close> (in place for a key that is
    present, appended otherwise).
  \<^item> A Python \<^verbatim>\<open>set\<close> of strings is a \<^typ>\<open>string set\<close>;
    \<^verbatim>\<open>sorted(list(s))\<close> is \<^const>\<open>sorted_list_of_set\<close>.
  \<^item> Every \<^verbatim>\<open>raise\<close> and \<^verbatim>\<open>exit\<close> of the source is a value \<open>Inl e\<close> of the
    result type \<open>error + 'a\<close>.
\<close>

subsection \<open>Errors and Python helpers\<close>

datatype error =
    SystemExit string
  | ZeroDivisionError
  | KeyError string
  | ValueError
  | IndexError
  | TypeError

text \<open>\<^verbatim>\<open>str(n)\<close> of a non-negative Python \<^verbatim>\<open>int\<close>: its decimal digits.\<close>

definition digit_char :: "nat \<Rightarrow> char" where
  "digit_char d = char_of (48 + d)"

fun str_nat :: "nat \<Rightarrow> string" where
  "str_nat n = (if n < 10 then [digit_char n] else str_nat (n div 10) @ [digit_char (n mod 10)])"

declare str_nat.simps [simp del]

text \<open>
  \<^verbatim>\<open>str(xs)\<close> of a list of strings: the \<^verbatim>\<open>repr\<close> of each element in single quotes,
  separated by a comma and a blank, in brackets. (The strings rendered here are decimal
  ids, so \<^verbatim>\<open>repr\<close> escapes nothing.)
\<close>

definition repr_str :: "string \<Rightarrow> string" where
  "repr_str s = [CHR 0x27] @ s @ [CHR 0x27]"

fun join_comma :: "string list \<Rightarrow> string" where
  "join_comma [] = []"
| "join_comma [s] = s"
| "join_comma (s # t # ss) = s @ '', '' @ join_comma (t # ss)"

definition str_list :: "string list \<Rightarrow> string" where
  "str_list xs = ''['' @ join_comma (map repr_str xs) @ '']''"

text \<open>The slice \<^verbatim>\<open>xs[a:b]\<close> for \<open>0 \<le> a\<close> and \<open>0 \<le> b\<close>; Python clips it to the list.\<close>

definition py_slice :: "'a list \<Rightarrow> nat \<Rightarrow> nat \<Rightarrow> 'a list" where
  "py_slice xs a b = drop a (take b xs)"

text \<open>\<^verbatim>\<open>k in d\<close> and \<^verbatim>\<open>d[k]\<close> on an \<^verbatim>\<open>OrderedDict\<close>.\<close>

definition od_mem :: "'k \<Rightarrow> ('k \<times> 'v) list \<Rightarrow> bool" where
  "od_mem k d = (k \<in> fst ` set d)"

definition od_keys :: "('k \<times> 'v) list \<Rightarrow> 'k list" where
  "od_keys d = map fst d"

subsection \<open>The geometry\<close>

text \<open>
  What \<^verbatim>\<open>extract_mat_ids\<close> reads of an \<^verbatim>\<open>openmc.Material\<close>: its \<^verbatim>\<open>id\<close> (a
  non-negative integer), the flag \<^verbatim>\<open>burnable\<close>, its \<^verbatim>\<open>volume\<close> (\<^verbatim>\<open>None\<close> when
  it was never set) and its \<^verbatim>\<open>nuclides\<close>, a list of tuples whose first component is
  the nuclide (of which the name is read) and whose second is its density.
\<close>

record material =
  m_id :: nat
  m_burnable :: bool
  m_volume :: "real option"
  m_nuclides :: "(string \<times> real) list"

text \<open>
  A cell has a name and a fill, which is one material (\<^verbatim>\<open>isinstance(cell.fill,
  openmc.Material)\<close>) or a list of materials. The geometry is the list of the cells of
  \<^verbatim>\<open>get_all_material_cells()\<close> in iteration order.
\<close>

datatype fill = Fill_Material material | Fill_List "material list"

record cell =
  c_name :: string
  c_fill :: fill

type_synonym geometry = "cell list"

subsection \<open>\<^verbatim>\<open>extract_mat_ids\<close>: the scan of the geometry\<close>

text \<open>The collections the scan builds; \<open>mat_name\<close> is the operator's attribute.\<close>

record scan =
  mat_burn :: "string set"
  mat_not_burn :: "string set"
  nuc_set :: "string set"
  volume :: "(string \<times> real option) list"
  mat_name :: "(nat \<times> string) list"

text \<open>The body of both branches of the loop (lines 256--263 and 266--273).\<close>

definition scan_mat :: "string \<Rightarrow> scan \<Rightarrow> material \<Rightarrow> scan" where
  "scan_mat name s mat =
     (let s1 = s\<lparr>nuc_set := nuc_set s \<union> set (map fst (m_nuclides mat))\<rparr>;
          s2 = (if m_burnable mat
                then s1\<lparr>mat_burn := insert (str_nat (m_id mat)) (mat_burn s1),
                        volume := AList.update (str_nat (m_id mat)) (m_volume mat) (volume s1)\<rparr>
                else s1\<lparr>mat_not_burn := insert (str_nat (m_id mat)) (mat_not_burn s1)\<rparr>)
      in s2\<lparr>mat_name := AList.update (m_id mat) name (mat_name s2)\<rparr>)"

definition scan_cell :: "scan \<Rightarrow> cell \<Rightarrow> scan" where
  "scan_cell s c =
     (case c_fill c of
        Fill_Material mat \<Rightarrow> scan_mat (c_name c) s mat
      | Fill_List mats \<Rightarrow> foldl (scan_mat (c_name c)) s mats)"

definition scan_geometry :: "(nat \<times> string) list \<Rightarrow> geometry \<Rightarrow> scan" where
  "scan_geometry names cells =
     foldl scan_cell
       \<lparr>mat_burn = {}, mat_not_burn = {}, nuc_set = {}, volume = [], mat_name = names\<rparr>
       cells"

text \<open>Lines 275--279: the ids of the volume table whose volume is \<^verbatim>\<open>None\<close>.\<close>

definition need_vol :: "(string \<times> real option) list \<Rightarrow> string list" where
  "need_vol vol = map fst (filter (\<lambda>(mat_id, v). v = None) vol)"

subsection \<open>\<^verbatim>\<open>extract_mat_ids\<close>: the global nuclide dictionary\<close>

text \<open>
  Lines 289--297. The loop carries the dictionary and the next index \<open>i\<close>, which
  starts at the length of the chain's dictionary.
\<close>

fun add_nuclides :: "string list \<Rightarrow> (string \<times> nat) list \<Rightarrow> nat \<Rightarrow> (string \<times> nat) list" where
  "add_nuclides [] nuc_dict i = nuc_dict"
| "add_nuclides (nuc # nucs) nuc_dict i =
     (if \<not> od_mem nuc nuc_dict
      then add_nuclides nucs (AList.update nuc i nuc_dict) (i + 1)
      else add_nuclides nucs nuc_dict i)"

definition build_nuc_dict :: "(string \<times> nat) list \<Rightarrow> string list \<Rightarrow> (string \<times> nat) list" where
  "build_nuc_dict chain_nuclide_dict nucs =
     add_nuclides nucs chain_nuclide_dict (length chain_nuclide_dict)"

subsection \<open>\<^verbatim>\<open>extract_mat_ids\<close>: the decomposition over the ranks\<close>

text \<open>
  Lines 300--311 (and again 313--323): the loop over \<^verbatim>\<open>range(n)\<close> carries the start
  \<open>j\<close> of the next chunk and the chunks made so far.
\<close>

fun chunk_loop :: "nat \<Rightarrow> nat \<Rightarrow> 'a list \<Rightarrow> nat list \<Rightarrow> nat \<Rightarrow> 'a list list \<Rightarrow> 'a list list" where
  "chunk_loop chunk extra mats [] j acc = acc"
| "chunk_loop chunk extra mats (i # rest) j acc =
     (let c_chunk = (if i < extra then chunk + 1 else chunk);
          mat_chunk = py_slice mats j (j + c_chunk)
      in chunk_loop chunk extra mats rest (j + c_chunk) (acc @ [mat_chunk]))"

text \<open>\<^verbatim>\<open>divmod(len(mats), n)\<close> raises \<^verbatim>\<open>ZeroDivisionError\<close> for \<open>n = 0\<close>.\<close>

definition decompose :: "nat \<Rightarrow> 'a list \<Rightarrow> error + 'a list list" where
  "decompose n mats =
     (if n = 0 then Inl ZeroDivisionError
      else Inr (chunk_loop (length mats div n) (length mats mod n) mats [0..<n] 0 []))"

text \<open>Lines 325--328: \<^verbatim>\<open>enumerate\<close>.\<close>

definition enumerate_dict :: "'a list \<Rightarrow> ('a \<times> nat) list" where
  "enumerate_dict xs = foldl (\<lambda>d (i, x). AList.update x i d) [] (enumerate 0 xs)"

subsection \<open>\<^verbatim>\<open>extract_mat_ids\<close>\<close>

record mat_ids =
  mat_burn_lists :: "string list list"
  mat_not_burn_lists :: "string list list"
  volumes :: "(string \<times> real option) list"
  mat_tally_ind :: "(string \<times> nat) list"
  nuc_dict :: "(string \<times> nat) list"

text \<open>
  The arguments are the attributes the method reads: \<^verbatim>\<open>self.size\<close> (here
  \<open>comm_size\<close>, the number of ranks of the communicator),
  \<^verbatim>\<open>self.chain.nuclide_dict\<close>, \<^verbatim>\<open>self.mat_name\<close> and \<^verbatim>\<open>self.geometry\<close>. The result
  is the returned tuple and the new value of \<^verbatim>\<open>self.mat_name\<close>, or the error.
\<close>

definition extract_mat_ids ::
  "nat \<Rightarrow> (string \<times> nat) list \<Rightarrow> (nat \<times> string) list \<Rightarrow> geometry
     \<Rightarrow> error + (mat_ids \<times> (nat \<times> string) list)" where
  "extract_mat_ids comm_size chain_nuclide_dict names cells =
     (let s = scan_geometry names cells;
          nv = need_vol (volume s)
      in if nv \<noteq> [] then Inl (SystemExit (''Need volumes for materials: '' @ str_list nv))
         else
           let burn = sorted_list_of_set (mat_burn s);
               not_burn = sorted_list_of_set (mat_not_burn s);
               nucs = sorted_list_of_set (nuc_set s);
               nd = build_nuc_dict chain_nuclide_dict nucs
           in case decompose comm_size burn of
                Inl e \<Rightarrow> Inl e
              | Inr burn_lists \<Rightarrow>
                 (case decompose comm_size not_burn of
                    Inl e \<Rightarrow> Inl e
                  | Inr not_burn_lists \<Rightarrow>
                      Inr (\<lparr>mat_burn_lists = burn_lists,
                            mat_not_burn_lists = not_burn_lists,
                            volumes = volume s,
                            mat_tally_ind = enumerate_dict burn,
                            nuc_dict = nd\<rparr>,
                           mat_name s)))"

subsection \<open>Notions used to state the properties of the decomposition\<close>

text \<open>The materials of the geometry, in the order in which the scan visits them.\<close>

definition cell_materials :: "cell \<Rightarrow> material list" where
  "cell_materials c = (case c_fill c of Fill_Material mat \<Rightarrow> [mat] | Fill_List mats \<Rightarrow> mats)"

definition all_materials :: "geometry \<Rightarrow> material list" where
  "all_materials cells = concat (map cell_materials cells)"

text \<open>The ids (as strings) of the burnable and of the other materials, and the nuclide names.\<close>

definition burn_ids :: "material list \<Rightarrow> string set" where
  "burn_ids ms = (\<lambda>m. str_nat (m_id m)) ` {m \<in> set ms. m_burnable m}"

definition not_burn_ids :: "material list \<Rightarrow> string set" where
  "not_burn_ids ms = (\<lambda>m. str_nat (m_id m)) ` {m \<in> set ms. \<not> m_burnable m}"

definition nuclide_names :: "material list \<Rightarrow> string set" where
  "nuclide_names ms = (\<Union>m \<in> set ms. fst ` set (m_nuclides m))"

text \<open>
  The volume that the table holds for an id after the scan: the one of the last burnable
  material with that id.
\<close>

fun last_volume :: "material list \<Rightarrow> string \<Rightarrow> real option option" where
  "last_volume [] k = None"
| "last_volume (m # ms) k =
     (case last_volume ms k of
        Some v \<Rightarrow> Some v
      | None \<Rightarrow> if m_burnable m \<and> str_nat (m_id m) = k then Some (m_volume m) else None)"

text \<open>The size of the chunk of rank \<open>i\<close>, as line 305 computes it.\<close>

definition c_size :: "nat \<Rightarrow> nat \<Rightarrow> nat \<Rightarrow> nat" where
  "c_size chunk extra i = (if i < extra then chunk + 1 else chunk)"

text \<open>
  \<open>chunks\<close> is a balanced split of \<open>xs\<close> over \<open>r\<close> ranks: one chunk per rank, the
  chunks in rank order are \<open>xs\<close>, the first \<open>length xs mod r\<close> ranks hold
  \<open>length xs div r + 1\<close> elements and the others \<open>length xs div r\<close>, and two chunks
  differ in size by at most one.
\<close>

definition balanced_split :: "nat \<Rightarrow> 'a list \<Rightarrow> 'a list list \<Rightarrow> bool" where
  "balanced_split r xs chunks \<longleftrightarrow>
     length chunks = r \<and>
     concat chunks = xs \<and>
     (\<forall>i < r. length (chunks ! i) =
        (if i < length xs mod r then length xs div r + 1 else length xs div r)) \<and>
     (\<forall>i < r. \<forall>j < r. length (chunks ! i) \<le> length (chunks ! j) + 1)"

text \<open>The nuclides of the geometry that the chain does not know, in sorted order.\<close>

definition new_nuclides :: "(string \<times> nat) list \<Rightarrow> material list \<Rightarrow> string list" where
  "new_nuclides chain ms =
     filter (\<lambda>n. n \<notin> fst ` set chain) (sorted_list_of_set (nuclide_names ms))"

text \<open>
  A dictionary is a dense index when its keys are distinct and its values are
  \<open>0, 1, 2, \<dots>\<close> in the order of the entries. The chain's dictionary has this form
  (the chain numbers its nuclides in the order in which it read them).
\<close>

definition dense_index :: "(string \<times> nat) list \<Rightarrow> bool" where
  "dense_index d \<longleftrightarrow> distinct (map fst d) \<and> map snd d = [0 ..< length d]"

text \<open>
  An id names one material: two materials of the geometry with the same id are the same
  material (the same material may fill several cells).
\<close>

definition ids_identify :: "material list \<Rightarrow> bool" where
  "ids_identify ms \<longleftrightarrow> (\<forall>m \<in> set ms. \<forall>m' \<in> set ms. m_id m = m_id m' \<longrightarrow> m = m')"

text \<open>The ids of the burnable materials that have no volume.\<close>

definition missing_volume :: "material list \<Rightarrow> string set" where
  "missing_volume ms =
     (\<lambda>m. str_nat (m_id m)) ` {m \<in> set ms. m_burnable m \<and> m_volume m = None}"

text \<open>
  The ids whose entry in the volume table is \<^verbatim>\<open>None\<close> after the scan: the ids of
  burnable materials of which the last one in the order of the scan has no volume.
\<close>

definition unset_volume :: "material list \<Rightarrow> string set" where
  "unset_volume ms = {k \<in> burn_ids ms. last_volume ms k = Some None}"

subsection \<open>A small geometry\<close>

definition fuel :: "nat \<Rightarrow> real option \<Rightarrow> material" where
  "fuel i v = \<lparr>m_id = i, m_burnable = True, m_volume = v,
     m_nuclides = [(''U235'', 1), (''O16'', 2)]\<rparr>"

definition water :: "nat \<Rightarrow> material" where
  "water i = \<lparr>m_id = i, m_burnable = False, m_volume = None,
     m_nuclides = [(''H1'', 2), (''O16'', 1)]\<rparr>"

definition example_geometry :: geometry where
  "example_geometry =
     [\<lparr>c_name = ''pins'', c_fill = Fill_List [fuel 2 (Some 1), fuel 10 (Some 1), fuel 1 (Some 1)]\<rparr>,
      \<lparr>c_name = ''moderator'', c_fill = Fill_Material (water 4)\<rparr>]"

definition example_chain_dict :: "(string \<times> nat) list" where
  "example_chain_dict = [(''U235'', 0), (''Xe135'', 1)]"

text \<open>The same geometry with two burnable materials whose volume was never set.\<close>

definition example_no_volume :: geometry where
  "example_no_volume =
     [\<lparr>c_name = ''pins'', c_fill = Fill_List [fuel 7 None, fuel 10 (Some 1), fuel 3 None]\<rparr>,
      \<lparr>c_name = ''moderator'', c_fill = Fill_Material (water 4)\<rparr>]"

text \<open>
  A geometry in which two burnable materials have the id 5: the first has no volume, the
  one that the scan visits last has the volume 3.
\<close>

definition example_overwritten :: geometry where
  "example_overwritten =
     [\<lparr>c_name = ''pins'', c_fill = Fill_List [fuel 5 None, fuel 6 (Some 1), fuel 5 (Some 3)]\<rparr>]"

section \<open>Floating-point numbers\<close>

text \<open>
  The numbers of the source are Python floats and numpy \<^verbatim>\<open>float64\<close> values: IEEE 754
  double precision with rounding to nearest, ties to even. A number is finite, with a
  sign (\<open>True\<close> for minus), a mantissa (not negative) and an exponent, \<open>Finite s m e\<close> standing for
  \<open>\<plusminus> m * 2 ^ e\<close>, or an infinity with its sign, or not a number. The operations
  return the finite numbers in one form: the exponent is between \<open>- 1074\<close> and \<open>971\<close>,
  the mantissa is below \<open>2 ^ 53\<close>, and it is below \<open>2 ^ 52\<close> only at the exponent
  \<open>- 1074\<close> (the subnormal numbers and the two zeros).
\<close>

datatype double = Finite bool int int | Infinity bool | NaN

text \<open>The number of binary digits of a positive integer.\<close>

function bit_length :: "int \<Rightarrow> int" where
  "bit_length n = (if n \<le> 0 then 0 else 1 + bit_length (n div 2))"
  by pat_completeness auto

termination bit_length
  by (relation "measure nat") auto

declare bit_length.simps [simp del]

text \<open>The integer part of the binary logarithm of \<open>n / d\<close>, for positive \<open>n\<close> and \<open>d\<close>.\<close>

definition log2_adjust :: "int \<Rightarrow> int \<Rightarrow> int \<Rightarrow> int" where
  "log2_adjust n d l =
     (if (if 0 \<le> l then d * 2 ^ nat l \<le> n else d \<le> n * 2 ^ nat (- l)) then l else l - 1)"

definition log2_floor :: "int \<Rightarrow> int \<Rightarrow> int" where
  "log2_floor n d = log2_adjust n d (bit_length n - bit_length d)"

text \<open>
  The integer nearest to \<open>n / d\<close>, the even one of two that are equally near, from
  the quotient \<open>q\<close> and the remainder \<open>r\<close> of the division.
\<close>

definition round_remainder :: "int \<Rightarrow> int \<Rightarrow> int \<Rightarrow> int" where
  "round_remainder q r d =
     (if 2 * r < d then q else if d < 2 * r then q + 1 else if even q then q else q + 1)"

definition round_div :: "int \<Rightarrow> int \<Rightarrow> int" where
  "round_div n d = round_remainder (n div d) (n mod d) d"

text \<open>
  The double nearest to \<open>\<plusminus> (n / d) * 2 ^ k\<close>, for \<open>n\<close> not negative and positive \<open>d\<close>: the mantissa has 53
  bits, fewer below \<open>2 ^ (- 1022)\<close>; a value that rounds to \<open>2 ^ 1024\<close> or more is an
  infinity. The exponent \<open>e\<close> of the result is chosen first, then the mantissa
  is \<open>(n / d) * 2 ^ (k - e)\<close> rounded; a mantissa that rounds up to \<open>2 ^ 53\<close> takes
  the next exponent.
\<close>

definition pack :: "bool \<Rightarrow> int \<Rightarrow> int \<Rightarrow> double" where
  "pack s m e =
     (if m = 2 ^ 53 then (if 971 < e + 1 then Infinity s else Finite s (2 ^ 52) (e + 1))
      else if 971 < e then Infinity s else Finite s m e)"

definition round_at :: "bool \<Rightarrow> int \<Rightarrow> int \<Rightarrow> int \<Rightarrow> int \<Rightarrow> double" where
  "round_at s n d k e =
     pack s (if e \<le> k then round_div (n * 2 ^ nat (k - e)) d
             else round_div n (d * 2 ^ nat (e - k))) e"

definition round_to_double :: "bool \<Rightarrow> int \<Rightarrow> int \<Rightarrow> int \<Rightarrow> double" where
  "round_to_double s n d k =
     (if n = 0 then Finite s 0 (- 1074)
      else round_at s n d k (max (log2_floor n d + k - 52) (- 1074)))"

text \<open>
  A literal of the program text with the decimal value \<open>n / d\<close> (\<^verbatim>\<open>1.0e-24\<close> is
  \<open>float_lit 1 (10 ^ 24)\<close>), and the double of an integer.
\<close>

definition float_lit :: "int \<Rightarrow> int \<Rightarrow> double" where
  "float_lit n d = round_to_double False n d 0"

definition double_of_int :: "int \<Rightarrow> double" where
  "double_of_int i = round_to_double (i < 0) \<bar>i\<bar> 1 0"

definition signed :: "bool \<Rightarrow> int \<Rightarrow> int" where
  "signed s m = (if s then - m else m)"

fun double_neg :: "double \<Rightarrow> double" where
  "double_neg (Finite s m e) = Finite (\<not> s) m e"
| "double_neg (Infinity s) = Infinity (\<not> s)"
| "double_neg NaN = NaN"

fun double_mul :: "double \<Rightarrow> double \<Rightarrow> double" where
  "double_mul (Finite s m e) (Finite t n f) = round_to_double (s \<noteq> t) (m * n) 1 (e + f)"
| "double_mul (Finite s m e) (Infinity t) = (if m = 0 then NaN else Infinity (s \<noteq> t))"
| "double_mul (Infinity s) (Finite t n f) = (if n = 0 then NaN else Infinity (s \<noteq> t))"
| "double_mul (Infinity s) (Infinity t) = Infinity (s \<noteq> t)"
| "double_mul NaN y = NaN"
| "double_mul x NaN = NaN"

text \<open>
  The division of numpy: a division by zero does not raise, it gives an infinity, and
  zero by zero is not a number.
\<close>

fun double_div :: "double \<Rightarrow> double \<Rightarrow> double" where
  "double_div (Finite s m e) (Finite t n f) =
     (if n = 0 then (if m = 0 then NaN else Infinity (s \<noteq> t))
      else round_to_double (s \<noteq> t) m n (e - f))"
| "double_div (Finite s m e) (Infinity t) = Finite (s \<noteq> t) 0 (- 1074)"
| "double_div (Infinity s) (Finite t n f) = Infinity (s \<noteq> t)"
| "double_div (Infinity s) (Infinity t) = NaN"
| "double_div NaN y = NaN"
| "double_div x NaN = NaN"

fun double_add :: "double \<Rightarrow> double \<Rightarrow> double" where
  "double_add (Finite s m e) (Finite t n f) =
     (let k = min e f;
          a = signed s m * 2 ^ nat (e - k) + signed t n * 2 ^ nat (f - k)
      in if a = 0 then Finite (m = 0 \<and> n = 0 \<and> s \<and> t) 0 (- 1074)
         else round_to_double (a < 0) \<bar>a\<bar> 1 k)"
| "double_add (Finite s m e) (Infinity t) = Infinity t"
| "double_add (Infinity s) (Finite t n f) = Infinity s"
| "double_add (Infinity s) (Infinity t) = (if s = t then Infinity s else NaN)"
| "double_add NaN y = NaN"
| "double_add x NaN = NaN"

text \<open>The comparisons: every comparison with \<open>NaN\<close> is false, the two zeros are equal.\<close>

fun double_less :: "double \<Rightarrow> double \<Rightarrow> bool" where
  "double_less (Finite s m e) (Finite t n f) =
     (signed s m * 2 ^ nat (e - min e f) < signed t n * 2 ^ nat (f - min e f))"
| "double_less (Finite s m e) (Infinity t) = (\<not> t)"
| "double_less (Infinity s) (Finite t n f) = s"
| "double_less (Infinity s) (Infinity t) = (s \<and> \<not> t)"
| "double_less NaN y = False"
| "double_less x NaN = False"

fun double_less_eq :: "double \<Rightarrow> double \<Rightarrow> bool" where
  "double_less_eq (Finite s m e) (Finite t n f) =
     (signed s m * 2 ^ nat (e - min e f) \<le> signed t n * 2 ^ nat (f - min e f))"
| "double_less_eq (Finite s m e) (Infinity t) = (\<not> t)"
| "double_less_eq (Infinity s) (Finite t n f) = s"
| "double_less_eq (Infinity s) (Infinity t) = (s \<or> \<not> t)"
| "double_less_eq NaN y = False"
| "double_less_eq x NaN = False"

fun is_finite :: "double \<Rightarrow> bool" where
  "is_finite (Finite s m e) = True"
| "is_finite (Infinity s) = False"
| "is_finite NaN = False"

text \<open>
  The doubles with the notation of the arithmetic: \<open>0\<close> is \<^verbatim>\<open>0.0\<close>, and \<open>+\<close>, \<open>*\<close>,
  \<open>/\<close>, \<open><\<close> and \<open>\<le>\<close> are the operations above.
\<close>

instantiation double :: "{zero, one, plus, minus, uminus, times, inverse, ord}"
begin

definition zero_double_def: "0 = Finite False 0 (- 1074)"

definition one_double_def: "1 = Finite False (2 ^ 52) (- 52)"

definition plus_double_def: "x + y = double_add x y"

definition uminus_double_def: "- x = double_neg x"

definition minus_double_def: "x - y = double_add x (double_neg y)"

definition times_double_def: "x * y = double_mul x y"

definition divide_double_def: "x div y = double_div x y"

definition inverse_double_def: "inverse x = double_div (Finite False (2 ^ 52) (- 52)) x"

definition less_double_def: "x < y \<longleftrightarrow> double_less x y"

definition less_eq_double_def: "x \<le> y \<longleftrightarrow> double_less_eq x y"

instance ..

end

text \<open>
  The comparison \<^verbatim>\<open>==\<close> of two floating-point numbers, over any type of numbers: on the
  doubles it holds of the two zeros and of no \<open>NaN\<close>; on the reals it is the equality.
\<close>

definition float_eq :: "'a::ord \<Rightarrow> 'a \<Rightarrow> bool" where
  "float_eq x y \<longleftrightarrow> x \<le> y \<and> y \<le> x"

section \<open>The state of the operator\<close>

text \<open>
  The definitions of the state and of the arithmetic of the tallies are given over a
  type \<open>'a\<close> of numbers with the operations that the source uses. The source runs
  them on the doubles (\<open>'a\<close> is \<^typ>\<open>double\<close>); a property that is claimed of exact
  arithmetic is stated of the same definitions over the reals.
\<close>

subsection \<open>Settings, materials, the chain\<close>

text \<open>
  The attributes of \<^verbatim>\<open>OpenMCSettings\<close> that the operator reads (\<open>power_setting\<close> is
  \<^verbatim>\<open>settings.power\<close>); \<^verbatim>\<open>constant_seed\<close> is \<^verbatim>\<open>None\<close> unless a seed is configured.
\<close>

record 'a settings =
  batches :: int
  inactive :: int
  particles :: int
  lower_left :: "'a list"
  upper_right :: "'a list"
  entropy_dimension :: "int list"
  round_number :: bool
  constant_seed :: "int option"
  power_setting :: 'a

text \<open>The class \<^verbatim>\<open>Materials\<close>.\<close>

record 'a materials =
  temperature :: "'a option"
  sab :: "string list"

text \<open>
  What the operator reads of the depletion chain (\<^verbatim>\<open>self.chain\<close>, a parameter of the
  embedding): the nuclides in chain order with their \<^verbatim>\<open>fission_power\<close>, the dictionary
  \<^verbatim>\<open>nuclide_dict\<close> and the dictionary \<^verbatim>\<open>react_to_ind\<close> of the reactions.
\<close>

record 'a chain_nuclide =
  cn_name :: string
  fission_power :: 'a

record 'a depletion_chain =
  nuclides :: "'a chain_nuclide list"
  nuclide_dict :: "(string \<times> nat) list"
  react_to_ind :: "(string \<times> nat) list"

subsection \<open>The atom-number container\<close>

text \<open>
  Modelled from the spec: the atom-density storage container (the class
  \<^verbatim>\<open>AtomNumber\<close> of the module \<^verbatim>\<open>atom_number\<close>, which is not among the sources). The
  operator holds it as \<^verbatim>\<open>self.number\<close>, "total number of atoms in simulation", and
  builds it from the material dictionary, the nuclide dictionary and the volumes. Of
  its interface the wrapper uses the dictionaries \<^verbatim>\<open>mat_to_ind\<close> and \<^verbatim>\<open>nuc_to_ind\<close>, the
  list \<^verbatim>\<open>burn_mat_list\<close>, the read \<^verbatim>\<open>number[mat, nuc]\<close> and the write
  \<^verbatim>\<open>number[mat, nuc] = v\<close> of the number of atoms of a nuclide in a material (both
  addressed by material id and nuclide name), and \<^verbatim>\<open>get_atom_density(mat, nuc)\<close>, the
  number of atoms divided by the volume of the material (a division of numpy).
\<close>

record 'a atom_number =
  mat_to_ind :: "(string \<times> nat) list"
  nuc_to_ind :: "(string \<times> nat) list"
  burn_mat_list :: "string list"
  an_volume :: "string \<Rightarrow> 'a"
  atoms :: "string \<Rightarrow> string \<Rightarrow> 'a"

definition get_atom_density :: "('a::inverse) atom_number \<Rightarrow> string \<Rightarrow> string \<Rightarrow> 'a" where
  "get_atom_density num mat nuc = atoms num mat nuc / an_volume num mat"

definition set_number :: "'a atom_number \<Rightarrow> string \<Rightarrow> string \<Rightarrow> 'a \<Rightarrow> 'a atom_number" where
  "set_number num mat nuc v = num\<lparr>atoms := (atoms num)(mat := (atoms num mat)(nuc := v))\<rparr>"

subsection \<open>The reaction-rate container\<close>

text \<open>
  Modelled from the spec: the reaction-rate storage container (the class
  \<^verbatim>\<open>ReactionRates\<close> of the module \<^verbatim>\<open>reaction_rates\<close>, which is not among the sources):
  a dense array \<open>rates\<close> indexed by the local position of the burnable material, the
  index of the nuclide and the index of the reaction, of dimensions \<open>n_mat\<close>,
  \<open>n_nuc\<close> and \<open>n_react\<close>, with the dictionaries that give the indices.
\<close>

record 'a reaction_rates =
  rr_mat_to_ind :: "(string \<times> nat) list"
  rr_nuc_to_ind :: "(string \<times> nat) list"
  rr_react_to_ind :: "(string \<times> nat) list"
  n_mat :: nat
  n_nuc :: nat
  n_react :: nat
  rates :: "nat \<Rightarrow> nat \<Rightarrow> nat \<Rightarrow> 'a"

subsection \<open>The reductions of numpy\<close>

text \<open>
  \<^verbatim>\<open>np.sum\<close> of an array and \<^verbatim>\<open>np.dot\<close> of two arrays of one length. numpy does
  not fix the order in which they add (it sums in blocks, and the dot product is the
  one of the BLAS library), so the two functions are parameters of the embedding.
\<close>

record 'a numpy =
  np_sum :: "'a list \<Rightarrow> 'a"
  np_dot :: "'a list \<Rightarrow> 'a list \<Rightarrow> 'a"

text \<open>The reductions that add from left to right, starting at zero.\<close>

definition seq_numpy :: "('a::{zero, plus, times}) numpy" where
  "seq_numpy =
     \<lparr>np_sum = foldl (+) 0,
      np_dot = (\<lambda>xs ys. foldl (+) 0 (map (\<lambda>(x, y). x * y) (zip xs ys)))\<rparr>"

subsection \<open>The operator\<close>

text \<open>
  What a rank prints: the warning of \<^verbatim>\<open>generate_materials_xml\<close> with the nuclide, the
  material and the value it names.
\<close>

datatype 'a printed = Warning string string 'a

text \<open>
  The attributes of \<^verbatim>\<open>OpenMCOperator\<close> on one rank (\<open>op_size\<close> is \<^verbatim>\<open>self.size\<close>), and
  in \<open>op_stdout\<close> what the rank has printed so far.
\<close>

record 'a operator =
  op_rank :: nat
  op_size :: nat
  op_settings :: "'a settings"
  op_seed :: int
  op_number :: "'a atom_number"
  op_materials :: "'a materials list"
  op_participating_nuclides :: "string set"
  op_chain :: "'a depletion_chain"
  op_reaction_rates :: "'a reaction_rates"
  op_mat_tally_ind :: "(string \<times> nat) list"
  op_stdout :: "'a printed list"

section \<open>\<^verbatim>\<open>generate_materials_xml\<close>\<close>

text \<open>
  The document is kept as a structure: a \<^verbatim>\<open>material\<close> element has the attribute
  \<^verbatim>\<open>id\<close>, the children \<^verbatim>\<open>density\<close> (with its units) and \<^verbatim>\<open>temperature\<close>, one child
  \<^verbatim>\<open>nuclide\<close> with the attributes \<^verbatim>\<open>name\<close> and \<^verbatim>\<open>ao\<close> per emitted nuclide and one
  child \<^verbatim>\<open>sab\<close> per scattering law. The text of a number, \<^verbatim>\<open>str(val)\<close>, is not
  modelled: the attribute \<^verbatim>\<open>ao\<close> holds the number \<^verbatim>\<open>val\<close> of line 530, as \<open>Ao val\<close>
  when it is written as it is and as \<open>Ao_rounded val\<close> when the lines 534--538 round it
  first (to eight digits of the mantissa, with the decimal logarithm of numpy; that
  arithmetic is not modelled).
\<close>

datatype ao = Ao double | Ao_rounded double

record material_el =
  el_id :: string
  el_density_units :: string
  el_temperature :: "double option"
  el_nuclides :: "(string \<times> ao) list"
  el_sab :: "string list"

text \<open>
  The body of the loop over the nuclides (lines 529--549). It carries the container, the
  \<^verbatim>\<open>nuclide\<close> children made so far and what was printed. The product of line 530 and
  the two comparisons are those of the doubles; the literal \<^verbatim>\<open>1.0e-24\<close> is the double
  \<open>float_lit 1 (10 ^ 24)\<close>, and \<^verbatim>\<open>-1.0e-21\<close> is the negation of the literal
  \<^verbatim>\<open>1.0e-21\<close>.
\<close>

definition emit_nuclide ::
  "double settings \<Rightarrow> string set \<Rightarrow> string
     \<Rightarrow> double atom_number \<times> (string \<times> ao) list \<times> double printed list \<Rightarrow> string
     \<Rightarrow> double atom_number \<times> (string \<times> ao) list \<times> double printed list" where
  "emit_nuclide st part mat acc nuc =
     (case acc of (num, els, out) \<Rightarrow>
        if nuc \<in> part then
          let val = float_lit 1 (10 ^ 24) * get_atom_density num mat nuc
          in if 0 < val
             then (num, els @ [(nuc, if round_number st then Ao_rounded val else Ao val)], out)
             else (set_number num mat nuc 0, els,
                   if val < - float_lit 1 (10 ^ 21) then out @ [Warning nuc mat val] else out)
        else (num, els, out))"

text \<open>
  The body of the loop over the materials (lines 518--561) for the entry \<open>(mat, mat_id)\<close>
  of \<^verbatim>\<open>mat_to_ind\<close>; \<^verbatim>\<open>self.materials[mat_id]\<close> raises \<^verbatim>\<open>IndexError\<close> out of range.
  \<open>have_lxml\<close> is the flag \<^verbatim>\<open>_have_lxml\<close> of the module: without \<^verbatim>\<open>lxml\<close> the
  name \<^verbatim>\<open>ET\<close> is the \<^verbatim>\<open>ElementTree\<close> of the standard library, whose \<^verbatim>\<open>tostring\<close> has
  no parameter \<^verbatim>\<open>pretty_print\<close>, and the call of line 560 raises \<^verbatim>\<open>TypeError\<close>, after
  the loop over the nuclides of the material.
\<close>

definition material_xml ::
  "bool \<Rightarrow> double settings \<Rightarrow> string set \<Rightarrow> double materials list
     \<Rightarrow> double atom_number \<times> double printed list
     \<Rightarrow> string \<times> nat \<Rightarrow> error + (material_el \<times> double atom_number \<times> double printed list)" where
  "material_xml have_lxml st part mats acc entry =
     (case (acc, entry) of ((num, out), (mat, mat_id)) \<Rightarrow>
        if mat_id < length mats then
          (case foldl (emit_nuclide st part mat) (num, [], out) (od_keys (nuc_to_ind num)) of
             (num', els, out') \<Rightarrow>
               if have_lxml
               then Inr (\<lparr>el_id = mat, el_density_units = ''sum'',
                           el_temperature = temperature (mats ! mat_id),
                           el_nuclides = els,
                           el_sab = sab (mats ! mat_id)\<rparr>, num', out')
               else Inl TypeError)
        else Inl IndexError)"

fun materials_loop ::
  "bool \<Rightarrow> double settings \<Rightarrow> string set \<Rightarrow> double materials list \<Rightarrow> (string \<times> nat) list
     \<Rightarrow> material_el list \<times> double atom_number \<times> double printed list
     \<Rightarrow> error + (material_el list \<times> double atom_number \<times> double printed list)" where
  "materials_loop have_lxml st part mats [] acc = Inr acc"
| "materials_loop have_lxml st part mats (entry # entries) (xml_strings, num, out) =
     (case material_xml have_lxml st part mats (num, out) entry of
        Inl e \<Rightarrow> Inl e
      | Inr (fragment, num', out') \<Rightarrow>
          materials_loop have_lxml st part mats entries (xml_strings @ [fragment], num', out'))"

text \<open>
  The part of the method that a rank runs on its own (lines 515--563): the result is the
  rank's \<^verbatim>\<open>xml_string\<close>, here the list of its \<^verbatim>\<open>material\<close> elements, and the operator
  with the container and the output as the loop left them.
\<close>

definition generate_materials_xml ::
  "bool \<Rightarrow> double operator \<Rightarrow> error + (material_el list \<times> double operator)" where
  "generate_materials_xml have_lxml op =
     (case materials_loop have_lxml (op_settings op) (op_participating_nuclides op)
             (op_materials op) (mat_to_ind (op_number op)) ([], op_number op, op_stdout op) of
        Inl e \<Rightarrow> Inl e
      | Inr (xml_strings, num', out') \<Rightarrow>
          Inr (xml_strings, op\<lparr>op_number := num', op_stdout := out'\<rparr>))"

text \<open>
  Lines 565--583: every other rank sends its \<^verbatim>\<open>xml_string\<close> to rank 0, which writes its
  own and then the received ones in rank order between the header and the footer; all
  ranks then meet in a barrier. The content of \<^verbatim>\<open>materials.xml\<close> is the list of the
  elements of the ranks in rank order.
\<close>

definition materials_xml_file :: "material_el list list \<Rightarrow> material_el list" where
  "materials_xml_file xml_strings = concat xml_strings"

subsection \<open>Notions used to state the properties of \<^verbatim>\<open>generate_materials_xml\<close>\<close>

text \<open>The double \<^verbatim>\<open>val\<close> that line 530 computes for a material and a nuclide.\<close>

definition density_val :: "double atom_number \<Rightarrow> string \<Rightarrow> string \<Rightarrow> double" where
  "density_val num mat nuc = float_lit 1 (10 ^ 24) * get_atom_density num mat nuc"

text \<open>The threshold \<^verbatim>\<open>-1.0e-21\<close> of line 546.\<close>

definition warning_threshold :: double where
  "warning_threshold = - float_lit 1 (10 ^ 21)"

text \<open>The value written into the \<^verbatim>\<open>ao\<close> attribute for a positive \<^verbatim>\<open>val\<close>.\<close>

definition emitted :: "double settings \<Rightarrow> double \<Rightarrow> ao" where
  "emitted st val = (if round_number st then Ao_rounded val else Ao val)"

text \<open>
  The container in which the entries of the materials \<open>ms\<close> and the participating
  nuclides \<open>ns\<close> whose \<^verbatim>\<open>val\<close> is not positive are zero, and all other entries are
  as in \<open>num\<close>.
\<close>

definition clamp_atoms ::
  "string set \<Rightarrow> string set \<Rightarrow> string set \<Rightarrow> double atom_number \<Rightarrow> double atom_number" where
  "clamp_atoms part ms ns num =
     num\<lparr>atoms := (\<lambda>mat nuc.
        if mat \<in> ms \<and> nuc \<in> ns \<and> nuc \<in> part \<and> \<not> 0 < density_val num mat nuc
        then 0 else atoms num mat nuc)\<rparr>"

text \<open>The \<^verbatim>\<open>nuclide\<close> children and the warnings that the nuclides \<open>nucs\<close> give for a material.\<close>

definition nuclide_entries ::
  "double settings \<Rightarrow> string set \<Rightarrow> double atom_number \<Rightarrow> string \<Rightarrow> string list
     \<Rightarrow> (string \<times> ao) list" where
  "nuclide_entries st part num mat nucs =
     map (\<lambda>n. (n, emitted st (density_val num mat n)))
       (filter (\<lambda>n. n \<in> part \<and> 0 < density_val num mat n) nucs)"

definition warnings_of ::
  "string set \<Rightarrow> double atom_number \<Rightarrow> string \<Rightarrow> string list \<Rightarrow> double printed list" where
  "warnings_of part num mat nucs =
     map (\<lambda>n. Warning n mat (density_val num mat n))
       (filter (\<lambda>n. n \<in> part \<and> \<not> 0 < density_val num mat n \<and>
                    density_val num mat n < warning_threshold) nucs)"

text \<open>The element of one entry of \<^verbatim>\<open>mat_to_ind\<close>, and the warnings of a list of materials.\<close>

definition material_element ::
  "double settings \<Rightarrow> string set \<Rightarrow> double materials list \<Rightarrow> double atom_number
     \<Rightarrow> string \<times> nat \<Rightarrow> material_el" where
  "material_element st part mats num entry =
     \<lparr>el_id = fst entry, el_density_units = ''sum'',
      el_temperature = temperature (mats ! snd entry),
      el_nuclides = nuclide_entries st part num (fst entry) (od_keys (nuc_to_ind num)),
      el_sab = sab (mats ! snd entry)\<rparr>"

definition all_warnings ::
  "string set \<Rightarrow> double atom_number \<Rightarrow> string list \<Rightarrow> double printed list" where
  "all_warnings part num ms =
     concat (map (\<lambda>mat. warnings_of part num mat (od_keys (nuc_to_ind num))) ms)"

text \<open>
  The state in which the method runs: the keys of the two dictionaries are distinct (they
  are dictionaries) and every material index has its entry in \<^verbatim>\<open>self.materials\<close>.
\<close>

definition wf_operator :: "'a operator \<Rightarrow> bool" where
  "wf_operator op \<longleftrightarrow>
     distinct (od_keys (mat_to_ind (op_number op))) \<and>
     distinct (od_keys (nuc_to_ind (op_number op))) \<and>
     (\<forall>entry \<in> set (mat_to_ind (op_number op)). snd entry < length (op_materials op))"

definition clamped_number :: "double operator \<Rightarrow> double atom_number" where
  "clamped_number op =
     clamp_atoms (op_participating_nuclides op)
       (set (od_keys (mat_to_ind (op_number op)))) (set (od_keys (nuc_to_ind (op_number op))))
       (op_number op)"

text \<open>
  The entry of material \<open>mat\<close> and nuclide \<open>nuc\<close> is one that the method sets to
  zero: both are keys of the container, the nuclide participates and its \<^verbatim>\<open>val\<close> is
  not positive.
\<close>

definition clamped :: "double operator \<Rightarrow> string \<Rightarrow> string \<Rightarrow> bool" where
  "clamped op mat nuc \<longleftrightarrow>
     mat \<in> set (od_keys (mat_to_ind (op_number op))) \<and>
     nuc \<in> set (od_keys (nuc_to_ind (op_number op))) \<and>
     nuc \<in> op_participating_nuclides op \<and>
     \<not> 0 < density_val (op_number op) mat nuc"

text \<open>The warnings in an output that name the nuclide \<open>nuc\<close> and the material \<open>mat\<close>.\<close>

definition is_warning_for :: "string \<Rightarrow> string \<Rightarrow> 'a printed \<Rightarrow> bool" where
  "is_warning_for nuc mat w = (case w of Warning n m v \<Rightarrow> n = nuc \<and> m = mat)"

definition warnings_for :: "string \<Rightarrow> string \<Rightarrow> 'a printed list \<Rightarrow> 'a printed list" where
  "warnings_for nuc mat out = filter (is_warning_for nuc mat) out"

text \<open>What was printed between the states \<open>op\<close> and \<open>op'\<close>.\<close>

definition printed_during :: "'a operator \<Rightarrow> 'a operator \<Rightarrow> 'a printed list" where
  "printed_during op op' = drop (length (op_stdout op)) (op_stdout op')"

text \<open>
  The document has a \<^verbatim>\<open>nuclide\<close> child for \<open>nuc\<close> (with the value \<open>v\<close>) in the
  element of the material \<open>mat\<close>.
\<close>

definition nuclide_emitted :: "material_el list \<Rightarrow> string \<Rightarrow> string \<Rightarrow> ao \<Rightarrow> bool" where
  "nuclide_emitted xml mat nuc v \<longleftrightarrow>
     (\<exists>el \<in> set xml. el_id el = mat \<and> (nuc, v) \<in> set (el_nuclides el))"

definition has_nuclide_entry :: "material_el list \<Rightarrow> string \<Rightarrow> string \<Rightarrow> bool" where
  "has_nuclide_entry xml mat nuc \<longleftrightarrow>
     (\<exists>el \<in> set xml. el_id el = mat \<and> nuc \<in> fst ` set (el_nuclides el))"

text \<open>The warnings about \<open>nuc\<close> in \<open>mat\<close> that one run of the method prints.\<close>

definition materials_warnings ::
  "bool \<Rightarrow> double operator \<Rightarrow> string \<Rightarrow> string \<Rightarrow> double printed list option" where
  "materials_warnings have_lxml op nuc mat =
     (case generate_materials_xml have_lxml op of
        Inl e \<Rightarrow> None
      | Inr (xml, op') \<Rightarrow> Some (warnings_for nuc mat (printed_during op op')))"

section \<open>\<^verbatim>\<open>generate_settings_xml\<close>\<close>

text \<open>The settings document, as the attributes that the method sets on it.\<close>

record 'a settings_el =
  se_batches :: int
  se_inactive :: int
  se_particles :: int
  se_source_box :: "'a list \<times> 'a list"
  se_entropy_lower_left :: "'a list"
  se_entropy_upper_right :: "'a list"
  se_entropy_dimension :: "int list"
  se_seed :: int

text \<open>
  Lines 596--621. \<open>draw\<close> is the number that \<^verbatim>\<open>random.randint(1, sys.maxsize-1)\<close>
  returns when it is called. Only rank 0 enters the body: it is the only rank that writes
  the document and the only one that assigns \<^verbatim>\<open>self.seed\<close>.
\<close>

definition generate_settings_xml ::
  "int \<Rightarrow> 'a operator \<Rightarrow> 'a settings_el option \<times> 'a operator" where
  "generate_settings_xml draw op =
     (if op_rank op = 0 then
        let st = op_settings op;
            seed = (case constant_seed st of Some s \<Rightarrow> s | None \<Rightarrow> draw)
        in (Some \<lparr>se_batches = batches st, se_inactive = inactive st,
                   se_particles = particles st,
                   se_source_box = (lower_left st, upper_right st),
                   se_entropy_lower_left = lower_left st,
                   se_entropy_upper_right = upper_right st,
                   se_entropy_dimension = entropy_dimension st,
                   se_seed = seed\<rparr>,
            op\<lparr>op_seed := seed\<rparr>)
      else (None, op))"

section \<open>\<^verbatim>\<open>unpack_tallies_and_normalize\<close>\<close>

subsection \<open>The statepoint file\<close>

text \<open>
  What the method reads of the file: \<^verbatim>\<open>k_combined[0]\<close>, the bins of the material
  filter, the nuclides and the scores of tally 1, and the plane \<^verbatim>\<open>[:, :, 0]\<close> of its
  results (one row per material bin, one entry per pair of a nuclide and a score).
\<close>

record 'a statepoint =
  k_combined :: 'a
  sp_materials :: "nat list"
  sp_nuclides :: "string list"
  sp_reactions :: "string list"
  sp_results :: "'a list list"

subsection \<open>Lookups that raise\<close>

definition od_get :: "(string \<times> 'v) list \<Rightarrow> string \<Rightarrow> error + 'v" where
  "od_get d k = (case map_of d k of None \<Rightarrow> Inl (KeyError k) | Some v \<Rightarrow> Inr v)"

text \<open>The comprehension \<^verbatim>\<open>[d[k] for k in ks]\<close>.\<close>

fun lookup_all :: "(string \<times> 'v) list \<Rightarrow> string list \<Rightarrow> error + 'v list" where
  "lookup_all d [] = Inr []"
| "lookup_all d (k # ks) =
     (case od_get d k of
        Inl e \<Rightarrow> Inl e
      | Inr v \<Rightarrow> (case lookup_all d ks of Inl e \<Rightarrow> Inl e | Inr vs \<Rightarrow> Inr (v # vs)))"

text \<open>\<^verbatim>\<open>xs.index(x)\<close>: the first position of \<open>x\<close>, or \<^verbatim>\<open>ValueError\<close>.\<close>

fun index_of :: "'b list \<Rightarrow> 'b \<Rightarrow> error + nat" where
  "index_of [] x = Inl ValueError"
| "index_of (y # ys) x =
     (if y = x then Inr 0
      else case index_of ys x of Inl e \<Rightarrow> Inl e | Inr i \<Rightarrow> Inr (Suc i))"

text \<open>\<^verbatim>\<open>self.number[mat, nuc]\<close> with a material id and a nuclide name.\<close>

definition number_getitem :: "'a atom_number \<Rightarrow> string \<Rightarrow> string \<Rightarrow> error + 'a" where
  "number_getitem num mat nuc =
     (if \<not> od_mem mat (mat_to_ind num) then Inl (KeyError mat)
      else if \<not> od_mem nuc (nuc_to_ind num) then Inl (KeyError nuc)
      else Inr (atoms num mat nuc))"

subsection \<open>The fission power per nuclide index (lines 756--764)\<close>

fun power_vec_loop ::
  "'a reaction_rates \<Rightarrow> 'a chain_nuclide list \<Rightarrow> (nat \<Rightarrow> 'a) \<Rightarrow> error + (nat \<Rightarrow> 'a)" where
  "power_vec_loop rr [] power_vec = Inr power_vec"
| "power_vec_loop rr (nuclide # rest) power_vec =
     (if od_mem (cn_name nuclide) (rr_nuc_to_ind rr) then
        (case od_get (rr_nuc_to_ind rr) (cn_name nuclide) of
           Inl e \<Rightarrow> Inl e
         | Inr ind \<Rightarrow>
             if ind < n_nuc rr
             then power_vec_loop rr rest (power_vec(ind := fission_power nuclide))
             else Inl IndexError)
      else power_vec_loop rr rest power_vec)"

subsection \<open>One material: expansion (lines 777--784)\<close>

text \<open>
  The arrays \<^verbatim>\<open>results_expanded\<close> (\<open>n_nuc\<close> by \<open>n_react\<close>) and \<^verbatim>\<open>number\<close>
  (\<open>n_nuc\<close>) are functions of the indices; an index out of the dimensions raises
  \<^verbatim>\<open>IndexError\<close>. The loops carry the two arrays and the position \<open>j\<close> in the row of
  results.
\<close>

type_synonym 'a expansion = "(nat \<Rightarrow> nat \<Rightarrow> 'a) \<times> (nat \<Rightarrow> 'a) \<times> nat"

fun expand_reactions ::
  "'a reaction_rates \<Rightarrow> 'a atom_number \<Rightarrow> string \<Rightarrow> 'a list \<Rightarrow> string \<Rightarrow> nat \<Rightarrow> nat list
     \<Rightarrow> 'a expansion \<Rightarrow> error + 'a expansion" where
  "expand_reactions rr num mat results nuc i_nuc_results [] acc = Inr acc"
| "expand_reactions rr num mat results nuc i_nuc_results (react # reacts)
       (results_expanded, number, j) =
     (if \<not> j < length results then Inl IndexError
      else if \<not> (i_nuc_results < n_nuc rr \<and> react < n_react rr) then Inl IndexError
      else case number_getitem num mat nuc of
             Inl e \<Rightarrow> Inl e
           | Inr a \<Rightarrow>
               expand_reactions rr num mat results nuc i_nuc_results reacts
                 (results_expanded(i_nuc_results := (results_expanded i_nuc_results)(react := results ! j)),
                  number(i_nuc_results := a),
                  j + 1))"

text \<open>
  The outer loop runs over \<^verbatim>\<open>enumerate(nuc_ind)\<close> and reads the name
  \<^verbatim>\<open>nuclides[i_nuc_array]\<close>: it runs over the pairs of a name and its index.
\<close>

fun expand_nuclides ::
  "'a reaction_rates \<Rightarrow> 'a atom_number \<Rightarrow> string \<Rightarrow> 'a list \<Rightarrow> (string \<times> nat) list \<Rightarrow> nat list
     \<Rightarrow> 'a expansion \<Rightarrow> error + 'a expansion" where
  "expand_nuclides rr num mat results [] react_ind acc = Inr acc"
| "expand_nuclides rr num mat results ((nuc, i_nuc_results) # rest) react_ind acc =
     (case expand_reactions rr num mat results nuc i_nuc_results react_ind acc of
        Inl e \<Rightarrow> Inl e
      | Inr acc' \<Rightarrow> expand_nuclides rr num mat results rest react_ind acc')"

subsection \<open>One material: the fission power (line 787)\<close>

text \<open>
  \<^verbatim>\<open>np.dot(results_expanded[:, fission_ind], power_vec)\<close>: the two arrays have the
  length \<open>n\<close>.
\<close>

definition dot_fission ::
  "'a numpy \<Rightarrow> nat \<Rightarrow> (nat \<Rightarrow> nat \<Rightarrow> 'a) \<Rightarrow> nat \<Rightarrow> (nat \<Rightarrow> 'a) \<Rightarrow> 'a" where
  "dot_fission np n results_expanded fission_ind power_vec =
     np_dot np (map (\<lambda>i. results_expanded i fission_ind) [0 ..< n]) (map power_vec [0 ..< n])"

subsection \<open>One material: division by the number of atoms (lines 789--793)\<close>

text \<open>
  The in-place division \<^verbatim>\<open>x /= n\<close> on an entry of the array, a division of numpy. The
  source runs it only under the test \<^verbatim>\<open>number[i_nuc_results] != 0.0\<close>.
\<close>

definition divide_reactions ::
  "(nat \<Rightarrow> 'a::{zero, inverse, ord}) \<Rightarrow> nat \<Rightarrow> (nat \<Rightarrow> nat \<Rightarrow> 'a) \<Rightarrow> nat list
     \<Rightarrow> (nat \<Rightarrow> nat \<Rightarrow> 'a)" where
  "divide_reactions number i_nuc_results results_expanded react_ind =
     foldl (\<lambda>re react.
              if \<not> float_eq (number i_nuc_results) 0
              then re(i_nuc_results := (re i_nuc_results)(react := re i_nuc_results react / number i_nuc_results))
              else re)
       results_expanded react_ind"

definition divide_nuclides ::
  "(nat \<Rightarrow> 'a::{zero, inverse, ord}) \<Rightarrow> (nat \<Rightarrow> nat \<Rightarrow> 'a) \<Rightarrow> nat list \<Rightarrow> nat list
     \<Rightarrow> (nat \<Rightarrow> nat \<Rightarrow> 'a)" where
  "divide_nuclides number results_expanded nuc_ind react_ind =
     foldl (\<lambda>re i_nuc_results. divide_reactions number i_nuc_results re react_ind)
       results_expanded nuc_ind"

subsection \<open>The loop over the burnable materials of the rank (lines 767--795)\<close>

text \<open>
  The body for the material \<open>mat\<close> at position \<open>i\<close>: it returns the new rates and
  the new partial power. The power is added before the division, from the expanded
  results.
\<close>

fun unpack_material ::
  "'a numpy \<Rightarrow> 'a statepoint \<Rightarrow> 'a reaction_rates \<Rightarrow> 'a atom_number \<Rightarrow> (string \<times> nat) list
     \<Rightarrow> nat list \<Rightarrow> nat \<Rightarrow> (nat \<Rightarrow> 'a) \<Rightarrow> (nat \<Rightarrow> nat \<Rightarrow> nat \<Rightarrow> 'a) \<times> 'a \<Rightarrow> nat \<times> string
     \<Rightarrow> error + ((nat \<Rightarrow> nat \<Rightarrow> nat \<Rightarrow> 'a::{zero, plus, inverse, ord}) \<times> 'a)" where
  "unpack_material np sp rr num nucs react_ind fission_ind power_vec (rts, pw) (i, mat) =
     (case index_of (map str_nat (sp_materials sp)) mat of
        Inl e \<Rightarrow> Inl e
      | Inr slab \<Rightarrow>
          if \<not> slab < length (sp_results sp) then Inl IndexError
          else
            (case expand_nuclides rr num mat (sp_results sp ! slab) nucs react_ind
                    (\<lambda>n r. 0, \<lambda>n. 0, 0) of
               Inl e \<Rightarrow> Inl e
             | Inr (results_expanded, number, j) \<Rightarrow>
                 if \<not> fission_ind < n_react rr then Inl IndexError
                 else if \<not> i < n_mat rr then Inl IndexError
                 else
                   Inr (fun_upd rts i
                          (divide_nuclides number results_expanded (map snd nucs) react_ind),
                        pw + dot_fission np (n_nuc rr) results_expanded fission_ind power_vec)))"

declare unpack_material.simps [simp del]

fun unpack_materials ::
  "'a numpy \<Rightarrow> 'a statepoint \<Rightarrow> 'a reaction_rates \<Rightarrow> 'a atom_number \<Rightarrow> (string \<times> nat) list
     \<Rightarrow> nat list \<Rightarrow> nat \<Rightarrow> (nat \<Rightarrow> 'a) \<Rightarrow> (nat \<times> string) list
     \<Rightarrow> (nat \<Rightarrow> nat \<Rightarrow> nat \<Rightarrow> 'a) \<times> 'a
     \<Rightarrow> error + ((nat \<Rightarrow> nat \<Rightarrow> nat \<Rightarrow> 'a::{zero, plus, inverse, ord}) \<times> 'a)" where
  "unpack_materials np sp rr num nucs react_ind fission_ind power_vec [] acc = Inr acc"
| "unpack_materials np sp rr num nucs react_ind fission_ind power_vec (entry # entries) acc =
     (case unpack_material np sp rr num nucs react_ind fission_ind power_vec acc entry of
        Inl e \<Rightarrow> Inl e
      | Inr acc' \<Rightarrow> unpack_materials np sp rr num nucs react_ind fission_ind power_vec entries acc')"

subsection \<open>The part of the method that a rank runs on its own (lines 731--795)\<close>

text \<open>
  The result is the operator with the rates as the loop stored them (divided by the
  numbers of atoms, not yet normalised) and the partial power of the rank. Line 731
  sets every rate to \<^verbatim>\<open>0.0\<close> first.
\<close>

definition unpack_tallies ::
  "'a numpy \<Rightarrow> 'a statepoint \<Rightarrow> 'a operator
     \<Rightarrow> error + ('a::{zero, plus, inverse, ord} operator \<times> 'a)" where
  "unpack_tallies np sp op =
     (let rr = op_reaction_rates op in
      case lookup_all (rr_nuc_to_ind rr) (sp_nuclides sp) of
        Inl e \<Rightarrow> Inl e
      | Inr nuc_ind \<Rightarrow>
         (case lookup_all (rr_react_to_ind rr) (sp_reactions sp) of
            Inl e \<Rightarrow> Inl e
          | Inr react_ind \<Rightarrow>
             (case od_get (rr_react_to_ind rr) ''fission'' of
                Inl e \<Rightarrow> Inl e
              | Inr fission_ind \<Rightarrow>
                 (case power_vec_loop rr (nuclides (op_chain op)) (\<lambda>n. 0) of
                    Inl e \<Rightarrow> Inl e
                  | Inr power_vec \<Rightarrow>
                     (case unpack_materials np sp rr (op_number op) (zip (sp_nuclides sp) nuc_ind)
                             react_ind fission_ind power_vec
                             (enumerate 0 (burn_mat_list (op_number op)))
                             (\<lambda>i n r. 0, 0) of
                        Inl e \<Rightarrow> Inl e
                      | Inr (rts, pw) \<Rightarrow>
                          Inr (op\<lparr>op_reaction_rates := rr\<lparr>rates := rts\<rparr>\<rparr>, pw))))))"

subsection \<open>The reduction of the power and the normalisation (lines 797--812)\<close>

text \<open>
  Rank 0 puts its own partial power and the ones it receives from the ranks
  \<open>1, \<dots>, size - 1\<close> (each sent with the rank as tag) into \<^verbatim>\<open>power_array\<close>, sums it
  with \<^verbatim>\<open>np.sum\<close> and broadcasts the sum.
\<close>

definition gather_power :: "'a numpy \<Rightarrow> 'a list \<Rightarrow> 'a" where
  "gather_power np power_array = np_sum np power_array"

text \<open>
  Line 812: every rank multiplies its whole array by \<^verbatim>\<open>settings.power / power\<close>;
  \<^verbatim>\<open>power\<close> is a \<^verbatim>\<open>float64\<close> of numpy, and the division does not raise.
\<close>

definition normalize :: "'a \<Rightarrow> 'a operator \<Rightarrow> 'a::{times, inverse} operator" where
  "normalize pw op =
     op\<lparr>op_reaction_rates := (op_reaction_rates op)
          \<lparr>rates := (\<lambda>i n r. rates (op_reaction_rates op) i n r *
                              (power_setting (op_settings op) / pw))\<rparr>\<rparr>"

text \<open>Every rank runs the first part; the first error in rank order is the result.\<close>

fun unpack_all ::
  "'a numpy \<Rightarrow> 'a statepoint \<Rightarrow> 'a operator list
     \<Rightarrow> error + ('a::{zero, plus, inverse, ord} operator \<times> 'a) list" where
  "unpack_all np sp [] = Inr []"
| "unpack_all np sp (op # ops) =
     (case unpack_tallies np sp op of
        Inl e \<Rightarrow> Inl e
      | Inr r \<Rightarrow> (case unpack_all np sp ops of Inl e \<Rightarrow> Inl e | Inr rs \<Rightarrow> Inr (r # rs)))"

text \<open>
  The method on all the ranks of the communicator (the list holds the operator of rank
  \<open>0\<close>, of rank \<open>1\<close>, \<dots>): the result is the value \<^verbatim>\<open>k_combined\<close> that every rank
  returns and the operators after the normalisation.
\<close>

definition unpack_tallies_and_normalize ::
  "'a numpy \<Rightarrow> 'a statepoint \<Rightarrow> 'a operator list
     \<Rightarrow> error + ('a \<times> 'a::{zero, plus, times, inverse, ord} operator list)" where
  "unpack_tallies_and_normalize np sp ops =
     (case unpack_all np sp ops of
        Inl e \<Rightarrow> Inl e
      | Inr rs \<Rightarrow>
          let pw = gather_power np (map snd rs)
          in Inr (k_combined sp, map (\<lambda>r. normalize pw (fst r)) rs))"

subsection \<open>Notions used to state the properties of \<^verbatim>\<open>unpack_tallies_and_normalize\<close>\<close>

text \<open>The index that a dictionary gives to a key.\<close>

definition index_in :: "(string \<times> nat) list \<Rightarrow> string \<Rightarrow> nat" where
  "index_in d k = (case map_of d k of Some i \<Rightarrow> i | None \<Rightarrow> 0)"

text \<open>The lists \<^verbatim>\<open>nuc_ind\<close> and \<^verbatim>\<open>react_ind\<close>, the index \<^verbatim>\<open>fission_ind\<close> and the array \<^verbatim>\<open>power_vec\<close> that the method computes on a rank.\<close>

definition nuc_ind_of :: "'a statepoint \<Rightarrow> 'a operator \<Rightarrow> nat list" where
  "nuc_ind_of sp op = map (index_in (rr_nuc_to_ind (op_reaction_rates op))) (sp_nuclides sp)"

definition react_ind_of :: "'a statepoint \<Rightarrow> 'a operator \<Rightarrow> nat list" where
  "react_ind_of sp op = map (index_in (rr_react_to_ind (op_reaction_rates op))) (sp_reactions sp)"

definition fission_ind_of :: "'a operator \<Rightarrow> nat" where
  "fission_ind_of op = index_in (rr_react_to_ind (op_reaction_rates op)) ''fission''"

definition power_vec_of :: "('a::zero) operator \<Rightarrow> nat \<Rightarrow> 'a" where
  "power_vec_of op =
     (case power_vec_loop (op_reaction_rates op) (nuclides (op_chain op)) (\<lambda>n. 0) of
        Inr power_vec \<Rightarrow> power_vec
      | Inl e \<Rightarrow> (\<lambda>n. 0))"

text \<open>
  For a material of the rank: its row in the results, the arrays \<^verbatim>\<open>results_expanded\<close>
  and \<^verbatim>\<open>number\<close> as the expansion leaves them (before the division), the array after
  the division, and its contribution to the power.
\<close>

definition slab_of :: "'a statepoint \<Rightarrow> string \<Rightarrow> nat" where
  "slab_of sp mat =
     (case index_of (map str_nat (sp_materials sp)) mat of Inr slab \<Rightarrow> slab | Inl e \<Rightarrow> 0)"

definition expansion_of ::
  "'a statepoint \<Rightarrow> ('a::zero) operator \<Rightarrow> string \<Rightarrow> (nat \<Rightarrow> nat \<Rightarrow> 'a) \<times> (nat \<Rightarrow> 'a)" where
  "expansion_of sp op mat =
     (case expand_nuclides (op_reaction_rates op) (op_number op) mat
             (sp_results sp ! slab_of sp mat)
             (zip (sp_nuclides sp) (nuc_ind_of sp op)) (react_ind_of sp op)
             (\<lambda>n r. 0, \<lambda>n. 0, 0) of
        Inr (results_expanded, number, j) \<Rightarrow> (results_expanded, number)
      | Inl e \<Rightarrow> (\<lambda>n r. 0, \<lambda>n. 0))"

definition results_expanded_of ::
  "'a statepoint \<Rightarrow> ('a::zero) operator \<Rightarrow> string \<Rightarrow> nat \<Rightarrow> nat \<Rightarrow> 'a" where
  "results_expanded_of sp op mat = fst (expansion_of sp op mat)"

definition number_of :: "'a statepoint \<Rightarrow> ('a::zero) operator \<Rightarrow> string \<Rightarrow> nat \<Rightarrow> 'a" where
  "number_of sp op mat = snd (expansion_of sp op mat)"

definition divided_of ::
  "'a statepoint \<Rightarrow> ('a::{zero, inverse, ord}) operator \<Rightarrow> string \<Rightarrow> nat \<Rightarrow> nat \<Rightarrow> 'a" where
  "divided_of sp op mat =
     divide_nuclides (number_of sp op mat) (results_expanded_of sp op mat)
       (nuc_ind_of sp op) (react_ind_of sp op)"

definition material_power ::
  "'a numpy \<Rightarrow> 'a statepoint \<Rightarrow> ('a::zero) operator \<Rightarrow> string \<Rightarrow> 'a" where
  "material_power np sp op mat =
     dot_fission np (n_nuc (op_reaction_rates op)) (results_expanded_of sp op mat)
       (fission_ind_of op) (power_vec_of op)"

text \<open>
  The partial power of a rank (the contributions of its materials, added in their order
  to \<^verbatim>\<open>0.0\<close>), the rates that its loop stores, and the operator with these rates.
\<close>

definition partial_power ::
  "'a numpy \<Rightarrow> 'a statepoint \<Rightarrow> ('a::{zero, plus}) operator \<Rightarrow> 'a" where
  "partial_power np sp op =
     foldl (+) 0 (map (material_power np sp op) (burn_mat_list (op_number op)))"

definition ingested_rates ::
  "'a statepoint \<Rightarrow> ('a::{zero, inverse, ord}) operator \<Rightarrow> nat \<Rightarrow> nat \<Rightarrow> nat \<Rightarrow> 'a" where
  "ingested_rates sp op i =
     (if i < length (burn_mat_list (op_number op))
      then divided_of sp op (burn_mat_list (op_number op) ! i)
      else (\<lambda>n r. 0))"

definition ingested :: "'a statepoint \<Rightarrow> ('a::{zero, inverse, ord}) operator \<Rightarrow> 'a operator" where
  "ingested sp op =
     op\<lparr>op_reaction_rates := (op_reaction_rates op)\<lparr>rates := ingested_rates sp op\<rparr>\<rparr>"

text \<open>The global power: the sum that rank 0 broadcasts.\<close>

definition measured_power ::
  "'a numpy \<Rightarrow> 'a statepoint \<Rightarrow> ('a::{zero, plus}) operator list \<Rightarrow> 'a" where
  "measured_power np sp ops = gather_power np (map (partial_power np sp) ops)"

text \<open>
  The state and the file with which the method runs without raising: the dictionaries of
  the rates are injective and within the dimensions of the array and know
  \<^verbatim>\<open>fission\<close>; the tally lists every nuclide and every score once, all known to the
  dictionaries; every burnable material of the rank is a key of the container, has a
  bin in the file and a row in the rates; and the results have one row per bin and one
  entry per pair of a nuclide and a score.
\<close>

definition wf_tally :: "'a statepoint \<Rightarrow> 'a operator \<Rightarrow> bool" where
  "wf_tally sp op \<longleftrightarrow>
     distinct (map fst (rr_nuc_to_ind (op_reaction_rates op))) \<and>
     distinct (map snd (rr_nuc_to_ind (op_reaction_rates op))) \<and>
     (\<forall>e \<in> set (rr_nuc_to_ind (op_reaction_rates op)). snd e < n_nuc (op_reaction_rates op)) \<and>
     distinct (map fst (rr_react_to_ind (op_reaction_rates op))) \<and>
     distinct (map snd (rr_react_to_ind (op_reaction_rates op))) \<and>
     (\<forall>e \<in> set (rr_react_to_ind (op_reaction_rates op)). snd e < n_react (op_reaction_rates op)) \<and>
     ''fission'' \<in> fst ` set (rr_react_to_ind (op_reaction_rates op)) \<and>
     distinct (sp_nuclides sp) \<and>
     set (sp_nuclides sp) \<subseteq> fst ` set (rr_nuc_to_ind (op_reaction_rates op)) \<and>
     set (sp_nuclides sp) \<subseteq> fst ` set (nuc_to_ind (op_number op)) \<and>
     distinct (sp_reactions sp) \<and>
     set (sp_reactions sp) \<subseteq> fst ` set (rr_react_to_ind (op_reaction_rates op)) \<and>
     set (burn_mat_list (op_number op)) \<subseteq> fst ` set (mat_to_ind (op_number op)) \<and>
     set (burn_mat_list (op_number op)) \<subseteq> set (map str_nat (sp_materials sp)) \<and>
     length (burn_mat_list (op_number op)) \<le> n_mat (op_reaction_rates op) \<and>
     length (sp_results sp) = length (sp_materials sp) \<and>
     (\<forall>row \<in> set (sp_results sp). length row = length (sp_nuclides sp) * length (sp_reactions sp))"

text \<open>
  In exact arithmetic, the power that the rates of a rank stand for: the sum over its
  burnable materials and the nuclides of the rates of the fission rate, times the number
  of atoms of the nuclide in the material, times the fission power of the nuclide.
\<close>

definition reconstructed_power :: "real operator \<Rightarrow> real" where
  "reconstructed_power op =
     (\<Sum>(i, mat) \<leftarrow> enumerate 0 (burn_mat_list (op_number op)).
        \<Sum>(nuc, n) \<leftarrow> rr_nuc_to_ind (op_reaction_rates op).
          rates (op_reaction_rates op) i n (fission_ind_of op) *
          atoms (op_number op) mat nuc * power_vec_of op n)"

text \<open>The same sum without the fission power of the nuclide.\<close>

definition fission_rate_times_atoms :: "real operator \<Rightarrow> real" where
  "fission_rate_times_atoms op =
     (\<Sum>(i, mat) \<leftarrow> enumerate 0 (burn_mat_list (op_number op)).
        \<Sum>(nuc, n) \<leftarrow> rr_nuc_to_ind (op_reaction_rates op).
          rates (op_reaction_rates op) i n (fission_ind_of op) *
          atoms (op_number op) mat nuc)"

text \<open>
  A nuclide of the tally that has no atoms in a material of the rank contributes nothing
  to the power tallied for that material.
\<close>

definition no_power_without_atoms :: "real statepoint \<Rightarrow> real operator \<Rightarrow> bool" where
  "no_power_without_atoms sp op \<longleftrightarrow>
     (\<forall>mat \<in> set (burn_mat_list (op_number op)). \<forall>nuc \<in> set (sp_nuclides sp).
        atoms (op_number op) mat nuc = 0 \<longrightarrow>
        results_expanded_of sp op mat (index_in (rr_nuc_to_ind (op_reaction_rates op)) nuc)
          (fission_ind_of op) *
        power_vec_of op (index_in (rr_nuc_to_ind (op_reaction_rates op)) nuc) = 0)"

text \<open>The operators after the method, when it returns.\<close>

definition normalized ::
  "'a numpy \<Rightarrow> 'a statepoint \<Rightarrow> ('a::{zero, plus, times, inverse, ord}) operator list
     \<Rightarrow> 'a operator list" where
  "normalized np sp ops =
     (case unpack_tallies_and_normalize np sp ops of Inr (k, ops') \<Rightarrow> ops' | Inl e \<Rightarrow> [])"

section \<open>A small operator\<close>

text \<open>
  One rank with one burnable material \<^verbatim>\<open>'1'\<close> of volume \<^verbatim>\<open>1.0\<close>. The numbers of
  atoms of its five nuclides are \<^verbatim>\<open>5.0e21\<close> (its \<^verbatim>\<open>val\<close> is positive), \<^verbatim>\<open>-1000.0\<close>
  (\<^verbatim>\<open>val\<close> is the threshold \<^verbatim>\<open>-1.0e-21\<close>), \<^verbatim>\<open>-2000.0\<close> (below the threshold),
  \<^verbatim>\<open>-1.0\<close> (above it) and \<open>2 ^ (- 1000)\<close> (the product underflows: \<^verbatim>\<open>val\<close> is
  \<^verbatim>\<open>0.0\<close>).
\<close>

definition example_settings :: "double settings" where
  "example_settings =
     \<lparr>batches = 10, inactive = 2, particles = 1000, lower_left = [0, 0, 0],
      upper_right = [1, 1, 1], entropy_dimension = [10, 10, 1], round_number = False,
      constant_seed = Some 42, power_setting = double_of_int 600\<rparr>"

definition example_chain :: "double depletion_chain" where
  "example_chain =
     \<lparr>nuclides = [\<lparr>cn_name = ''U235'', fission_power = double_of_int 200\<rparr>,
                  \<lparr>cn_name = ''Xe135'', fission_power = 0\<rparr>],
      nuclide_dict = [(''U235'', 0), (''Xe135'', 1)],
      react_to_ind = [(''fission'', 0), (''(n,gamma)'', 1)]\<rparr>"

definition example_rates :: "double reaction_rates" where
  "example_rates =
     \<lparr>rr_mat_to_ind = [(''1'', 0)],
      rr_nuc_to_ind = [(''U235'', 0), (''Xe135'', 1)],
      rr_react_to_ind = [(''fission'', 0), (''(n,gamma)'', 1)],
      n_mat = 1, n_nuc = 2, n_react = 2,
      rates = (\<lambda>i n r. 0)\<rparr>"

definition example_atoms :: "string \<Rightarrow> string \<Rightarrow> double" where
  "example_atoms mat nuc =
     (if mat = ''1'' \<and> nuc = ''U235'' then float_lit (5 * 10 ^ 21) 1
      else if mat = ''1'' \<and> nuc = ''Xe135'' then double_of_int (- 1000)
      else if mat = ''1'' \<and> nuc = ''O16'' then double_of_int (- 2000)
      else if mat = ''1'' \<and> nuc = ''I135'' then - 1
      else if mat = ''1'' \<and> nuc = ''Cs137'' then Finite False (2 ^ 52) (- 1052)
      else 0)"

definition example_number :: "double atom_number" where
  "example_number =
     \<lparr>mat_to_ind = [(''1'', 0)],
      nuc_to_ind = [(''U235'', 0), (''Xe135'', 1), (''O16'', 2), (''I135'', 3), (''Cs137'', 4)],
      burn_mat_list = [''1''],
      an_volume = (\<lambda>mat. 1),
      atoms = example_atoms\<rparr>"

definition example_operator :: "double operator" where
  "example_operator =
     \<lparr>op_rank = 0, op_size = 1, op_settings = example_settings, op_seed = 0,
      op_number = example_number,
      op_materials = [\<lparr>temperature = Some (double_of_int 900), sab = []\<rparr>],
      op_participating_nuclides = {''U235'', ''Xe135'', ''O16'', ''I135'', ''Cs137''},
      op_chain = example_chain,
      op_reaction_rates = example_rates,
      op_mat_tally_ind = [(''1'', 0)],
      op_stdout = []\<rparr>"


section \<open>A small world of two ranks\<close>

text \<open>
  Three burnable materials on two ranks: \<^verbatim>\<open>'1'\<close> and \<^verbatim>\<open>'2'\<close> on rank 0,
  \<^verbatim>\<open>'3'\<close> on rank 1. The nuclide \<^verbatim>\<open>Xe135\<close> has no atoms in material \<^verbatim>\<open>'1'\<close>.
  In \<open>cold_statepoint\<close> no fission was tallied. All numbers are small integers;
  \<open>lit\<close> gives the number of the type of numbers for an integer (\<open>double_of_int\<close> on
  the doubles, \<open>of_int\<close> on the reals).
\<close>

definition rank_rates :: "(string \<times> nat) list \<Rightarrow> ('a::zero) reaction_rates" where
  "rank_rates mats =
     \<lparr>rr_mat_to_ind = mats,
      rr_nuc_to_ind = [(''U235'', 0), (''Xe135'', 1)],
      rr_react_to_ind = [(''fission'', 0), (''(n,gamma)'', 1)],
      n_mat = length mats, n_nuc = 2, n_react = 2,
      rates = (\<lambda>i n r. 0)\<rparr>"

definition world_atoms :: "(int \<Rightarrow> 'a) \<Rightarrow> string \<Rightarrow> string \<Rightarrow> 'a" where
  "world_atoms lit mat nuc =
     (if nuc = ''U235'' then (if mat = ''1'' then lit 2 else if mat = ''2'' then lit 4 else lit 1)
      else if nuc = ''Xe135'' then (if mat = ''1'' then lit 0 else lit 1)
      else lit 0)"

definition rank_number :: "(int \<Rightarrow> 'a) \<Rightarrow> string list \<Rightarrow> 'a atom_number" where
  "rank_number lit mats =
     \<lparr>mat_to_ind = enumerate_dict mats,
      nuc_to_ind = [(''U235'', 0), (''Xe135'', 1)],
      burn_mat_list = mats,
      an_volume = (\<lambda>mat. lit 1),
      atoms = world_atoms lit\<rparr>"

definition rank_operator :: "(int \<Rightarrow> 'a) \<Rightarrow> nat \<Rightarrow> string list \<Rightarrow> ('a::zero) operator" where
  "rank_operator lit r mats =
     \<lparr>op_rank = r, op_size = 2,
      op_settings = \<lparr>batches = 10, inactive = 2, particles = 1000,
         lower_left = [lit 0, lit 0, lit 0], upper_right = [lit 1, lit 1, lit 1],
         entropy_dimension = [10, 10, 1], round_number = False,
         constant_seed = Some 42, power_setting = lit 600\<rparr>,
      op_seed = 0,
      op_number = rank_number lit mats,
      op_materials = map (\<lambda>m. \<lparr>temperature = Some (lit 900), sab = []\<rparr>) mats,
      op_participating_nuclides = {''U235'', ''Xe135''},
      op_chain = \<lparr>nuclides = [\<lparr>cn_name = ''U235'', fission_power = lit 200\<rparr>,
                  \<lparr>cn_name = ''Xe135'', fission_power = lit 0\<rparr>],
         nuclide_dict = [(''U235'', 0), (''Xe135'', 1)],
         react_to_ind = [(''fission'', 0), (''(n,gamma)'', 1)]\<rparr>,
      op_reaction_rates = rank_rates (enumerate_dict mats),
      op_mat_tally_ind = [(''1'', 0), (''2'', 1), (''3'', 2)],
      op_stdout = []\<rparr>"

definition example_world :: "(int \<Rightarrow> 'a) \<Rightarrow> ('a::zero) operator list" where
  "example_world lit = [rank_operator lit 0 [''1'', ''2''], rank_operator lit 1 [''3'']]"

definition example_statepoint :: "(int \<Rightarrow> 'a) \<Rightarrow> 'a statepoint" where
  "example_statepoint lit =
     \<lparr>k_combined = lit 1, sp_materials = [1, 2, 3], sp_nuclides = [''U235'', ''Xe135''],
      sp_reactions = [''fission'', ''(n,gamma)''],
      sp_results = map (map lit) [[3, 1, 0, 5], [1, 1, 0, 2], [2, 0, 0, 0]]\<rparr>"

definition cold_statepoint :: "(int \<Rightarrow> 'a) \<Rightarrow> 'a statepoint" where
  "cold_statepoint lit =
     \<lparr>k_combined = lit 1, sp_materials = [1, 2, 3], sp_nuclides = [''U235'', ''Xe135''],
      sp_reactions = [''fission'', ''(n,gamma)''],
      sp_results = map (map lit) [[0, 1, 0, 5], [0, 1, 0, 2], [0, 0, 0, 0]]\<rparr>"

section \<open>Properties of the decomposition (\<^verbatim>\<open>extract_mat_ids\<close>)\<close>

subsection \<open>The chunk loop\<close>

lemma chunk_loop_length:
  "length (chunk_loop chunk extra mats ranks j acc) = length acc + length ranks"
  by (induction ranks arbitrary: j acc) (simp_all add: Let_def)

lemma chunk_loop_append:
  "chunk_loop chunk extra mats ranks j acc = acc @ chunk_loop chunk extra mats ranks j []"
proof (induction ranks arbitrary: j acc)
  case Nil
  show ?case by simp
next
  case (Cons i rest)
  show ?case
    using Cons.IH [of "j + c_size chunk extra i" "acc @ [py_slice mats j (j + c_size chunk extra i)]"]
      Cons.IH [of "j + c_size chunk extra i" "[py_slice mats j (j + c_size chunk extra i)]"]
    by (simp add: Let_def c_size_def)
qed

lemma py_slice_append:
  assumes "a \<le> b" and "b \<le> c"
  shows "py_slice xs a b @ py_slice xs b c = py_slice xs a c"
proof -
  have split: "take c xs = take b xs @ drop b (take c xs)"
    using assms(2) by (metis append_take_drop_id min.absorb1 take_take)
  have "drop a (take c xs) = drop a (take b xs) @ drop (a - length (take b xs)) (drop b (take c xs))"
    by (subst split) simp
  also have "drop (a - length (take b xs)) (drop b (take c xs)) = drop b (take c xs)"
  proof (cases "a \<le> length xs")
    case True
    then show ?thesis using assms by simp
  next
    case False
    then show ?thesis using assms by simp
  qed
  finally show ?thesis by (simp add: py_slice_def)
qed

lemma chunk_loop_concat:
  "concat (chunk_loop chunk extra mats ranks j acc) =
     concat acc @ py_slice mats j (j + sum_list (map (c_size chunk extra) ranks))"
proof (induction ranks arbitrary: j acc)
  case Nil
  show ?case by (simp add: py_slice_def)
next
  case (Cons i rest)
  show ?case
    using Cons.IH [of "j + c_size chunk extra i" "acc @ [py_slice mats j (j + c_size chunk extra i)]"]
    by (simp add: Let_def c_size_def py_slice_append add.assoc)
qed

lemma chunk_loop_nth:
  "k < length ranks \<Longrightarrow>
   chunk_loop chunk extra mats ranks j acc ! (length acc + k) =
     py_slice mats (j + sum_list (map (c_size chunk extra) (take k ranks)))
       (j + sum_list (map (c_size chunk extra) (take k ranks)) + c_size chunk extra (ranks ! k))"
proof (induction ranks arbitrary: j acc k)
  case Nil
  then show ?case by simp
next
  case (Cons i rest)
  show ?case
  proof (cases k)
    case 0
    have "chunk_loop chunk extra mats (i # rest) j acc ! length acc =
          (acc @ [py_slice mats j (j + c_size chunk extra i)]) ! length acc"
      by (subst chunk_loop_append) (simp add: Let_def c_size_def nth_append chunk_loop_append[of _ _ _ _ _ "[_]"])
    then show ?thesis using 0 by simp
  next
    case (Suc k')
    then have "k' < length rest" using Cons.prems by simp
    from Cons.IH [OF this, of "j + c_size chunk extra i" "acc @ [py_slice mats j (j + c_size chunk extra i)]"]
    show ?thesis using Suc by (simp add: Let_def c_size_def add.assoc)
  qed
qed

lemma sum_c_size_upt:
  "sum_list (map (c_size chunk extra) [0..<k]) = k * chunk + min extra k"
  by (induction k) (auto simp: c_size_def)

lemma div_mod_total: "0 < (r::nat) \<Longrightarrow> r * (n div r) + min (n mod r) r = n"
  by simp

lemma chunk_bound:
  assumes "0 < (r::nat)" "k < r"
  shows "k * (n div r) + min (n mod r) k + c_size (n div r) (n mod r) k \<le> n"
proof -
  define q where "q = n div r"
  define e where "e = n mod r"
  have n: "n = r * q + e" by (simp add: q_def e_def)
  have "Suc k * q \<le> r * q"
    using assms by (intro mult_le_mono1) simp
  then have a: "k * q + q \<le> r * q" by simp
  have "k * q + min e k + (if k < e then q + 1 else q) \<le> r * q + e"
    using a by (cases "k < e") simp_all
  then show ?thesis
    unfolding c_size_def q_def [symmetric] e_def [symmetric] using n by simp
qed

lemma decompose_balanced:
  assumes "0 < r"
  shows "\<exists>chunks. decompose r xs = Inr chunks \<and> balanced_split r xs chunks"
proof -
  let ?n = "length xs"
  let ?cs = "chunk_loop (?n div r) (?n mod r) xs [0..<r] 0 []"
  have dec: "decompose r xs = Inr ?cs"
    using assms by (simp add: decompose_def)
  have len: "length ?cs = r"
    by (simp add: chunk_loop_length)
  have cat: "concat ?cs = xs"
    using assms by (simp add: chunk_loop_concat sum_c_size_upt div_mod_total py_slice_def mult.commute)
  have sizes: "length (?cs ! k) = c_size (?n div r) (?n mod r) k" if "k < r" for k
  proof -
    have "?cs ! k = py_slice xs (k * (?n div r) + min (?n mod r) k)
             (k * (?n div r) + min (?n mod r) k + c_size (?n div r) (?n mod r) k)"
      using chunk_loop_nth [of k "[0..<r]" "?n div r" "?n mod r" xs 0 "[]"] that
      by (simp add: sum_c_size_upt)
    then show ?thesis
      using chunk_bound [OF assms that, of ?n] by (simp add: py_slice_def)
  qed
  have "balanced_split r xs ?cs"
    unfolding balanced_split_def using len cat sizes by (auto simp: c_size_def)
  with dec show ?thesis by blast
qed


subsection \<open>What the scan collects\<close>

lemma scan_mats_mat_burn:
  "mat_burn (foldl (scan_mat name) s ms) = mat_burn s \<union> burn_ids ms"
  by (induction ms arbitrary: s) (auto simp: scan_mat_def burn_ids_def Let_def)

lemma scan_mats_mat_not_burn:
  "mat_not_burn (foldl (scan_mat name) s ms) = mat_not_burn s \<union> not_burn_ids ms"
  by (induction ms arbitrary: s) (auto simp: scan_mat_def not_burn_ids_def Let_def)

lemma scan_mats_nuc_set:
  "nuc_set (foldl (scan_mat name) s ms) = nuc_set s \<union> nuclide_names ms"
  by (induction ms arbitrary: s) (auto simp: scan_mat_def nuclide_names_def Let_def)

lemma scan_cell_mats: "scan_cell s c = foldl (scan_mat (c_name c)) s (cell_materials c)"
  by (simp add: scan_cell_def cell_materials_def split: fill.splits)

lemma burn_ids_append: "burn_ids (xs @ ys) = burn_ids xs \<union> burn_ids ys"
  by (auto simp: burn_ids_def)

lemma not_burn_ids_append: "not_burn_ids (xs @ ys) = not_burn_ids xs \<union> not_burn_ids ys"
  by (auto simp: not_burn_ids_def)

lemma nuclide_names_append: "nuclide_names (xs @ ys) = nuclide_names xs \<union> nuclide_names ys"
  by (auto simp: nuclide_names_def)

lemma scan_cells_mat_burn:
  "mat_burn (foldl scan_cell s cells) = mat_burn s \<union> burn_ids (all_materials cells)"
  by (induction cells arbitrary: s)
     (auto simp: all_materials_def scan_cell_mats scan_mats_mat_burn burn_ids_append burn_ids_def)

lemma scan_cells_mat_not_burn:
  "mat_not_burn (foldl scan_cell s cells) = mat_not_burn s \<union> not_burn_ids (all_materials cells)"
  by (induction cells arbitrary: s)
     (auto simp: all_materials_def scan_cell_mats scan_mats_mat_not_burn not_burn_ids_append not_burn_ids_def)

lemma scan_cells_nuc_set:
  "nuc_set (foldl scan_cell s cells) = nuc_set s \<union> nuclide_names (all_materials cells)"
  by (induction cells arbitrary: s)
     (auto simp: all_materials_def scan_cell_mats scan_mats_nuc_set nuclide_names_append nuclide_names_def)

lemma scan_geometry_mat_burn: "mat_burn (scan_geometry names cells) = burn_ids (all_materials cells)"
  by (simp add: scan_geometry_def scan_cells_mat_burn)

lemma scan_geometry_mat_not_burn:
  "mat_not_burn (scan_geometry names cells) = not_burn_ids (all_materials cells)"
  by (simp add: scan_geometry_def scan_cells_mat_not_burn)

lemma scan_geometry_nuc_set:
  "nuc_set (scan_geometry names cells) = nuclide_names (all_materials cells)"
  by (simp add: scan_geometry_def scan_cells_nuc_set)

lemma finite_burn_ids: "finite (burn_ids ms)" by (simp add: burn_ids_def)

lemma finite_not_burn_ids: "finite (not_burn_ids ms)" by (simp add: not_burn_ids_def)

lemma finite_nuclide_names: "finite (nuclide_names ms)" by (simp add: nuclide_names_def)


subsection \<open>The volume table\<close>

lemma scan_mats_volume_map:
  "map_of (volume (foldl (scan_mat name) s ms)) k =
     (case last_volume ms k of Some v \<Rightarrow> Some v | None \<Rightarrow> map_of (volume s) k)"
  by (induction ms arbitrary: s)
     (auto simp: scan_mat_def Let_def update_conv' split: option.splits)

lemma scan_mats_volume_distinct:
  "distinct (map fst (volume s)) \<Longrightarrow> distinct (map fst (volume (foldl (scan_mat name) s ms)))"
  by (induction ms arbitrary: s) (auto simp: scan_mat_def Let_def distinct_update)

lemma last_volume_append:
  "last_volume (xs @ ys) k =
     (case last_volume ys k of Some v \<Rightarrow> Some v | None \<Rightarrow> last_volume xs k)"
  by (induction xs) (auto split: option.splits)

lemma scan_cells_volume_map:
  "map_of (volume (foldl scan_cell s cells)) k =
     (case last_volume (all_materials cells) k of Some v \<Rightarrow> Some v | None \<Rightarrow> map_of (volume s) k)"
  by (induction cells arbitrary: s)
     (auto simp: all_materials_def scan_cell_mats scan_mats_volume_map last_volume_append
           split: option.splits)

lemma scan_cells_volume_distinct:
  "distinct (map fst (volume s)) \<Longrightarrow> distinct (map fst (volume (foldl scan_cell s cells)))"
  by (induction cells arbitrary: s) (auto simp: scan_cell_mats scan_mats_volume_distinct)

lemma scan_geometry_volume_map:
  "map_of (volume (scan_geometry names cells)) = last_volume (all_materials cells)"
  by (rule ext) (simp add: scan_geometry_def scan_cells_volume_map split: option.splits)

lemma scan_geometry_volume_distinct:
  "distinct (map fst (volume (scan_geometry names cells)))"
  by (simp add: scan_geometry_def scan_cells_volume_distinct)

lemma last_volume_Some:
  "last_volume ms k = Some v \<Longrightarrow> \<exists>m \<in> set ms. m_burnable m \<and> str_nat (m_id m) = k \<and> m_volume m = v"
  by (induction ms) (auto split: option.splits if_splits)

lemma last_volume_None:
  "last_volume ms k = None \<longleftrightarrow> k \<notin> burn_ids ms"
  by (induction ms) (auto simp: burn_ids_def split: option.splits if_splits)

lemma need_vol_set:
  "distinct (map fst vol) \<Longrightarrow> set (need_vol vol) = {k. map_of vol k = Some None}"
  by (force simp: need_vol_def)

lemma need_vol_distinct: "distinct (map fst vol) \<Longrightarrow> distinct (need_vol vol)"
  by (simp add: need_vol_def distinct_map_filter)

lemma need_vol_empty:
  assumes "\<forall>m \<in> set (all_materials cells). m_burnable m \<longrightarrow> m_volume m \<noteq> None"
  shows "need_vol (volume (scan_geometry names cells)) = []"
proof (rule ccontr)
  assume "need_vol (volume (scan_geometry names cells)) \<noteq> []"
  then obtain k where "k \<in> set (need_vol (volume (scan_geometry names cells)))"
    by (meson last_in_set)
  then have "last_volume (all_materials cells) k = Some None"
    by (simp add: need_vol_set scan_geometry_volume_distinct scan_geometry_volume_map)
  from last_volume_Some [OF this] assms show False by auto
qed


text \<open>\<^verbatim>\<open>str\<close> is injective on the ids, so the keys of the table are the ids.\<close>

lemma str_nat_nonempty: "str_nat n \<noteq> []"
  by (subst str_nat.simps) simp

lemma digit_char_inj: "a < 10 \<Longrightarrow> b < 10 \<Longrightarrow> digit_char a = digit_char b \<Longrightarrow> a = b"
proof -
  assume a: "a < 10" and b: "b < 10" and eq: "digit_char a = digit_char b"
  have "of_char (digit_char a) = (48 + a :: nat)" using a by (simp add: digit_char_def)
  moreover have "of_char (digit_char b) = (48 + b :: nat)" using b by (simp add: digit_char_def)
  ultimately have "48 + a = 48 + b" using eq by metis
  then show "a = b" by simp
qed

lemma str_nat_inj: "str_nat m = str_nat n \<Longrightarrow> m = n"
proof (induction m arbitrary: n rule: str_nat.induct)
  case (1 m)
  show ?case
  proof (cases "m < 10")
    case True
    then have m: "str_nat m = [digit_char m]" by (subst str_nat.simps) simp
    show ?thesis
    proof (cases "n < 10")
      case True
      then have "str_nat n = [digit_char n]" by (subst str_nat.simps) simp
      with m "1.prems" have "digit_char m = digit_char n" by simp
      with \<open>m < 10\<close> True show ?thesis by (rule digit_char_inj)
    next
      case False
      then have "str_nat n = str_nat (n div 10) @ [digit_char (n mod 10)]"
        by (subst str_nat.simps) simp
      with m "1.prems" str_nat_nonempty [of "n div 10"] show ?thesis by (cases "str_nat (n div 10)") auto
    qed
  next
    case False
    then have m: "str_nat m = str_nat (m div 10) @ [digit_char (m mod 10)]"
      by (subst str_nat.simps) simp
    show ?thesis
    proof (cases "n < 10")
      case True
      then have "str_nat n = [digit_char n]" by (subst str_nat.simps) simp
      with m "1.prems" str_nat_nonempty [of "m div 10"] show ?thesis by (cases "str_nat (m div 10)") auto
    next
      case nf: False
      then have "str_nat n = str_nat (n div 10) @ [digit_char (n mod 10)]"
        by (subst str_nat.simps) simp
      with m "1.prems" have a: "str_nat (m div 10) = str_nat (n div 10)"
        and b: "digit_char (m mod 10) = digit_char (n mod 10)" by simp_all
      from "1.IH" [OF False a] have "m div 10 = n div 10" .
      moreover from b have "m mod 10 = n mod 10" by (intro digit_char_inj) simp_all
      ultimately show ?thesis by (metis div_mult_mod_eq)
    qed
  qed
qed

lemma need_vol_missing:
  assumes "ids_identify (all_materials cells)"
  shows "set (need_vol (volume (scan_geometry names cells))) = missing_volume (all_materials cells)"
proof -
  let ?ms = "all_materials cells"
  have "last_volume ?ms k = Some None \<longleftrightarrow> k \<in> missing_volume ?ms" for k
  proof
    assume "last_volume ?ms k = Some None"
    from last_volume_Some [OF this] show "k \<in> missing_volume ?ms"
      by (auto simp: missing_volume_def)
  next
    assume "k \<in> missing_volume ?ms"
    then obtain m where m: "m \<in> set ?ms" "m_burnable m" "m_volume m = None" "k = str_nat (m_id m)"
      by (auto simp: missing_volume_def)
    then have "k \<in> burn_ids ?ms" by (auto simp: burn_ids_def)
    then obtain v where v: "last_volume ?ms k = Some v"
      using last_volume_None [of ?ms k] by (cases "last_volume ?ms k") auto
    from last_volume_Some [OF this] obtain m' where
      m': "m' \<in> set ?ms" "str_nat (m_id m') = k" "m_volume m' = v" by blast
    from m'(2) m(4) have "m_id m' = m_id m" by (simp add: str_nat_inj)
    with assms m(1) m'(1) have "m' = m" by (auto simp: ids_identify_def)
    with m(3) m'(3) v show "last_volume ?ms k = Some None" by simp
  qed
  then show ?thesis
    by (simp add: need_vol_set scan_geometry_volume_distinct scan_geometry_volume_map)
qed


subsection \<open>The result of \<^verbatim>\<open>extract_mat_ids\<close>\<close>

lemma extract_mat_ids_returns:
  assumes ranks: "0 < comm_size"
    and vols: "\<forall>m \<in> set (all_materials cells). m_burnable m \<longrightarrow> m_volume m \<noteq> None"
  shows "extract_mat_ids comm_size chain names cells =
     Inr (\<lparr>mat_burn_lists =
             chunk_loop (length (sorted_list_of_set (burn_ids (all_materials cells))) div comm_size)
               (length (sorted_list_of_set (burn_ids (all_materials cells))) mod comm_size)
               (sorted_list_of_set (burn_ids (all_materials cells))) [0..<comm_size] 0 [],
           mat_not_burn_lists =
             chunk_loop (length (sorted_list_of_set (not_burn_ids (all_materials cells))) div comm_size)
               (length (sorted_list_of_set (not_burn_ids (all_materials cells))) mod comm_size)
               (sorted_list_of_set (not_burn_ids (all_materials cells))) [0..<comm_size] 0 [],
           volumes = volume (scan_geometry names cells),
           mat_tally_ind = enumerate_dict (sorted_list_of_set (burn_ids (all_materials cells))),
           nuc_dict = build_nuc_dict chain
             (sorted_list_of_set (nuclide_names (all_materials cells)))\<rparr>,
          mat_name (scan_geometry names cells))"
  using need_vol_empty [OF vols] ranks
  by (simp add: extract_mat_ids_def Let_def decompose_def scan_geometry_mat_burn
      scan_geometry_mat_not_burn scan_geometry_nuc_set)

lemma extract_mat_ids_no_exit:
  assumes "need_vol (volume (scan_geometry names cells)) = []" and "0 < comm_size"
  shows "\<exists>r. extract_mat_ids comm_size chain names cells = Inr r"
  using assms by (simp add: extract_mat_ids_def Let_def decompose_def)

lemma need_vol_unset:
  "set (need_vol (volume (scan_geometry names cells))) = unset_volume (all_materials cells)"
proof -
  have "last_volume (all_materials cells) k = Some None \<Longrightarrow> k \<in> burn_ids (all_materials cells)" for k
    using last_volume_None [of "all_materials cells" k] by auto
  then show ?thesis
    by (auto simp: need_vol_set scan_geometry_volume_distinct scan_geometry_volume_map
        unset_volume_def)
qed

lemma extract_mat_ids_nuc_dict:
  assumes "extract_mat_ids comm_size chain names cells = Inr (r, names')"
  shows "nuc_dict r = build_nuc_dict chain (sorted_list_of_set (nuclide_names (all_materials cells)))"
  using assms
  by (auto simp: extract_mat_ids_def Let_def scan_geometry_nuc_set split: if_splits sum.splits)

lemma update_fresh: "k \<notin> fst ` set d \<Longrightarrow> AList.update k v d = d @ [(k, v)]"
  by (induction d) auto

lemma add_nuclides_append:
  assumes "distinct nucs"
  shows "add_nuclides nucs d i =
     d @ zip (filter (\<lambda>n. n \<notin> fst ` set d) nucs)
             [i ..< i + length (filter (\<lambda>n. n \<notin> fst ` set d) nucs)]"
  using assms
proof (induction nucs arbitrary: d i)
  case Nil
  show ?case by simp
next
  case (Cons nuc nucs)
  then have d: "distinct nucs" and fresh: "nuc \<notin> set nucs" by simp_all
  show ?case
  proof (cases "nuc \<in> fst ` set d")
    case True
    then show ?thesis using Cons.IH [OF d, of d i] by (simp add: od_mem_def)
  next
    case False
    have same: "filter (\<lambda>n. n \<noteq> nuc \<and> n \<notin> fst ` set d) nucs = filter (\<lambda>n. n \<notin> fst ` set d) nucs"
      using fresh by (intro filter_cong) auto
    show ?thesis
      using False Cons.IH [OF d, of "d @ [(nuc, i)]" "i + 1"]
      by (simp add: od_mem_def update_fresh same upt_conv_Cons del: upt_Suc)
  qed
qed


lemma example_extract:
  "extract_mat_ids 2 example_chain_dict [] example_geometry =
     Inr (\<lparr>mat_burn_lists = [[''1'', ''10''], [''2'']],
           mat_not_burn_lists = [[''4''], []],
           volumes = [(''2'', Some 1), (''10'', Some 1), (''1'', Some 1)],
           mat_tally_ind = [(''1'', 0), (''10'', 1), (''2'', 2)],
           nuc_dict = [(''U235'', 0), (''Xe135'', 1), (''H1'', 2), (''O16'', 3)]\<rparr>,
          [(2, ''pins''), (10, ''pins''), (1, ''pins''), (4, ''moderator'')])"
  by code_simp

lemma example_volumes:
  "\<forall>m \<in> set (all_materials example_geometry). m_burnable m \<longrightarrow> m_volume m \<noteq> None"
  by (simp add: all_materials_def example_geometry_def cell_materials_def fuel_def water_def)

subsection \<open>The claims about the decomposition\<close>

text \<open>
  Claim C1. For every number of ranks \<open>r > 0\<close> and every geometry whose burnable
  materials all have a volume, \<^verbatim>\<open>extract_mat_ids\<close> returns, and both the list of chunks
  of the burnable ids and the list of chunks of the other ids are balanced splits of the
  sorted list of those ids: one chunk per rank, the first \<open>n mod r\<close> ranks hold
  \<open>n div r + 1\<close> ids and the others \<open>n div r\<close>, two chunks differ in size by at most
  one, and the chunks in rank order are the sorted list of the distinct ids.
\<close>

theorem decomposition_balanced:
  assumes ranks: "0 < comm_size"
    and vols: "\<forall>m \<in> set (all_materials cells). m_burnable m \<longrightarrow> m_volume m \<noteq> None"
  shows "\<exists>r names'.
      extract_mat_ids comm_size chain_nuclide_dict names cells = Inr (r, names') \<and>
      balanced_split comm_size (sorted_list_of_set (burn_ids (all_materials cells)))
        (mat_burn_lists r) \<and>
      balanced_split comm_size (sorted_list_of_set (not_burn_ids (all_materials cells)))
        (mat_not_burn_lists r) \<and>
      sorted (concat (mat_burn_lists r)) \<and> distinct (concat (mat_burn_lists r)) \<and>
      set (concat (mat_burn_lists r)) = burn_ids (all_materials cells) \<and>
      sorted (concat (mat_not_burn_lists r)) \<and> distinct (concat (mat_not_burn_lists r)) \<and>
      set (concat (mat_not_burn_lists r)) = not_burn_ids (all_materials cells)"
proof -
  let ?burn = "sorted_list_of_set (burn_ids (all_materials cells))"
  let ?not_burn = "sorted_list_of_set (not_burn_ids (all_materials cells))"
  let ?bl = "chunk_loop (length ?burn div comm_size) (length ?burn mod comm_size) ?burn
               [0..<comm_size] 0 []"
  let ?nl = "chunk_loop (length ?not_burn div comm_size) (length ?not_burn mod comm_size) ?not_burn
               [0..<comm_size] 0 []"
  have bl: "balanced_split comm_size ?burn ?bl"
    using decompose_balanced [OF ranks, of ?burn] ranks by (simp add: decompose_def)
  have nl: "balanced_split comm_size ?not_burn ?nl"
    using decompose_balanced [OF ranks, of ?not_burn] ranks by (simp add: decompose_def)
  have cb: "concat ?bl = ?burn" and cn: "concat ?nl = ?not_burn"
    using bl nl by (simp_all add: balanced_split_def)
  have "sorted (concat ?bl)" "distinct (concat ?bl)"
    "set (concat ?bl) = burn_ids (all_materials cells)"
    by (simp_all only: cb sorted_sorted_list_of_set distinct_sorted_list_of_set
        set_sorted_list_of_set finite_burn_ids)
  moreover have "sorted (concat ?nl)" "distinct (concat ?nl)"
    "set (concat ?nl) = not_burn_ids (all_materials cells)"
    by (simp_all only: cn sorted_sorted_list_of_set distinct_sorted_list_of_set
        set_sorted_list_of_set finite_not_burn_ids)
  ultimately show ?thesis
    using bl nl extract_mat_ids_returns [OF ranks vols, of chain_nuclide_dict names]
    by simp
qed

theorem decomposition_balanced_witness:
  "\<exists>r names'.
      extract_mat_ids 2 example_chain_dict [] example_geometry = Inr (r, names') \<and>
      mat_burn_lists r = [[''1'', ''10''], [''2'']] \<and>
      mat_not_burn_lists r = [[''4''], []] \<and>
      balanced_split 2 [''1'', ''10'', ''2''] (mat_burn_lists r) \<and>
      balanced_split 2 [''4''] (mat_not_burn_lists r)"
proof -
  have ranks: "0 < (2::nat)" by simp
  have b: "sorted_list_of_set (burn_ids (all_materials example_geometry)) = [''1'', ''10'', ''2'']"
    by code_simp
  have n: "sorted_list_of_set (not_burn_ids (all_materials example_geometry)) = [''4'']"
    by code_simp
  from decomposition_balanced [OF ranks example_volumes, of example_chain_dict "[]"]
  show ?thesis unfolding b n using example_extract by auto
qed

text \<open>
  Claim C5. When the chain's dictionary is a dense index, the dictionary that
  \<^verbatim>\<open>extract_mat_ids\<close> returns is the chain's dictionary followed by the nuclides of the
  geometry that the chain does not know, in sorted order, numbered consecutively from the
  length of the chain's dictionary; it is again a dense index (distinct names, the
  indices \<open>0, 1, 2, \<dots>\<close> in order, so the map is injective).
\<close>

theorem global_nuclide_index:
  assumes chain: "dense_index chain"
    and ok: "extract_mat_ids comm_size chain names cells = Inr (r, names')"
  shows "nuc_dict r =
           chain @ zip (new_nuclides chain (all_materials cells))
                       [length chain ..< length chain + length (new_nuclides chain (all_materials cells))] \<and>
         dense_index (nuc_dict r) \<and>
         sorted (new_nuclides chain (all_materials cells)) \<and>
         set (new_nuclides chain (all_materials cells)) =
           nuclide_names (all_materials cells) - fst ` set chain"
proof -
  let ?new = "new_nuclides chain (all_materials cells)"
  let ?sorted = "sorted_list_of_set (nuclide_names (all_materials cells))"
  have eq: "nuc_dict r = chain @ zip ?new [length chain ..< length chain + length ?new]"
    using extract_mat_ids_nuc_dict [OF ok]
      add_nuclides_append [of ?sorted chain "length chain"]
    by (simp add: build_nuc_dict_def new_nuclides_def)
  have dn: "distinct ?new" and sn: "sorted ?new"
    by (simp_all add: new_nuclides_def sorted_wrt_filter)
  have setn: "set ?new = nuclide_names (all_materials cells) - fst ` set chain"
    by (auto simp: new_nuclides_def finite_nuclide_names)
  have keys: "map fst (nuc_dict r) = map fst chain @ ?new"
    by (simp add: eq)
  have vals: "map snd (nuc_dict r) = [0 ..< length chain + length ?new]"
    using chain by (simp add: eq dense_index_def upt_add_eq_append [symmetric] del: upt_Suc)
  have "distinct (map fst (nuc_dict r))"
    using chain dn setn unfolding keys dense_index_def by auto
  moreover have "length (nuc_dict r) = length chain + length ?new"
    by (simp add: eq)
  ultimately have "dense_index (nuc_dict r)"
    using vals by (simp add: dense_index_def)
  with eq sn setn show ?thesis by blast
qed

theorem global_nuclide_index_witness:
  "dense_index example_chain_dict \<and>
   new_nuclides example_chain_dict (all_materials example_geometry) = [''H1'', ''O16''] \<and>
   nuc_dict (fst (projr (extract_mat_ids 2 example_chain_dict [] example_geometry))) =
     [(''U235'', 0), (''Xe135'', 1), (''H1'', 2), (''O16'', 3)] \<and>
   dense_index (nuc_dict (fst (projr (extract_mat_ids 2 example_chain_dict [] example_geometry))))"
proof -
  have d: "dense_index example_chain_dict"
    by (simp add: dense_index_def example_chain_dict_def)
  have n: "new_nuclides example_chain_dict (all_materials example_geometry) = [''H1'', ''O16'']"
    by code_simp
  from global_nuclide_index [OF d example_extract] d n example_extract
  show ?thesis by simp
qed

text \<open>
  Claim C7, as the code has it. The volume table is keyed by the id, and the scan
  overwrites the entry of an id each time it meets a burnable material with that id
  (line 260). \<^verbatim>\<open>extract_mat_ids\<close> exits exactly when an entry of the table is
  \<^verbatim>\<open>None\<close> after the scan, that is when for some id the last burnable material with
  that id has no volume; it does so for every number of ranks, before anything is
  decomposed, with the message \<^verbatim>\<open>Need volumes for materials: \<close> followed by the list
  of all these ids, each once. Otherwise it returns (for a positive number of ranks).
  Every such id is the id of a burnable material without a volume; when an id names one
  material, these are all the ids of the burnable materials without a volume.
\<close>

theorem missing_volume_aborts:
  "(if unset_volume (all_materials cells) \<noteq> {}
    then \<exists>nv. extract_mat_ids comm_size chain names cells =
                Inl (SystemExit (''Need volumes for materials: '' @ str_list nv)) \<and>
              distinct nv \<and> set nv = unset_volume (all_materials cells)
    else 0 < comm_size \<longrightarrow>
           (\<exists>r. extract_mat_ids comm_size chain names cells = Inr r)) \<and>
   unset_volume (all_materials cells) \<subseteq> missing_volume (all_materials cells) \<and>
   (ids_identify (all_materials cells) \<longrightarrow>
      unset_volume (all_materials cells) = missing_volume (all_materials cells))"
proof -
  let ?ms = "all_materials cells"
  let ?nv = "need_vol (volume (scan_geometry names cells))"
  have nv: "set ?nv = unset_volume ?ms"
    by (rule need_vol_unset)
  have d: "distinct ?nv"
    by (simp add: need_vol_distinct scan_geometry_volume_distinct)
  have run: "if unset_volume ?ms \<noteq> {}
    then \<exists>nv. extract_mat_ids comm_size chain names cells =
                Inl (SystemExit (''Need volumes for materials: '' @ str_list nv)) \<and>
              distinct nv \<and> set nv = unset_volume ?ms
    else 0 < comm_size \<longrightarrow> (\<exists>r. extract_mat_ids comm_size chain names cells = Inr r)"
  proof (cases "unset_volume ?ms = {}")
    case True
    with nv have "?nv = []" by simp
    then have "\<exists>r. extract_mat_ids comm_size chain names cells = Inr r" if "0 < comm_size"
      using that by (rule extract_mat_ids_no_exit)
    with True show ?thesis by simp
  next
    case False
    with nv have "?nv \<noteq> []" by auto
    then have "extract_mat_ids comm_size chain names cells =
        Inl (SystemExit (''Need volumes for materials: '' @ str_list ?nv))"
      by (simp add: extract_mat_ids_def Let_def)
    with nv d False show ?thesis by auto
  qed
  have sub: "unset_volume ?ms \<subseteq> missing_volume ?ms"
    by (auto simp: unset_volume_def missing_volume_def dest: last_volume_Some)
  have eq: "unset_volume ?ms = missing_volume ?ms" if "ids_identify ?ms"
    using need_vol_missing [OF that, of names] nv by simp
  from run sub eq show ?thesis by blast
qed

text \<open>
  The claim as it was stated fails when a later material overwrites the entry: in the
  geometry with two materials of id 5, a burnable material has no volume, and the method
  returns the decomposition.
\<close>

theorem overwritten_volume_counterexample:
  "''5'' \<in> missing_volume (all_materials example_overwritten) \<and>
   extract_mat_ids 2 example_chain_dict [] example_overwritten =
     Inr (\<lparr>mat_burn_lists = [[''5''], [''6'']], mat_not_burn_lists = [[], []],
           volumes = [(''5'', Some 3), (''6'', Some 1)],
           mat_tally_ind = [(''5'', 0), (''6'', 1)],
           nuc_dict = [(''U235'', 0), (''Xe135'', 1), (''O16'', 2)]\<rparr>,
          [(5, ''pins''), (6, ''pins'')])"
  by code_simp

theorem missing_volume_aborts_witness:
  "unset_volume (all_materials example_no_volume) = {''7'', ''3''} \<and>
   extract_mat_ids 2 example_chain_dict [] example_no_volume =
     Inl (SystemExit ''Need volumes for materials: ['7', '3']'') \<and>
   ids_identify (all_materials example_no_volume) \<and>
   missing_volume (all_materials example_no_volume) = {''7'', ''3''} \<and>
   unset_volume (all_materials example_overwritten) = {} \<and>
   (\<exists>r. extract_mat_ids 2 example_chain_dict [] example_overwritten = Inr r)"
proof -
  have i1: "ids_identify (all_materials example_no_volume)"
    by (simp add: ids_identify_def all_materials_def example_no_volume_def cell_materials_def
        fuel_def water_def)
  have u1: "unset_volume (all_materials example_no_volume) = {''7'', ''3''}"
    by code_simp
  have u2: "unset_volume (all_materials example_overwritten) = {}"
    by code_simp
  have e: "extract_mat_ids 2 example_chain_dict [] example_no_volume =
     Inl (SystemExit ''Need volumes for materials: ['7', '3']'')"
    by code_simp
  from missing_volume_aborts [of example_overwritten 2 example_chain_dict "[]"] u2
  have r: "\<exists>r. extract_mat_ids 2 example_chain_dict [] example_overwritten = Inr r" by simp
  from missing_volume_aborts [of example_no_volume 2 example_chain_dict "[]"] i1 u1
  have m: "missing_volume (all_materials example_no_volume) = {''7'', ''3''}" by simp
  from i1 u1 u2 e r m show ?thesis by simp
qed

section \<open>Properties of \<^verbatim>\<open>generate_materials_xml\<close>\<close>

subsection \<open>The loop over the nuclides of a material\<close>

lemma density_val_set_other:
  "m \<noteq> mat \<or> n \<noteq> nuc \<Longrightarrow> density_val (set_number num mat nuc v) m n = density_val num m n"
  by (auto simp: density_val_def get_atom_density_def set_number_def)

lemma clamp_atoms_empty: "clamp_atoms part ms {} num = num"
  by (simp add: clamp_atoms_def)

lemma emit_nuclide_eq:
  "emit_nuclide st part mat (num, els, out) nuc =
     (if nuc \<in> part \<and> \<not> 0 < density_val num mat nuc then set_number num mat nuc 0 else num,
      els @ nuclide_entries st part num mat [nuc],
      out @ warnings_of part num mat [nuc])"
  by (auto simp: emit_nuclide_def Let_def density_val_def nuclide_entries_def warnings_of_def
      emitted_def warning_threshold_def)

lemma nuclide_entries_Cons:
  "nuclide_entries st part num mat (n # ns) =
     nuclide_entries st part num mat [n] @ nuclide_entries st part num mat ns"
  by (simp add: nuclide_entries_def)

lemma warnings_of_Cons:
  "warnings_of part num mat (n # ns) = warnings_of part num mat [n] @ warnings_of part num mat ns"
  by (simp add: warnings_of_def)

lemma nuclide_entries_cong:
  assumes "\<And>n. n \<in> set ns \<Longrightarrow> density_val num' mat n = density_val num mat n"
  shows "nuclide_entries st part num' mat ns = nuclide_entries st part num mat ns"
proof -
  have eq: "filter (\<lambda>n. n \<in> part \<and> 0 < density_val num' mat n) ns =
        filter (\<lambda>n. n \<in> part \<and> 0 < density_val num mat n) ns"
    by (rule filter_cong) (simp_all add: assms)
  show ?thesis
    unfolding nuclide_entries_def eq by (rule map_cong) (simp_all add: assms)
qed

lemma warnings_of_cong:
  assumes "\<And>n. n \<in> set ns \<Longrightarrow> density_val num' mat n = density_val num mat n"
  shows "warnings_of part num' mat ns = warnings_of part num mat ns"
proof -
  have eq: "filter (\<lambda>n. n \<in> part \<and> \<not> 0 < density_val num' mat n \<and> density_val num' mat n < warning_threshold) ns =
        filter (\<lambda>n. n \<in> part \<and> \<not> 0 < density_val num mat n \<and> density_val num mat n < warning_threshold) ns"
    by (rule filter_cong) (simp_all add: assms)
  show ?thesis
    unfolding warnings_of_def eq by (rule map_cong) (simp_all add: assms)
qed

lemma set_number_clamp:
  "nuc \<in> part \<Longrightarrow> \<not> 0 < density_val num mat nuc \<Longrightarrow> nuc \<notin> ns \<Longrightarrow>
   clamp_atoms part {mat} ns (set_number num mat nuc 0) = clamp_atoms part {mat} (insert nuc ns) num"
  unfolding clamp_atoms_def set_number_def
  apply (simp add: density_val_def get_atom_density_def)
  apply (rule arg_cong [where f = "\<lambda>f. atoms_update f num"])
  apply (auto simp: fun_eq_iff)
  done

lemma clamp_insert_pos:
  "\<not> (nuc \<in> part \<and> \<not> 0 < density_val num mat nuc) \<Longrightarrow>
   clamp_atoms part {mat} (insert nuc ns) num = clamp_atoms part {mat} ns num"
  unfolding clamp_atoms_def
  apply (rule arg_cong [where f = "\<lambda>f. atoms_update f num"])
  apply (auto simp: fun_eq_iff)
  done

lemma nuclide_loop:
  assumes "distinct nucs"
  shows "foldl (emit_nuclide st part mat) (num, els, out) nucs =
     (clamp_atoms part {mat} (set nucs) num,
      els @ nuclide_entries st part num mat nucs,
      out @ warnings_of part num mat nucs)"
  using assms
proof (induction nucs arbitrary: num els out)
  case Nil
  show ?case by (simp add: clamp_atoms_empty nuclide_entries_def warnings_of_def)
next
  case (Cons nuc nucs)
  then have d: "distinct nucs" and fresh: "nuc \<notin> set nucs" by simp_all
  show ?case
  proof (cases "nuc \<in> part \<and> \<not> 0 < density_val num mat nuc")
    case True
    let ?num = "set_number num mat nuc 0"
    have same: "density_val ?num mat n = density_val num mat n" if "n \<in> set nucs" for n
    proof -
      from that fresh have "n \<noteq> nuc" by auto
      then show ?thesis by (simp add: density_val_set_other)
    qed
    have c: "clamp_atoms part {mat} (set nucs) ?num = clamp_atoms part {mat} (set (nuc # nucs)) num"
      using fresh True by (simp add: set_number_clamp)
    have "foldl (emit_nuclide st part mat) (num, els, out) (nuc # nucs) =
          foldl (emit_nuclide st part mat)
            (?num, els @ nuclide_entries st part num mat [nuc], out @ warnings_of part num mat [nuc]) nucs"
      unfolding foldl_Cons emit_nuclide_eq if_P [OF True] ..
    also have "\<dots> = (clamp_atoms part {mat} (set nucs) ?num,
        (els @ nuclide_entries st part num mat [nuc]) @ nuclide_entries st part ?num mat nucs,
        (out @ warnings_of part num mat [nuc]) @ warnings_of part ?num mat nucs)"
      by (rule Cons.IH [OF d])
    finally have calculation: "foldl (emit_nuclide st part mat) (num, els, out) (nuc # nucs) =
      (clamp_atoms part {mat} (set nucs) ?num,
        (els @ nuclide_entries st part num mat [nuc]) @ nuclide_entries st part ?num mat nucs,
        (out @ warnings_of part num mat [nuc]) @ warnings_of part ?num mat nucs)" .
    have ne: "nuclide_entries st part ?num mat nucs = nuclide_entries st part num mat nucs"
      by (rule nuclide_entries_cong) (rule same)
    have wo: "warnings_of part ?num mat nucs = warnings_of part num mat nucs"
      by (rule warnings_of_cong) (rule same)
    from calculation show ?thesis
      unfolding c ne wo
      by (simp add: nuclide_entries_Cons [of _ _ _ _ nuc nucs] warnings_of_Cons [of _ _ _ nuc nucs])
  next
    case False
    have c: "clamp_atoms part {mat} (set nucs) num = clamp_atoms part {mat} (set (nuc # nucs)) num"
      using False by (simp add: clamp_insert_pos)
    have "foldl (emit_nuclide st part mat) (num, els, out) (nuc # nucs) =
          foldl (emit_nuclide st part mat)
            (num, els @ nuclide_entries st part num mat [nuc], out @ warnings_of part num mat [nuc]) nucs"
      unfolding foldl_Cons emit_nuclide_eq if_not_P [OF False] ..
    also have "\<dots> = (clamp_atoms part {mat} (set nucs) num,
        (els @ nuclide_entries st part num mat [nuc]) @ nuclide_entries st part num mat nucs,
        (out @ warnings_of part num mat [nuc]) @ warnings_of part num mat nucs)"
      by (rule Cons.IH [OF d])
    finally show ?thesis
      unfolding c
      by (simp add: nuclide_entries_Cons [of _ _ _ _ nuc nucs] warnings_of_Cons [of _ _ _ nuc nucs])
  qed
qed


subsection \<open>The loop over the materials\<close>

lemma nuc_to_ind_clamp [simp]: "nuc_to_ind (clamp_atoms part ms ns num) = nuc_to_ind num"
  by (simp add: clamp_atoms_def)

lemma density_val_clamp_other:
  "m \<notin> ms \<Longrightarrow> density_val (clamp_atoms part ms ns num) m n = density_val num m n"
  by (simp add: clamp_atoms_def density_val_def get_atom_density_def)

lemma clamp_atoms_insert:
  assumes "mat \<notin> ms"
  shows "clamp_atoms part ms ns (clamp_atoms part {mat} ns num) = clamp_atoms part (insert mat ms) ns num"
proof -
  have "density_val (clamp_atoms part {mat} ns num) m n = density_val num m n" if "m \<in> ms" for m n
    using that assms by (intro density_val_clamp_other) auto
  then have "(\<lambda>m n. if m \<in> ms \<and> n \<in> ns \<and> n \<in> part \<and> \<not> 0 < density_val (clamp_atoms part {mat} ns num) m n
                 then 0 else atoms (clamp_atoms part {mat} ns num) m n) =
        (\<lambda>m n. if m \<in> insert mat ms \<and> n \<in> ns \<and> n \<in> part \<and> \<not> 0 < density_val num m n
                 then 0 else atoms num m n)"
    by (auto simp: fun_eq_iff clamp_atoms_def)
  then show ?thesis
    unfolding clamp_atoms_def [of part ms] clamp_atoms_def [of part "insert mat ms"]
    by (simp add: clamp_atoms_def)
qed

lemma material_xml_eq:
  assumes "distinct (od_keys (nuc_to_ind num))" and "snd entry < length mats"
  shows "material_xml True st part mats (num, out) entry =
     Inr (material_element st part mats num entry,
          clamp_atoms part {fst entry} (set (od_keys (nuc_to_ind num))) num,
          out @ warnings_of part num (fst entry) (od_keys (nuc_to_ind num)))"
  using assms
  by (cases entry) (simp add: material_xml_def nuclide_loop material_element_def)

lemma materials_loop_eq:
  assumes "distinct (map fst entries)"
    and "distinct (od_keys (nuc_to_ind num))"
    and "\<forall>entry \<in> set entries. snd entry < length mats"
  shows "materials_loop True st part mats entries (xs, num, out) =
     Inr (xs @ map (material_element st part mats num) entries,
          clamp_atoms part (set (map fst entries)) (set (od_keys (nuc_to_ind num))) num,
          out @ all_warnings part num (map fst entries))"
  using assms
proof (induction entries arbitrary: xs num out)
  case Nil
  show ?case by (simp add: all_warnings_def clamp_atoms_def)
next
  case (Cons entry entries)
  let ?ns = "od_keys (nuc_to_ind num)"
  let ?num = "clamp_atoms part {fst entry} (set ?ns) num"
  from Cons.prems have d: "distinct (map fst entries)" and fresh: "fst entry \<notin> set (map fst entries)"
    and r: "\<forall>e \<in> set entries. snd e < length mats" and r0: "snd entry < length mats"
    by simp_all
  have dn: "distinct (od_keys (nuc_to_ind ?num))" using Cons.prems(2) by simp
  have same: "density_val ?num m n = density_val num m n" if "m \<in> set (map fst entries)" for m n
  proof -
    from that fresh have "m \<notin> {fst entry}" by force
    then show ?thesis by (rule density_val_clamp_other)
  qed
  have els: "map (material_element st part mats ?num) entries = map (material_element st part mats num) entries"
  proof (rule map_cong [OF refl])
    fix e assume "e \<in> set entries"
    then have "nuclide_entries st part ?num (fst e) ?ns = nuclide_entries st part num (fst e) ?ns"
      by (intro nuclide_entries_cong same) simp
    then show "material_element st part mats ?num e = material_element st part mats num e"
      by (simp add: material_element_def)
  qed
  have ws: "all_warnings part ?num (map fst entries) = all_warnings part num (map fst entries)"
    unfolding all_warnings_def
  proof (rule arg_cong [where f = concat], rule map_cong [OF refl])
    fix m assume "m \<in> set (map fst entries)"
    then show "warnings_of part ?num m (od_keys (nuc_to_ind ?num)) = warnings_of part num m ?ns"
      unfolding nuc_to_ind_clamp by (intro warnings_of_cong same)
  qed
  have cl: "clamp_atoms part (set (map fst entries)) (set ?ns) ?num =
            clamp_atoms part (set (map fst (entry # entries))) (set ?ns) num"
    using clamp_atoms_insert [OF fresh, of part "set ?ns" num] by simp
  have "materials_loop True st part mats (entry # entries) (xs, num, out) =
        materials_loop True st part mats entries
          (xs @ [material_element st part mats num entry], ?num,
           out @ warnings_of part num (fst entry) ?ns)"
    by (simp add: material_xml_eq [OF Cons.prems(2) r0])
  also have "\<dots> = Inr ((xs @ [material_element st part mats num entry]) @
                          map (material_element st part mats ?num) entries,
          clamp_atoms part (set (map fst entries)) (set (od_keys (nuc_to_ind ?num))) ?num,
          (out @ warnings_of part num (fst entry) ?ns) @ all_warnings part ?num (map fst entries))"
    by (rule Cons.IH [OF d dn r])
  finally show ?case
    unfolding els ws nuc_to_ind_clamp cl by (simp add: all_warnings_def)
qed

lemma generate_materials_xml_eq:
  assumes "wf_operator op"
  shows "generate_materials_xml True op =
     Inr (map (material_element (op_settings op) (op_participating_nuclides op) (op_materials op)
                 (op_number op)) (mat_to_ind (op_number op)),
          op\<lparr>op_number := clamped_number op,
             op_stdout := op_stdout op @
               all_warnings (op_participating_nuclides op) (op_number op)
                 (od_keys (mat_to_ind (op_number op)))\<rparr>)"
proof -
  from assms have d: "distinct (map fst (mat_to_ind (op_number op)))"
    and dn: "distinct (od_keys (nuc_to_ind (op_number op)))"
    and r: "\<forall>entry \<in> set (mat_to_ind (op_number op)). snd entry < length (op_materials op)"
    by (simp_all add: wf_operator_def od_keys_def)
  show ?thesis
    unfolding generate_materials_xml_def materials_loop_eq [OF d dn r]
    by (simp add: clamped_number_def od_keys_def)
qed


subsection \<open>Entries and warnings per nuclide\<close>

lemma filter_one:
  "distinct xs \<Longrightarrow> filter (\<lambda>x. x = a \<and> P x) xs = (if a \<in> set xs \<and> P a then [a] else [])"
  by (induction xs) auto

lemma warnings_for_warnings_of:
  assumes "distinct nucs"
  shows "warnings_for nuc mat (warnings_of part num m nucs) =
     (if m = mat \<and> nuc \<in> set nucs \<and> nuc \<in> part \<and> \<not> 0 < density_val num mat nuc \<and> density_val num mat nuc < warning_threshold
      then [Warning nuc mat (density_val num mat nuc)] else [])"
proof -
  have "warnings_for nuc mat (warnings_of part num m nucs) =
        map (\<lambda>n. Warning n m (density_val num m n))
          (filter (\<lambda>n. n = nuc \<and> (m = mat \<and> n \<in> part \<and> \<not> 0 < density_val num m n \<and> density_val num m n < warning_threshold)) nucs)"
    unfolding warnings_for_def warnings_of_def filter_map filter_filter
    by (rule arg_cong [where f = "map _"], rule filter_cong) (auto simp: is_warning_for_def)
  then show ?thesis
    unfolding filter_one [OF assms] by auto
qed

lemma warnings_for_all_warnings:
  assumes "distinct ms" and "distinct (od_keys (nuc_to_ind num))"
  shows "warnings_for nuc mat (all_warnings part num ms) =
     (if mat \<in> set ms \<and> nuc \<in> set (od_keys (nuc_to_ind num)) \<and> nuc \<in> part \<and>
         \<not> 0 < density_val num mat nuc \<and> density_val num mat nuc < warning_threshold
      then [Warning nuc mat (density_val num mat nuc)] else [])"
  using assms(1)
proof (induction ms)
  case Nil
  show ?case by (simp add: all_warnings_def warnings_for_def)
next
  case (Cons m ms)
  have split: "warnings_for nuc mat (all_warnings part num (m # ms)) =
      warnings_for nuc mat (warnings_of part num m (od_keys (nuc_to_ind num))) @
      warnings_for nuc mat (all_warnings part num ms)"
    by (simp add: all_warnings_def warnings_for_def)
  from Cons show ?case
    unfolding split warnings_for_warnings_of [OF assms(2)] by auto
qed

lemma has_entry_material_elements:
  assumes "distinct (map fst entries)"
  shows "has_nuclide_entry (map (material_element st part mats num) entries) mat nuc \<longleftrightarrow>
     mat \<in> set (map fst entries) \<and> nuc \<in> set (od_keys (nuc_to_ind num)) \<and> nuc \<in> part \<and>
     0 < density_val num mat nuc"
  by (auto simp: has_nuclide_entry_def material_element_def nuclide_entries_def image_iff)

lemma emitted_material_elements:
  "mat \<in> set (map fst entries) \<Longrightarrow> nuc \<in> set (od_keys (nuc_to_ind num)) \<Longrightarrow> nuc \<in> part \<Longrightarrow>
   0 < density_val num mat nuc \<Longrightarrow>
   nuclide_emitted (map (material_element st part mats num) entries) mat nuc
     (emitted st (density_val num mat nuc))"
  by (auto simp: nuclide_emitted_def material_element_def nuclide_entries_def image_iff)

lemma materials_warnings_eq:
  assumes wf: "wf_operator op"
  shows "materials_warnings True op nuc mat =
     Some (warnings_for nuc mat
       (all_warnings (op_participating_nuclides op) (op_number op)
          (od_keys (mat_to_ind (op_number op)))))"
  by (simp add: materials_warnings_def generate_materials_xml_eq [OF wf] printed_during_def)


subsection \<open>Without \<^verbatim>\<open>lxml\<close>\<close>

lemma materials_loop_without_lxml:
  assumes "snd entry < length mats"
  shows "materials_loop False st part mats (entry # entries) (xs, num, out) = Inl TypeError"
  using assms by (cases entry) (simp add: material_xml_def split: prod.splits)

lemma generate_materials_xml_without_lxml:
  assumes "wf_operator op" and "mat_to_ind (op_number op) \<noteq> []"
  shows "generate_materials_xml False op = Inl TypeError"
proof -
  from assms(2) obtain entry entries where e: "mat_to_ind (op_number op) = entry # entries"
    by (cases "mat_to_ind (op_number op)") auto
  with assms(1) have "snd entry < length (op_materials op)"
    by (simp add: wf_operator_def)
  then have l: "materials_loop False (op_settings op) (op_participating_nuclides op)
      (op_materials op) (entry # entries) ([], op_number op, op_stdout op) = Inl TypeError"
    by (rule materials_loop_without_lxml)
  show ?thesis
    unfolding generate_materials_xml_def e l by simp
qed


subsection \<open>The threshold\<close>

lemma warning_threshold_eq: "warning_threshold = Finite True 5316911983139663 (- 122)"
  unfolding warning_threshold_def by code_simp

lemma below_threshold_not_positive:
  assumes "x < warning_threshold"
  shows "\<not> 0 < x"
proof (cases x)
  case (Finite s m e)
  let ?k = "nat (e - min e (- 122))"
  from assms Finite
  have "signed s m * 2 ^ ?k < signed True 5316911983139663 * 2 ^ nat (- 122 - min e (- 122))"
    by (simp add: less_double_def warning_threshold_eq)
  also have "\<dots> < 0" by (simp add: signed_def)
  finally have "signed s m * 2 ^ ?k < 0" .
  then have neg: "signed s m < 0" by (simp add: mult_less_0_iff)
  have "\<not> (0::int) < signed s m * 2 ^ nat (e - min (- 1074) e)"
    using neg by (simp add: zero_less_mult_iff)
  then show ?thesis
    using Finite by (simp add: less_double_def zero_double_def signed_def)
next
  case (Infinity s)
  with assms show ?thesis
    by (simp add: less_double_def warning_threshold_eq zero_double_def)
next
  case NaN
  then show ?thesis by (simp add: less_double_def zero_double_def)
qed

lemma warnings_for_all_warnings_threshold:
  assumes "distinct ms" and "distinct (od_keys (nuc_to_ind num))"
    and "mat \<in> set ms" and "nuc \<in> set (od_keys (nuc_to_ind num))" and "nuc \<in> part"
  shows "warnings_for nuc mat (all_warnings part num ms) =
     (if density_val num mat nuc < warning_threshold
      then [Warning nuc mat (density_val num mat nuc)] else [])"
  unfolding warnings_for_all_warnings [OF assms(1,2)]
  using assms(3-5) below_threshold_not_positive [of "density_val num mat nuc"] by auto


subsection \<open>The small operator\<close>

lemma example_operator_wf: "wf_operator example_operator"
  by (simp add: wf_operator_def example_operator_def example_number_def od_keys_def)

lemma example_density_vals:
  "0 < density_val (op_number example_operator) ''1'' ''U235''"
  "\<not> 0 < density_val (op_number example_operator) ''1'' ''Xe135''"
  "\<not> density_val (op_number example_operator) ''1'' ''Xe135'' < warning_threshold"
  "density_val (op_number example_operator) ''1'' ''Xe135'' \<le> warning_threshold"
  "density_val (op_number example_operator) ''1'' ''O16'' < warning_threshold"
  "density_val (op_number example_operator) ''1'' ''O16'' = - float_lit 2 (10 ^ 21)"
  "\<not> 0 < density_val (op_number example_operator) ''1'' ''I135''"
  "\<not> density_val (op_number example_operator) ''1'' ''I135'' < warning_threshold"
  "density_val (op_number example_operator) ''1'' ''Cs137'' = 0"
  "\<not> 0 < density_val (op_number example_operator) ''1'' ''Cs137''"
  by code_simp+

lemma example_keys:
  "''1'' \<in> set (od_keys (mat_to_ind (op_number example_operator)))"
  "''U235'' \<in> set (od_keys (nuc_to_ind (op_number example_operator)))"
  "''Xe135'' \<in> set (od_keys (nuc_to_ind (op_number example_operator)))"
  "''O16'' \<in> set (od_keys (nuc_to_ind (op_number example_operator)))"
  "''I135'' \<in> set (od_keys (nuc_to_ind (op_number example_operator)))"
  "''Cs137'' \<in> set (od_keys (nuc_to_ind (op_number example_operator)))"
  "''U235'' \<in> op_participating_nuclides example_operator"
  "''Xe135'' \<in> op_participating_nuclides example_operator"
  "''O16'' \<in> op_participating_nuclides example_operator"
  "''I135'' \<in> op_participating_nuclides example_operator"
  "''Cs137'' \<in> op_participating_nuclides example_operator"
  by (simp_all add: example_operator_def example_number_def od_keys_def)


subsection \<open>The claims about the materials document\<close>

text \<open>
  Claim C3, as the code has it. The computed atomic density is the double \<^verbatim>\<open>val\<close> of
  line 530, the product of the doubles \<^verbatim>\<open>1.0e-24\<close> and
  \<^verbatim>\<open>get_atom_density(mat, nuc)\<close>. With \<^verbatim>\<open>lxml\<close>, the method returns, and for every
  material and every participating nuclide of the container: the document has a
  \<^verbatim>\<open>nuclide\<close> entry exactly when \<^verbatim>\<open>val > 0.0\<close> holds (and then the stored number is
  left as it is); otherwise the stored number is replaced by \<^verbatim>\<open>0.0\<close>; exactly one
  warning, which names the nuclide, the material and the value, is printed when
  \<^verbatim>\<open>val < -1.0e-21\<close> holds, and none is printed otherwise: not at the threshold
  itself, not between the threshold and zero, not for a \<^verbatim>\<open>val\<close> that is not a number.
\<close>

theorem materials_density_clamping:
  assumes wf: "wf_operator op"
    and mat: "mat \<in> set (od_keys (mat_to_ind (op_number op)))"
    and nuc: "nuc \<in> set (od_keys (nuc_to_ind (op_number op)))"
    and part: "nuc \<in> op_participating_nuclides op"
  shows "\<exists>xml op'. generate_materials_xml True op = Inr (xml, op') \<and>
     (has_nuclide_entry xml mat nuc \<longleftrightarrow> 0 < density_val (op_number op) mat nuc) \<and>
     (0 < density_val (op_number op) mat nuc \<longrightarrow>
        nuclide_emitted xml mat nuc (emitted (op_settings op) (density_val (op_number op) mat nuc)) \<and>
        atoms (op_number op') mat nuc = atoms (op_number op) mat nuc) \<and>
     (\<not> 0 < density_val (op_number op) mat nuc \<longrightarrow> atoms (op_number op') mat nuc = 0) \<and>
     (\<not> density_val (op_number op) mat nuc < warning_threshold \<longrightarrow>
        warnings_for nuc mat (printed_during op op') = []) \<and>
     (density_val (op_number op) mat nuc < warning_threshold \<longrightarrow>
        warnings_for nuc mat (printed_during op op') =
          [Warning nuc mat (density_val (op_number op) mat nuc)])"
proof -
  let ?num = "op_number op"
  let ?xml = "map (material_element (op_settings op) (op_participating_nuclides op) (op_materials op)
                 ?num) (mat_to_ind ?num)"
  let ?ws = "all_warnings (op_participating_nuclides op) ?num (od_keys (mat_to_ind ?num))"
  let ?op' = "op\<lparr>op_number := clamped_number op, op_stdout := op_stdout op @ ?ws\<rparr>"
  from wf have dm: "distinct (map fst (mat_to_ind ?num))"
    and dm': "distinct (od_keys (mat_to_ind ?num))"
    and dn: "distinct (od_keys (nuc_to_ind ?num))"
    by (simp_all add: wf_operator_def od_keys_def)
  have mat': "mat \<in> set (map fst (mat_to_ind ?num))" using mat by (simp add: od_keys_def)
  have run: "generate_materials_xml True op = Inr (?xml, ?op')"
    by (rule generate_materials_xml_eq [OF wf])
  have entry: "has_nuclide_entry ?xml mat nuc \<longleftrightarrow> 0 < density_val ?num mat nuc"
    unfolding has_entry_material_elements [OF dm] using mat' nuc part by simp
  have emit: "nuclide_emitted ?xml mat nuc (emitted (op_settings op) (density_val ?num mat nuc))"
    if "0 < density_val ?num mat nuc"
    using mat' nuc part that by (rule emitted_material_elements)
  have at: "atoms (op_number ?op') mat nuc =
      (if 0 < density_val ?num mat nuc then atoms ?num mat nuc else 0)"
    using mat nuc part by (simp add: clamped_number_def clamp_atoms_def)
  have ws: "warnings_for nuc mat (printed_during op ?op') =
     (if density_val ?num mat nuc < warning_threshold
      then [Warning nuc mat (density_val ?num mat nuc)] else [])"
    using warnings_for_all_warnings_threshold [OF dm' dn mat nuc part]
    by (simp add: printed_during_def)
  have "(has_nuclide_entry ?xml mat nuc \<longleftrightarrow> 0 < density_val ?num mat nuc) \<and>
     (0 < density_val ?num mat nuc \<longrightarrow>
        nuclide_emitted ?xml mat nuc (emitted (op_settings op) (density_val ?num mat nuc)) \<and>
        atoms (op_number ?op') mat nuc = atoms ?num mat nuc) \<and>
     (\<not> 0 < density_val ?num mat nuc \<longrightarrow> atoms (op_number ?op') mat nuc = 0) \<and>
     (\<not> density_val ?num mat nuc < warning_threshold \<longrightarrow>
        warnings_for nuc mat (printed_during op ?op') = []) \<and>
     (density_val ?num mat nuc < warning_threshold \<longrightarrow>
        warnings_for nuc mat (printed_during op ?op') =
          [Warning nuc mat (density_val ?num mat nuc)])"
    unfolding at ws using entry emit by simp
  with run show ?thesis by blast
qed

text \<open>
  At the threshold itself the claim as it was stated fails: for \<^verbatim>\<open>-1000.0\<close> atoms in
  the volume \<^verbatim>\<open>1.0\<close> the double \<^verbatim>\<open>val\<close> is \<^verbatim>\<open>-1.0e-21\<close>, which is less than or
  equal to \<^verbatim>\<open>-1.0e-21\<close>, and no warning is printed.
\<close>

theorem density_boundary_counterexample:
  "density_val (op_number example_operator) ''1'' ''Xe135'' \<le> warning_threshold \<and>
   materials_warnings True example_operator ''Xe135'' ''1'' = Some []"
proof -
  from example_operator_wf have dm: "distinct (od_keys (mat_to_ind (op_number example_operator)))"
    and dn: "distinct (od_keys (nuc_to_ind (op_number example_operator)))"
    by (simp_all add: wf_operator_def)
  show ?thesis
    unfolding materials_warnings_eq [OF example_operator_wf]
      warnings_for_all_warnings_threshold [OF dm dn example_keys(1) example_keys(3) example_keys(8)]
    by (simp add: example_density_vals)
qed

theorem materials_density_clamping_witness:
  "wf_operator example_operator \<and>
   density_val (op_number example_operator) ''1'' ''O16'' < warning_threshold \<and>
   materials_warnings True example_operator ''O16'' ''1'' =
     Some [Warning ''O16'' ''1'' (- float_lit 2 (10 ^ 21))] \<and>
   \<not> density_val (op_number example_operator) ''1'' ''I135'' < warning_threshold \<and>
   materials_warnings True example_operator ''I135'' ''1'' = Some []"
proof -
  have a: "materials_warnings True example_operator ''O16'' ''1'' =
      Some [Warning ''O16'' ''1'' (- float_lit 2 (10 ^ 21))]"
    using materials_density_clamping [OF example_operator_wf example_keys(1) example_keys(4) example_keys(9)]
      example_density_vals(5)
    by (auto simp: materials_warnings_def example_density_vals(6))
  have b: "materials_warnings True example_operator ''I135'' ''1'' = Some []"
    using materials_density_clamping [OF example_operator_wf example_keys(1) example_keys(5) example_keys(10)]
      example_density_vals(8)
    by (auto simp: materials_warnings_def)
  from a b example_operator_wf example_density_vals(5) example_density_vals(8) show ?thesis
    by simp
qed

text \<open>
  Claim C9. With \<^verbatim>\<open>lxml\<close>, the method returns and has changed the container: the
  entries of the materials and participating nuclides whose computed value \<^verbatim>\<open>val\<close>
  is not positive (\<^verbatim>\<open>val > 0.0\<close> is false) hold \<^verbatim>\<open>0.0\<close>, every other entry holds
  what it held, and nothing but the numbers of atoms and the output of the operator has
  changed.
\<close>

theorem materials_xml_frame:
  assumes wf: "wf_operator op"
  shows "\<exists>xml op'. generate_materials_xml True op = Inr (xml, op') \<and>
     (\<forall>mat nuc. atoms (op_number op') mat nuc =
        (if clamped op mat nuc then 0 else atoms (op_number op) mat nuc)) \<and>
     (op_number op')\<lparr>atoms := atoms (op_number op)\<rparr> = op_number op \<and>
     op'\<lparr>op_number := op_number op, op_stdout := op_stdout op\<rparr> = op"
proof -
  let ?num = "op_number op"
  let ?xml = "map (material_element (op_settings op) (op_participating_nuclides op) (op_materials op)
                 ?num) (mat_to_ind ?num)"
  let ?ws = "all_warnings (op_participating_nuclides op) ?num (od_keys (mat_to_ind ?num))"
  let ?op' = "op\<lparr>op_number := clamped_number op, op_stdout := op_stdout op @ ?ws\<rparr>"
  have run: "generate_materials_xml True op = Inr (?xml, ?op')"
    by (rule generate_materials_xml_eq [OF wf])
  have at: "atoms (op_number ?op') mat nuc = (if clamped op mat nuc then 0 else atoms ?num mat nuc)"
    for mat nuc
    by (simp add: clamped_number_def clamp_atoms_def clamped_def)
  have num: "(op_number ?op')\<lparr>atoms := atoms ?num\<rparr> = ?num"
    by (simp add: clamped_number_def clamp_atoms_def)
  have rest: "?op'\<lparr>op_number := ?num, op_stdout := op_stdout op\<rparr> = op"
    by simp
  show ?thesis
    unfolding run using at num rest
    by (intro exI [of _ ?xml] exI [of _ ?op']) blast
qed

theorem materials_xml_frame_witness:
  "wf_operator example_operator \<and>
   clamped example_operator ''1'' ''Xe135'' \<and>
   clamped example_operator ''1'' ''Cs137'' \<and>
   \<not> clamped example_operator ''1'' ''U235'' \<and>
   (\<exists>xml op'. generate_materials_xml True example_operator = Inr (xml, op') \<and>
      atoms (op_number op') ''1'' ''Xe135'' = 0 \<and>
      atoms (op_number op') ''1'' ''Cs137'' = 0 \<and>
      atoms (op_number op') ''1'' ''U235'' = float_lit (5 * 10 ^ 21) 1 \<and>
      atoms (op_number example_operator) ''1'' ''Xe135'' = double_of_int (- 1000) \<and>
      atoms (op_number example_operator) ''1'' ''Cs137'' = Finite False (2 ^ 52) (- 1052))"
proof -
  have c: "clamped example_operator ''1'' ''Xe135''" "clamped example_operator ''1'' ''Cs137''"
    "\<not> clamped example_operator ''1'' ''U235''"
    by (simp_all add: clamped_def example_keys example_density_vals(1,2,10))
  have v: "atoms (op_number example_operator) ''1'' ''Xe135'' = double_of_int (- 1000)"
    "atoms (op_number example_operator) ''1'' ''U235'' = float_lit (5 * 10 ^ 21) 1"
    "atoms (op_number example_operator) ''1'' ''Cs137'' = Finite False (2 ^ 52) (- 1052)"
    by (simp_all add: example_operator_def example_number_def example_atoms_def)
  from materials_xml_frame [OF example_operator_wf] obtain xml op' where
    "generate_materials_xml True example_operator = Inr (xml, op')"
    "\<forall>mat nuc. atoms (op_number op') mat nuc =
        (if clamped example_operator mat nuc then 0 else atoms (op_number example_operator) mat nuc)"
    by blast
  with c v example_operator_wf show ?thesis by auto
qed

section \<open>Properties of \<^verbatim>\<open>unpack_tallies_and_normalize\<close>\<close>

subsection \<open>Lookups\<close>

lemma od_get_mem: "k \<in> fst ` set d \<Longrightarrow> od_get d k = Inr (index_in d k)"
  by (cases "map_of d k") (auto simp: od_get_def index_in_def map_of_eq_None_iff)

lemma lookup_all_mem:
  "set ks \<subseteq> fst ` set d \<Longrightarrow> lookup_all d ks = Inr (map (index_in d) ks)"
  by (induction ks) (simp_all add: od_get_mem)

lemma index_in_mem: "distinct (map fst d) \<Longrightarrow> (k, i) \<in> set d \<Longrightarrow> index_in d k = i"
  by (simp add: index_in_def)

lemma index_in_range:
  assumes "k \<in> fst ` set d"
  shows "(k, index_in d k) \<in> set d"
proof -
  from assms obtain i where "map_of d k = Some i"
    by (cases "map_of d k") (auto simp: map_of_eq_None_iff)
  then show ?thesis by (auto simp: index_in_def dest: map_of_SomeD)
qed

lemma index_in_inj:
  assumes "distinct (map snd d)" "k \<in> fst ` set d" "k' \<in> fst ` set d"
    "index_in d k = index_in d k'"
  shows "k = k'"
proof -
  have m: "(k, index_in d k) \<in> set d" "(k', index_in d k) \<in> set d"
    using assms(2,3,4) index_in_range [of k d] index_in_range [of k' d] by simp_all
  have "inj_on snd (set d)" using assms(1) by (simp add: distinct_map)
  from inj_onD [OF this _ m] show ?thesis by simp
qed

lemma index_of_mem:
  "x \<in> set xs \<Longrightarrow> \<exists>i. index_of xs x = Inr i \<and> i < length xs \<and> xs ! i = x"
  by (induction xs) auto

lemma zip_map_self: "zip xs (map f xs) = map (\<lambda>x. (x, f x)) xs"
  by (induction xs) simp_all


subsection \<open>The expansion\<close>

lemma expand_reactions_ok:
  assumes "j + length reacts \<le> length results"
    and "i < n_nuc rr" and "\<forall>r \<in> set reacts. r < n_react rr"
    and "od_mem mat (mat_to_ind num)" and "od_mem nuc (nuc_to_ind num)"
  shows "\<exists>re'. expand_reactions rr num mat results nuc i reacts (re, number, j) =
           Inr (re', if reacts = [] then number else number(i := atoms num mat nuc), j + length reacts) \<and>
         (\<forall>n r. n \<noteq> i \<or> r \<notin> set reacts \<longrightarrow> re' n r = re n r) \<and>
         (\<forall>b < length reacts. distinct reacts \<longrightarrow> re' i (reacts ! b) = results ! (j + b))"
  using assms
proof (induction reacts arbitrary: re number j)
  case Nil
  show ?case by simp
next
  case (Cons react reacts)
  let ?re = "re(i := (re i)(react := results ! j))"
  let ?number = "number(i := atoms num mat nuc)"
  from Cons.prems have j: "j < length results" and b: "react < n_react rr"
    and len: "Suc j + length reacts \<le> length results"
    and rs: "\<forall>r \<in> set reacts. r < n_react rr" by simp_all
  from Cons.IH [OF len Cons.prems(2) rs Cons.prems(4) Cons.prems(5), of ?re ?number]
  obtain re' where
    run: "expand_reactions rr num mat results nuc i reacts (?re, ?number, Suc j) =
           Inr (re', if reacts = [] then ?number else ?number(i := atoms num mat nuc), Suc j + length reacts)"
    and other: "\<forall>n r. n \<noteq> i \<or> r \<notin> set reacts \<longrightarrow> re' n r = ?re n r"
    and vals: "\<forall>b < length reacts. distinct reacts \<longrightarrow> re' i (reacts ! b) = results ! (Suc j + b)"
    by blast
  have step: "expand_reactions rr num mat results nuc i (react # reacts) (re, number, j) =
      Inr (re', if react # reacts = [] then number else ?number, j + length (react # reacts))"
    using j b Cons.prems(2,4,5) run by (simp add: number_getitem_def)
  have o: "\<forall>n r. n \<noteq> i \<or> r \<notin> set (react # reacts) \<longrightarrow> re' n r = re n r"
    using other by auto
  have v: "\<forall>b < length (react # reacts). distinct (react # reacts) \<longrightarrow>
      re' i ((react # reacts) ! b) = results ! (j + b)"
  proof (intro allI impI)
    fix b assume b: "b < length (react # reacts)" and d: "distinct (react # reacts)"
    show "re' i ((react # reacts) ! b) = results ! (j + b)"
    proof (cases b)
      case 0
      from d have "react \<notin> set reacts" by simp
      with other have "re' i react = ?re i react" by blast
      with 0 show ?thesis by simp
    next
      case (Suc b')
      with b d vals show ?thesis by simp
    qed
  qed
  from step o v show ?case by blast
qed

lemma expand_nuclides_ok:
  assumes "j + length nucs * length react_ind \<le> length results"
    and "\<forall>e \<in> set nucs. snd e < n_nuc rr \<and> od_mem (fst e) (nuc_to_ind num)"
    and "\<forall>r \<in> set react_ind. r < n_react rr"
    and "od_mem mat (mat_to_ind num)"
  shows "\<exists>re' number'.
     expand_nuclides rr num mat results nucs react_ind (re, number, j) =
       Inr (re', number', j + length nucs * length react_ind) \<and>
     (\<forall>n r. n \<notin> snd ` set nucs \<or> r \<notin> set react_ind \<longrightarrow> re' n r = re n r) \<and>
     (\<forall>n. n \<notin> snd ` set nucs \<or> react_ind = [] \<longrightarrow> number' n = number n) \<and>
     (distinct (map snd nucs) \<longrightarrow> react_ind \<noteq> [] \<longrightarrow>
        (\<forall>e \<in> set nucs. number' (snd e) = atoms num mat (fst e))) \<and>
     (distinct (map snd nucs) \<longrightarrow> distinct react_ind \<longrightarrow>
        (\<forall>a < length nucs. \<forall>b < length react_ind.
           re' (snd (nucs ! a)) (react_ind ! b) = results ! (j + a * length react_ind + b)))"
  using assms
proof (induction nucs arbitrary: re number j)
  case Nil
  show ?case by simp
next
  case (Cons e nucs)
  obtain nuc i where e: "e = (nuc, i)" by (cases e)
  let ?R = "length react_ind"
  from Cons.prems e have len1: "j + ?R \<le> length results"
    and len2: "(j + ?R) + length nucs * ?R \<le> length results"
    and i: "i < n_nuc rr" and nuc: "od_mem nuc (nuc_to_ind num)"
    and rest: "\<forall>e \<in> set nucs. snd e < n_nuc rr \<and> od_mem (fst e) (nuc_to_ind num)"
    by (simp_all add: algebra_simps)
  from expand_reactions_ok [OF len1 i Cons.prems(3) Cons.prems(4) nuc, of re number]
  obtain re1 where
    run1: "expand_reactions rr num mat results nuc i react_ind (re, number, j) =
       Inr (re1, if react_ind = [] then number else number(i := atoms num mat nuc), j + ?R)"
    and other1: "\<forall>n r. n \<noteq> i \<or> r \<notin> set react_ind \<longrightarrow> re1 n r = re n r"
    and vals1: "\<forall>b < ?R. distinct react_ind \<longrightarrow> re1 i (react_ind ! b) = results ! (j + b)"
    by blast
  let ?number1 = "if react_ind = [] then number else number(i := atoms num mat nuc)"
  from Cons.IH [OF len2 rest Cons.prems(3) Cons.prems(4), of re1 ?number1]
  obtain re' number' where
    run: "expand_nuclides rr num mat results nucs react_ind (re1, ?number1, j + ?R) =
       Inr (re', number', j + ?R + length nucs * ?R)"
    and other: "\<forall>n r. n \<notin> snd ` set nucs \<or> r \<notin> set react_ind \<longrightarrow> re' n r = re1 n r"
    and num: "\<forall>n. n \<notin> snd ` set nucs \<or> react_ind = [] \<longrightarrow> number' n = ?number1 n"
    and dnum: "distinct (map snd nucs) \<longrightarrow> react_ind \<noteq> [] \<longrightarrow>
        (\<forall>e \<in> set nucs. number' (snd e) = atoms num mat (fst e))"
    and vals: "distinct (map snd nucs) \<longrightarrow> distinct react_ind \<longrightarrow>
        (\<forall>a < length nucs. \<forall>b < ?R.
           re' (snd (nucs ! a)) (react_ind ! b) = results ! (j + ?R + a * ?R + b))"
    by blast
  have step: "expand_nuclides rr num mat results (e # nucs) react_ind (re, number, j) =
       Inr (re', number', j + length (e # nucs) * ?R)"
    using run1 run by (simp add: e algebra_simps)
  have o: "\<forall>n r. n \<notin> snd ` set (e # nucs) \<or> r \<notin> set react_ind \<longrightarrow> re' n r = re n r"
    using other other1 by (auto simp: e)
  have n: "\<forall>n. n \<notin> snd ` set (e # nucs) \<or> react_ind = [] \<longrightarrow> number' n = number n"
    using num by (auto simp: e)
  have dn: "distinct (map snd (e # nucs)) \<longrightarrow> react_ind \<noteq> [] \<longrightarrow>
        (\<forall>e' \<in> set (e # nucs). number' (snd e') = atoms num mat (fst e'))"
  proof (intro impI ballI)
    fix e' assume d: "distinct (map snd (e # nucs))" and r: "react_ind \<noteq> []"
      and m: "e' \<in> set (e # nucs)"
    from d have fresh: "i \<notin> snd ` set nucs" and d': "distinct (map snd nucs)" by (simp_all add: e)
    show "number' (snd e') = atoms num mat (fst e')"
    proof (cases "e' = e")
      case True
      with fresh num r show ?thesis by (simp add: e)
    next
      case False
      with m dnum d' r show ?thesis by simp
    qed
  qed
  have v: "distinct (map snd (e # nucs)) \<longrightarrow> distinct react_ind \<longrightarrow>
        (\<forall>a < length (e # nucs). \<forall>b < ?R.
           re' (snd ((e # nucs) ! a)) (react_ind ! b) = results ! (j + a * ?R + b))"
  proof (intro impI allI)
    fix a b assume d: "distinct (map snd (e # nucs))" and dr: "distinct react_ind"
      and a: "a < length (e # nucs)" and b: "b < ?R"
    from d have fresh: "i \<notin> snd ` set nucs" and d': "distinct (map snd nucs)" by (simp_all add: e)
    show "re' (snd ((e # nucs) ! a)) (react_ind ! b) = results ! (j + a * ?R + b)"
    proof (cases a)
      case 0
      from fresh other have "re' i (react_ind ! b) = re1 i (react_ind ! b)" by blast
      with vals1 b dr 0 show ?thesis by (simp add: e)
    next
      case (Suc a')
      with a have "a' < length nucs" by simp
      with vals d' dr b have "re' (snd (nucs ! a')) (react_ind ! b) = results ! (j + ?R + a' * ?R + b)"
        by blast
      with Suc show ?thesis by (simp add: algebra_simps)
    qed
  qed
  from step o n dn v show ?case by blast
qed


subsection \<open>The division\<close>

lemma divide_reactions_Cons:
  "divide_reactions number i re (r # rs) =
     divide_reactions number i
       (if \<not> float_eq (number i) 0 then re(i := (re i)(r := re i r / number i)) else re) rs"
  by (simp add: divide_reactions_def)

lemma divide_reactions_Nil: "divide_reactions number i re [] = re"
  by (simp add: divide_reactions_def)

lemma divide_reactions_zero:
  "float_eq (number i) 0 \<Longrightarrow> divide_reactions number i re reacts = re"
  by (induction reacts arbitrary: re) (simp_all add: divide_reactions_Nil divide_reactions_Cons)

lemma divide_reactions_other:
  "n \<noteq> i \<or> r \<notin> set reacts \<Longrightarrow> divide_reactions number i re reacts n r = re n r"
proof (induction reacts arbitrary: re)
  case Nil
  then show ?case by (simp add: divide_reactions_Nil)
next
  case (Cons r0 rs)
  then have "n \<noteq> i \<or> r \<notin> set rs" by auto
  from Cons.IH [OF this] Cons.prems show ?case
    unfolding divide_reactions_Cons by auto
qed

lemma divide_reactions_entry:
  "distinct reacts \<Longrightarrow> r \<in> set reacts \<Longrightarrow> \<not> float_eq (number i) 0 \<Longrightarrow>
   divide_reactions number i re reacts i r = re i r / number i"
proof (induction reacts arbitrary: re)
  case Nil
  then show ?case by simp
next
  case (Cons r0 rs)
  show ?case
  proof (cases "r = r0")
    case True
    with Cons.prems have "r \<notin> set rs" by simp
    then show ?thesis
      unfolding divide_reactions_Cons using True Cons.prems(3)
      by (simp add: divide_reactions_other)
  next
    case False
    with Cons.prems have "distinct rs" "r \<in> set rs" by simp_all
    from Cons.IH [OF this Cons.prems(3)] False Cons.prems(3) show ?thesis
      unfolding divide_reactions_Cons by simp
  qed
qed

lemma divide_nuclides_Cons:
  "divide_nuclides number re (i # rest) reacts =
     divide_nuclides number (divide_reactions number i re reacts) rest reacts"
  by (simp add: divide_nuclides_def)

lemma divide_nuclides_Nil: "divide_nuclides number re [] reacts = re"
  by (simp add: divide_nuclides_def)

lemma divide_nuclides_other:
  "n \<notin> set nuc_ind \<or> r \<notin> set reacts \<or> float_eq (number n) 0 \<Longrightarrow>
   divide_nuclides number re nuc_ind reacts n r = re n r"
proof (induction nuc_ind arbitrary: re)
  case Nil
  then show ?case by (simp add: divide_nuclides_Nil)
next
  case (Cons i rest)
  then have "n \<notin> set rest \<or> r \<notin> set reacts \<or> float_eq (number n) 0" by auto
  from Cons.IH [OF this] have
    "divide_nuclides number (divide_reactions number i re reacts) rest reacts n r =
     divide_reactions number i re reacts n r" .
  moreover have "divide_reactions number i re reacts n r = re n r"
  proof (cases "n = i")
    case True
    show ?thesis
    proof (cases "float_eq (number n) 0")
      case True
      with \<open>n = i\<close> show ?thesis by (simp add: divide_reactions_zero)
    next
      case False
      with Cons.prems True have "r \<notin> set reacts" by auto
      then show ?thesis by (simp add: divide_reactions_other)
    qed
  next
    case False
    then show ?thesis by (simp add: divide_reactions_other)
  qed
  ultimately show ?case unfolding divide_nuclides_Cons by simp
qed

lemma divide_nuclides_entry:
  "distinct nuc_ind \<Longrightarrow> distinct reacts \<Longrightarrow> n \<in> set nuc_ind \<Longrightarrow> r \<in> set reacts \<Longrightarrow>
   \<not> float_eq (number n) 0 \<Longrightarrow>
   divide_nuclides number re nuc_ind reacts n r = re n r / number n"
proof (induction nuc_ind arbitrary: re)
  case Nil
  then show ?case by simp
next
  case (Cons i rest)
  show ?case
  proof (cases "n = i")
    case True
    with Cons.prems have "n \<notin> set rest" by simp
    then have "divide_nuclides number (divide_reactions number i re reacts) rest reacts n r =
        divide_reactions number i re reacts n r"
      by (simp add: divide_nuclides_other)
    with True Cons.prems show ?thesis
      unfolding divide_nuclides_Cons by (simp add: divide_reactions_entry)
  next
    case False
    with Cons.prems have "distinct rest" "n \<in> set rest" by simp_all
    from Cons.IH [OF this(1) Cons.prems(2) this(2) Cons.prems(4) Cons.prems(5)] False
    show ?thesis
      unfolding divide_nuclides_Cons by (simp add: divide_reactions_other)
  qed
qed

lemma divide_nuclides_eq:
  assumes "distinct nuc_ind" "distinct reacts"
  shows "divide_nuclides number re nuc_ind reacts n r =
     (if n \<in> set nuc_ind \<and> r \<in> set reacts \<and> \<not> float_eq (number n) 0
      then re n r / number n else re n r)"
  using assms by (auto simp: divide_nuclides_entry divide_nuclides_other)


subsection \<open>A well-formed state runs without raising\<close>

lemma power_vec_loop_ok:
  assumes "\<forall>e \<in> set (rr_nuc_to_ind rr). snd e < n_nuc rr"
  shows "\<exists>pv'. power_vec_loop rr ns pv = Inr pv'"
proof (induction ns arbitrary: pv)
  case Nil
  show ?case by simp
next
  case (Cons nuclide ns)
  show ?case
  proof (cases "od_mem (cn_name nuclide) (rr_nuc_to_ind rr)")
    case True
    then have m: "cn_name nuclide \<in> fst ` set (rr_nuc_to_ind rr)" by (simp add: od_mem_def)
    from index_in_range [OF m] assms
    have "index_in (rr_nuc_to_ind rr) (cn_name nuclide) < n_nuc rr" by fastforce
    with True m Cons.IH show ?thesis by (simp add: od_get_mem)
  next
    case False
    with Cons.IH show ?thesis by simp
  qed
qed

lemma power_vec_loop_of:
  assumes "\<forall>e \<in> set (rr_nuc_to_ind (op_reaction_rates op)). snd e < n_nuc (op_reaction_rates op)"
  shows "power_vec_loop (op_reaction_rates op) (nuclides (op_chain op)) (\<lambda>n. 0) = Inr (power_vec_of op)"
  using power_vec_loop_ok [OF assms, of "nuclides (op_chain op)" "\<lambda>n. 0"]
  by (auto simp: power_vec_of_def)

lemma wf_nuc_ind_bounds:
  assumes "wf_tally sp op"
  shows "\<forall>e \<in> set (zip (sp_nuclides sp) (nuc_ind_of sp op)).
           snd e < n_nuc (op_reaction_rates op) \<and> od_mem (fst e) (nuc_to_ind (op_number op))"
proof
  fix e assume "e \<in> set (zip (sp_nuclides sp) (nuc_ind_of sp op))"
  then obtain nuc where nuc: "nuc \<in> set (sp_nuclides sp)"
    and e: "e = (nuc, index_in (rr_nuc_to_ind (op_reaction_rates op)) nuc)"
    by (auto simp: nuc_ind_of_def zip_map_self)
  from assms nuc have m: "nuc \<in> fst ` set (rr_nuc_to_ind (op_reaction_rates op))"
    and m': "nuc \<in> fst ` set (nuc_to_ind (op_number op))"
    by (auto simp: wf_tally_def)
  from index_in_range [OF m] assms
  have "index_in (rr_nuc_to_ind (op_reaction_rates op)) nuc < n_nuc (op_reaction_rates op)"
    unfolding wf_tally_def by fastforce
  with m' e show "snd e < n_nuc (op_reaction_rates op) \<and> od_mem (fst e) (nuc_to_ind (op_number op))"
    by (simp add: od_mem_def)
qed

lemma wf_react_ind_bounds:
  assumes "wf_tally sp op"
  shows "\<forall>r \<in> set (react_ind_of sp op). r < n_react (op_reaction_rates op)"
proof
  fix r assume "r \<in> set (react_ind_of sp op)"
  then obtain k where k: "k \<in> set (sp_reactions sp)"
    and r: "r = index_in (rr_react_to_ind (op_reaction_rates op)) k"
    by (auto simp: react_ind_of_def)
  from assms k have m: "k \<in> fst ` set (rr_react_to_ind (op_reaction_rates op))"
    by (auto simp: wf_tally_def)
  from index_in_range [OF m] assms r show "r < n_react (op_reaction_rates op)"
    unfolding wf_tally_def by fastforce
qed

lemma wf_fission_ind:
  assumes "wf_tally sp op"
  shows "fission_ind_of op < n_react (op_reaction_rates op)"
proof -
  from assms have m: "''fission'' \<in> fst ` set (rr_react_to_ind (op_reaction_rates op))"
    by (simp add: wf_tally_def)
  from index_in_range [OF m] assms show ?thesis
    unfolding wf_tally_def fission_ind_of_def by fastforce
qed

lemma wf_nuc_ind_distinct:
  assumes "wf_tally sp op"
  shows "distinct (nuc_ind_of sp op)"
proof -
  from assms have d: "distinct (map snd (rr_nuc_to_ind (op_reaction_rates op)))"
    and dn: "distinct (sp_nuclides sp)"
    and sub: "set (sp_nuclides sp) \<subseteq> fst ` set (rr_nuc_to_ind (op_reaction_rates op))"
    by (simp_all add: wf_tally_def)
  have "inj_on (index_in (rr_nuc_to_ind (op_reaction_rates op))) (set (sp_nuclides sp))"
    using sub by (intro inj_onI index_in_inj [OF d]) auto
  with dn show ?thesis by (simp add: nuc_ind_of_def distinct_map)
qed

lemma wf_react_ind_distinct:
  assumes "wf_tally sp op"
  shows "distinct (react_ind_of sp op)"
proof -
  from assms have d: "distinct (map snd (rr_react_to_ind (op_reaction_rates op)))"
    and dn: "distinct (sp_reactions sp)"
    and sub: "set (sp_reactions sp) \<subseteq> fst ` set (rr_react_to_ind (op_reaction_rates op))"
    by (simp_all add: wf_tally_def)
  have "inj_on (index_in (rr_react_to_ind (op_reaction_rates op))) (set (sp_reactions sp))"
    using sub by (intro inj_onI index_in_inj [OF d]) auto
  with dn show ?thesis by (simp add: react_ind_of_def distinct_map)
qed

lemma wf_slab:
  assumes "wf_tally sp op" and "mat \<in> set (burn_mat_list (op_number op))"
  shows "index_of (map str_nat (sp_materials sp)) mat = Inr (slab_of sp mat)"
    and "slab_of sp mat < length (sp_results sp)"
    and "length (sp_results sp ! slab_of sp mat) = length (sp_nuclides sp) * length (sp_reactions sp)"
proof -
  from assms have "mat \<in> set (map str_nat (sp_materials sp))" by (auto simp: wf_tally_def)
  from index_of_mem [OF this] obtain i where
    i: "index_of (map str_nat (sp_materials sp)) mat = Inr i" "i < length (sp_materials sp)"
    by auto
  then have s: "slab_of sp mat = i" by (simp add: slab_of_def)
  from i s show "index_of (map str_nat (sp_materials sp)) mat = Inr (slab_of sp mat)" by simp
  from i s assms(1) show l: "slab_of sp mat < length (sp_results sp)" by (simp add: wf_tally_def)
  then have "sp_results sp ! slab_of sp mat \<in> set (sp_results sp)" by simp
  with assms(1) show "length (sp_results sp ! slab_of sp mat) =
      length (sp_nuclides sp) * length (sp_reactions sp)"
    by (simp add: wf_tally_def)
qed

lemma wf_expansion:
  assumes wf: "wf_tally sp op" and mat: "mat \<in> set (burn_mat_list (op_number op))"
  shows "\<exists>j. expand_nuclides (op_reaction_rates op) (op_number op) mat
             (sp_results sp ! slab_of sp mat)
             (zip (sp_nuclides sp) (nuc_ind_of sp op)) (react_ind_of sp op)
             (\<lambda>n r. 0, \<lambda>n. 0, 0) =
           Inr (results_expanded_of sp op mat, number_of sp op mat, j)"
    and "\<forall>n r. n \<notin> set (nuc_ind_of sp op) \<or> r \<notin> set (react_ind_of sp op) \<longrightarrow>
           results_expanded_of sp op mat n r = 0"
    and "\<forall>n. n \<notin> set (nuc_ind_of sp op) \<or> react_ind_of sp op = [] \<longrightarrow> number_of sp op mat n = 0"
    and "react_ind_of sp op \<noteq> [] \<longrightarrow>
           (\<forall>nuc \<in> set (sp_nuclides sp).
              number_of sp op mat (index_in (rr_nuc_to_ind (op_reaction_rates op)) nuc) =
                atoms (op_number op) mat nuc)"
    and "\<forall>a < length (sp_nuclides sp). \<forall>b < length (sp_reactions sp).
           results_expanded_of sp op mat (nuc_ind_of sp op ! a) (react_ind_of sp op ! b) =
             sp_results sp ! slab_of sp mat ! (a * length (sp_reactions sp) + b)"
proof -
  let ?nucs = "zip (sp_nuclides sp) (nuc_ind_of sp op)"
  have ln: "length ?nucs = length (sp_nuclides sp)" by (simp add: nuc_ind_of_def)
  have lr: "length (react_ind_of sp op) = length (sp_reactions sp)" by (simp add: react_ind_of_def)
  have sn: "map snd ?nucs = nuc_ind_of sp op" by (simp add: nuc_ind_of_def)
  have len: "0 + length ?nucs * length (react_ind_of sp op) \<le> length (sp_results sp ! slab_of sp mat)"
    using wf_slab(3) [OF wf mat] by (simp add: ln lr)
  from wf mat have m: "od_mem mat (mat_to_ind (op_number op))"
    by (auto simp: wf_tally_def od_mem_def)
  from expand_nuclides_ok [OF len wf_nuc_ind_bounds [OF wf] wf_react_ind_bounds [OF wf] m,
      of "\<lambda>n r. 0" "\<lambda>n. 0"]
  obtain re' number' where
    run: "expand_nuclides (op_reaction_rates op) (op_number op) mat (sp_results sp ! slab_of sp mat)
            ?nucs (react_ind_of sp op) (\<lambda>n r. 0, \<lambda>n. 0, 0) =
          Inr (re', number', 0 + length ?nucs * length (react_ind_of sp op))"
    and other: "\<forall>n r. n \<notin> snd ` set ?nucs \<or> r \<notin> set (react_ind_of sp op) \<longrightarrow> re' n r = 0"
    and num: "\<forall>n. n \<notin> snd ` set ?nucs \<or> react_ind_of sp op = [] \<longrightarrow> number' n = 0"
    and dnum: "distinct (map snd ?nucs) \<longrightarrow> react_ind_of sp op \<noteq> [] \<longrightarrow>
        (\<forall>e \<in> set ?nucs. number' (snd e) = atoms (op_number op) mat (fst e))"
    and vals: "distinct (map snd ?nucs) \<longrightarrow> distinct (react_ind_of sp op) \<longrightarrow>
        (\<forall>a < length ?nucs. \<forall>b < length (react_ind_of sp op).
           re' (snd (?nucs ! a)) (react_ind_of sp op ! b) =
             sp_results sp ! slab_of sp mat ! (0 + a * length (react_ind_of sp op) + b))"
    by blast
  from run have re: "results_expanded_of sp op mat = re'" and nm: "number_of sp op mat = number'"
    by (simp_all add: results_expanded_of_def number_of_def expansion_of_def)
  have img: "snd ` set ?nucs = set (nuc_ind_of sp op)"
    using sn by (metis set_map)
  from run show "\<exists>j. expand_nuclides (op_reaction_rates op) (op_number op) mat
             (sp_results sp ! slab_of sp mat) ?nucs (react_ind_of sp op) (\<lambda>n r. 0, \<lambda>n. 0, 0) =
           Inr (results_expanded_of sp op mat, number_of sp op mat, j)"
    unfolding re nm by blast
  from other show "\<forall>n r. n \<notin> set (nuc_ind_of sp op) \<or> r \<notin> set (react_ind_of sp op) \<longrightarrow>
           results_expanded_of sp op mat n r = 0"
    unfolding re img .
  from num show "\<forall>n. n \<notin> set (nuc_ind_of sp op) \<or> react_ind_of sp op = [] \<longrightarrow> number_of sp op mat n = 0"
    unfolding nm img .
  show "react_ind_of sp op \<noteq> [] \<longrightarrow>
           (\<forall>nuc \<in> set (sp_nuclides sp).
              number_of sp op mat (index_in (rr_nuc_to_ind (op_reaction_rates op)) nuc) =
                atoms (op_number op) mat nuc)"
  proof (intro impI ballI)
    fix nuc assume r: "react_ind_of sp op \<noteq> []" and nuc: "nuc \<in> set (sp_nuclides sp)"
    then have "(nuc, index_in (rr_nuc_to_ind (op_reaction_rates op)) nuc) \<in> set ?nucs"
      by (simp add: nuc_ind_of_def zip_map_self)
    with dnum r wf_nuc_ind_distinct [OF wf] sn
    show "number_of sp op mat (index_in (rr_nuc_to_ind (op_reaction_rates op)) nuc) =
                atoms (op_number op) mat nuc"
      unfolding nm by fastforce
  qed
  show "\<forall>a < length (sp_nuclides sp). \<forall>b < length (sp_reactions sp).
           results_expanded_of sp op mat (nuc_ind_of sp op ! a) (react_ind_of sp op ! b) =
             sp_results sp ! slab_of sp mat ! (a * length (sp_reactions sp) + b)"
  proof (intro allI impI)
    fix a b assume a: "a < length (sp_nuclides sp)" and b: "b < length (sp_reactions sp)"
    from a have s: "snd (?nucs ! a) = nuc_ind_of sp op ! a" by (simp add: nuc_ind_of_def)
    from a b have a': "a < length ?nucs" and b': "b < length (react_ind_of sp op)"
      by (simp_all add: lr nuc_ind_of_def)
    from wf_nuc_ind_distinct [OF wf] have "distinct (map snd ?nucs)" unfolding sn .
    with vals wf_react_ind_distinct [OF wf] a' b'
    have "re' (snd (?nucs ! a)) (react_ind_of sp op ! b) =
             sp_results sp ! slab_of sp mat ! (0 + a * length (react_ind_of sp op) + b)"
      by blast
    then show "results_expanded_of sp op mat (nuc_ind_of sp op ! a) (react_ind_of sp op ! b) =
             sp_results sp ! slab_of sp mat ! (a * length (sp_reactions sp) + b)"
      unfolding re s lr by simp
  qed
qed

lemma unpack_material_eq:
  assumes wf: "wf_tally sp op" and mat: "mat \<in> set (burn_mat_list (op_number op))"
    and i: "i < n_mat (op_reaction_rates op)"
  shows "unpack_material np sp (op_reaction_rates op) (op_number op)
           (zip (sp_nuclides sp) (nuc_ind_of sp op)) (react_ind_of sp op) (fission_ind_of op)
           (power_vec_of op) (rts, pw) (i, mat) =
         Inr (rts(i := divided_of sp op mat), pw + material_power np sp op mat)"
proof -
  from wf_expansion(1) [OF wf mat] obtain j where
    run: "expand_nuclides (op_reaction_rates op) (op_number op) mat
             (sp_results sp ! slab_of sp mat)
             (zip (sp_nuclides sp) (nuc_ind_of sp op)) (react_ind_of sp op)
             (\<lambda>n r. 0, \<lambda>n. 0, 0) =
           Inr (results_expanded_of sp op mat, number_of sp op mat, j)" by blast
  have sn: "map snd (zip (sp_nuclides sp) (nuc_ind_of sp op)) = nuc_ind_of sp op"
    by (simp add: nuc_ind_of_def)
  show ?thesis
    unfolding unpack_material.simps wf_slab(1) [OF wf mat] sn
    using wf_slab(2) [OF wf mat] wf_fission_ind [OF wf] i run
    by (simp add: divided_of_def material_power_def)
qed

lemma unpack_materials_eq:
  assumes wf: "wf_tally sp op" and mats: "set mats \<subseteq> set (burn_mat_list (op_number op))"
    and len: "k + length mats \<le> n_mat (op_reaction_rates op)"
  shows "unpack_materials np sp (op_reaction_rates op) (op_number op)
           (zip (sp_nuclides sp) (nuc_ind_of sp op)) (react_ind_of sp op) (fission_ind_of op)
           (power_vec_of op) (enumerate k mats) (rts, pw) =
         Inr (\<lambda>i. if k \<le> i \<and> i < k + length mats then divided_of sp op (mats ! (i - k)) else rts i,
              foldl (+) pw (map (material_power np sp op) mats))"
  using mats len
proof (induction mats arbitrary: k rts pw)
  case Nil
  show ?case by (auto intro!: ext)
next
  case (Cons mat mats)
  from Cons.prems have m: "mat \<in> set (burn_mat_list (op_number op))"
    and ms: "set mats \<subseteq> set (burn_mat_list (op_number op))"
    and k: "k < n_mat (op_reaction_rates op)"
    and l: "Suc k + length mats \<le> n_mat (op_reaction_rates op)" by simp_all
  have f: "(\<lambda>i. if Suc k \<le> i \<and> i < Suc k + length mats then divided_of sp op (mats ! (i - Suc k))
                 else (rts(k := divided_of sp op mat)) i) =
           (\<lambda>i. if k \<le> i \<and> i < k + length (mat # mats) then divided_of sp op ((mat # mats) ! (i - k))
                 else rts i)"
    by (rule ext) (auto simp: nth_Cons' Suc_diff_Suc not_less less_Suc_eq_le)
  have "unpack_materials np sp (op_reaction_rates op) (op_number op)
           (zip (sp_nuclides sp) (nuc_ind_of sp op)) (react_ind_of sp op) (fission_ind_of op)
           (power_vec_of op) (enumerate k (mat # mats)) (rts, pw) =
        unpack_materials np sp (op_reaction_rates op) (op_number op)
           (zip (sp_nuclides sp) (nuc_ind_of sp op)) (react_ind_of sp op) (fission_ind_of op)
           (power_vec_of op) (enumerate (Suc k) mats)
           (rts(k := divided_of sp op mat), pw + material_power np sp op mat)"
    unfolding enumerate_simps unpack_materials.simps unpack_material_eq [OF wf m k]
    by (simp only: sum.case)
  also have "\<dots> = Inr (\<lambda>i. if Suc k \<le> i \<and> i < Suc k + length mats then divided_of sp op (mats ! (i - Suc k))
                 else (rts(k := divided_of sp op mat)) i,
              foldl (+) (pw + material_power np sp op mat) (map (material_power np sp op) mats))"
    by (rule Cons.IH [OF ms l])
  also have "\<dots> = Inr (\<lambda>i. if k \<le> i \<and> i < k + length (mat # mats) then divided_of sp op ((mat # mats) ! (i - k))
                 else rts i,
              foldl (+) pw (map (material_power np sp op) (mat # mats)))"
    unfolding f by (simp only: list.map foldl_Cons)
  finally show ?case .
qed

lemma unpack_tallies_eq:
  assumes wf: "wf_tally sp op"
  shows "unpack_tallies np sp op =
     Inr (op\<lparr>op_reaction_rates := (op_reaction_rates op)\<lparr>rates := ingested_rates sp op\<rparr>\<rparr>,
          partial_power np sp op)"
proof -
  let ?rr = "op_reaction_rates op"
  from wf have n: "set (sp_nuclides sp) \<subseteq> fst ` set (rr_nuc_to_ind ?rr)"
    and r: "set (sp_reactions sp) \<subseteq> fst ` set (rr_react_to_ind ?rr)"
    and f: "''fission'' \<in> fst ` set (rr_react_to_ind ?rr)"
    and b: "\<forall>e \<in> set (rr_nuc_to_ind ?rr). snd e < n_nuc ?rr"
    and len: "0 + length (burn_mat_list (op_number op)) \<le> n_mat ?rr"
    by (simp_all add: wf_tally_def)
  have rt: "(\<lambda>i. if 0 \<le> i \<and> i < 0 + length (burn_mat_list (op_number op))
                  then divided_of sp op (burn_mat_list (op_number op) ! (i - 0))
                  else (\<lambda>n r. 0)) = ingested_rates sp op"
    by (rule ext) (simp add: ingested_rates_def)
  have l1: "lookup_all (rr_nuc_to_ind ?rr) (sp_nuclides sp) = Inr (nuc_ind_of sp op)"
    unfolding nuc_ind_of_def by (rule lookup_all_mem [OF n])
  have l2: "lookup_all (rr_react_to_ind ?rr) (sp_reactions sp) = Inr (react_ind_of sp op)"
    unfolding react_ind_of_def by (rule lookup_all_mem [OF r])
  have l3: "od_get (rr_react_to_ind ?rr) ''fission'' = Inr (fission_ind_of op)"
    unfolding fission_ind_of_def by (rule od_get_mem [OF f])
  have l4: "unpack_materials np sp ?rr (op_number op)
           (zip (sp_nuclides sp) (nuc_ind_of sp op)) (react_ind_of sp op) (fission_ind_of op)
           (power_vec_of op) (enumerate 0 (burn_mat_list (op_number op))) (\<lambda>i n r. 0, 0) =
         Inr (ingested_rates sp op, partial_power np sp op)"
    unfolding unpack_materials_eq [OF wf subset_refl len] rt by (simp add: partial_power_def)
  show ?thesis
    unfolding unpack_tallies_def Let_def l1 l2 l3 power_vec_loop_of [OF b]
    by (simp add: l4)
qed

lemma unpack_all_eq:
  assumes "\<forall>op \<in> set ops. wf_tally sp op"
  shows "unpack_all np sp ops = Inr (map (\<lambda>op. (ingested sp op, partial_power np sp op)) ops)"
  using assms by (induction ops) (simp_all add: unpack_tallies_eq ingested_def)

lemma unpack_tallies_and_normalize_eq:
  assumes "\<forall>op \<in> set ops. wf_tally sp op"
  shows "unpack_tallies_and_normalize np sp ops =
     Inr (k_combined sp, map (\<lambda>op. normalize (measured_power np sp ops) (ingested sp op)) ops)"
  unfolding unpack_tallies_and_normalize_def unpack_all_eq [OF assms]
  by (simp add: measured_power_def comp_def)


subsection \<open>The stored rates\<close>

lemma divided_of_zero_atoms:
  assumes wf: "wf_tally sp op" and mat: "mat \<in> set (burn_mat_list (op_number op))"
    and nuc: "nuc \<in> set (sp_nuclides sp)" and zero: "float_eq (atoms (op_number op) mat nuc) 0"
  shows "divided_of sp op mat (index_in (rr_nuc_to_ind (op_reaction_rates op)) nuc) r =
         results_expanded_of sp op mat (index_in (rr_nuc_to_ind (op_reaction_rates op)) nuc) r"
proof (cases "react_ind_of sp op = []")
  case True
  then show ?thesis
    unfolding divided_of_def by (simp add: divide_nuclides_other)
next
  case False
  with wf_expansion(4) [OF wf mat] nuc zero
  have "float_eq (number_of sp op mat (index_in (rr_nuc_to_ind (op_reaction_rates op)) nuc)) 0"
    by simp
  then show ?thesis
    unfolding divided_of_def by (simp add: divide_nuclides_other)
qed

lemma divided_of_cases:
  assumes wf: "wf_tally sp op"
  shows "divided_of sp op mat n r = results_expanded_of sp op mat n r \<or>
     (\<not> float_eq (number_of sp op mat n) 0 \<and>
      divided_of sp op mat n r = results_expanded_of sp op mat n r / number_of sp op mat n)"
  unfolding divided_of_def
    divide_nuclides_eq [OF wf_nuc_ind_distinct [OF wf] wf_react_ind_distinct [OF wf]]
  by simp

lemma results_expanded_of_cases:
  assumes wf: "wf_tally sp op" and mat: "mat \<in> set (burn_mat_list (op_number op))"
  shows "results_expanded_of sp op mat n r = 0 \<or>
         results_expanded_of sp op mat n r \<in> set (sp_results sp ! slab_of sp mat)"
proof (cases "n \<in> set (nuc_ind_of sp op) \<and> r \<in> set (react_ind_of sp op)")
  case False
  with wf_expansion(2) [OF wf mat] show ?thesis by blast
next
  case True
  let ?N = "length (sp_nuclides sp)" and ?R = "length (sp_reactions sp)"
  from True obtain a b where a: "a < ?N" "nuc_ind_of sp op ! a = n"
    and b: "b < ?R" "react_ind_of sp op ! b = r"
    by (auto simp: in_set_conv_nth nuc_ind_of_def react_ind_of_def)
  from wf_expansion(5) [OF wf mat] a b
  have v: "results_expanded_of sp op mat n r = sp_results sp ! slab_of sp mat ! (a * ?R + b)"
    by blast
  from a(1) have "Suc a * ?R \<le> ?N * ?R" by (intro mult_le_mono1) simp
  with b(1) have "a * ?R + b < ?N * ?R" by simp
  then have "a * ?R + b < length (sp_results sp ! slab_of sp mat)"
    unfolding wf_slab(3) [OF wf mat] .
  then show ?thesis unfolding v by simp
qed


subsection \<open>The normalisation on the doubles\<close>

lemma float_eq_zero_double:
  assumes "float_eq (p::double) 0"
  shows "\<exists>s e. p = Finite s 0 e"
proof (cases p)
  case (Finite s m e)
  let ?k = "nat (e - min e (- 1074))"
  from assms Finite have "signed s m * 2 ^ ?k \<le> 0" and "0 \<le> signed s m * 2 ^ ?k"
    by (simp_all add: float_eq_def less_eq_double_def zero_double_def signed_def min.commute)
  then have "signed s m * 2 ^ ?k = 0" by simp
  then have "m = 0" by (simp add: signed_def split: if_splits)
  with Finite show ?thesis by simp
next
  case (Infinity s)
  with assms show ?thesis
    by (cases s) (simp_all add: float_eq_def less_eq_double_def zero_double_def)
next
  case NaN
  with assms show ?thesis by (simp add: float_eq_def less_eq_double_def zero_double_def)
qed

lemma divide_by_zero_not_finite:
  assumes "float_eq (p::double) 0"
  shows "\<not> is_finite (x / p)"
proof -
  from float_eq_zero_double [OF assms] obtain s e where "p = Finite s 0 e" by blast
  then show ?thesis by (cases x) (simp_all add: divide_double_def)
qed

lemma times_not_finite:
  assumes "\<not> is_finite (y::double)"
  shows "\<not> is_finite (x * y)"
  using assms by (cases x; cases y) (simp_all add: times_double_def)

lemma is_finite_zero: "is_finite (0::double)"
  by (simp add: zero_double_def)


subsection \<open>The power that the rates stand for, in exact arithmetic\<close>

lemma float_eq_real [simp]: "float_eq (x::real) y \<longleftrightarrow> x = y"
  by (auto simp: float_eq_def)

lemma foldl_plus_sum_list: "foldl (+) (a::real) xs = a + sum_list xs"
  by (induction xs arbitrary: a) simp_all

lemma np_sum_real: "np_sum (seq_numpy :: real numpy) xs = sum_list xs"
  by (simp add: seq_numpy_def foldl_plus_sum_list)

lemma sum_list_map_upt: "(\<Sum>i \<leftarrow> [0 ..< n]. (h i :: real)) = sum h {..< n}"
  by (induction n) simp_all

lemma dot_fission_real:
  "dot_fission (seq_numpy :: real numpy) n re f pv = (\<Sum>i < n. re i f * pv i)"
proof -
  have "zip (map (\<lambda>i. re i f) [0 ..< n]) (map pv [0 ..< n]) = map (\<lambda>i. (re i f, pv i)) [0 ..< n]"
    by (simp add: zip_map_map zip_same_conv_map)
  then show ?thesis
    by (simp add: dot_fission_def seq_numpy_def foldl_plus_sum_list comp_def sum_list_map_upt)
qed

lemma partial_power_real:
  "partial_power seq_numpy sp (op :: real operator) =
     (\<Sum>mat \<leftarrow> burn_mat_list (op_number op). material_power seq_numpy sp op mat)"
  by (simp add: partial_power_def foldl_plus_sum_list)

lemma measured_power_real:
  "measured_power seq_numpy sp (ops :: real operator list) =
     (\<Sum>op \<leftarrow> ops. partial_power seq_numpy sp op)"
  by (simp add: measured_power_def gather_power_def np_sum_real comp_def)

lemma divided_term:
  fixes op :: "real operator"
  assumes wf: "wf_tally sp op" and mat: "mat \<in> set (burn_mat_list (op_number op))"
    and np: "no_power_without_atoms sp op"
    and e: "(nuc, n) \<in> set (rr_nuc_to_ind (op_reaction_rates op))"
  shows "divided_of sp op mat n (fission_ind_of op) * atoms (op_number op) mat nuc *
           power_vec_of op n =
         results_expanded_of sp op mat n (fission_ind_of op) * power_vec_of op n"
proof -
  let ?d = "rr_nuc_to_ind (op_reaction_rates op)"
  let ?f = "fission_ind_of op"
  let ?re = "results_expanded_of sp op mat"
  from wf have dk: "distinct (map fst ?d)" and dv: "distinct (map snd ?d)"
    and sub: "set (sp_nuclides sp) \<subseteq> fst ` set ?d" by (simp_all add: wf_tally_def)
  from e dk have n: "n = index_in ?d nuc" by (simp add: index_in_mem)
  from e have key: "nuc \<in> fst ` set ?d" by force
  have untouched: "?thesis" if "n \<notin> set (nuc_ind_of sp op) \<or> ?f \<notin> set (react_ind_of sp op)"
  proof -
    from that wf_expansion(2) [OF wf mat] have z: "?re n ?f = 0" by blast
    from that have "divided_of sp op mat n ?f = ?re n ?f"
      unfolding divided_of_def by (auto simp: divide_nuclides_other)
    with z show ?thesis by simp
  qed
  show ?thesis
  proof (cases "nuc \<in> set (sp_nuclides sp)")
    case False
    have "n \<notin> set (nuc_ind_of sp op)"
    proof
      assume "n \<in> set (nuc_ind_of sp op)"
      then obtain nuc' where nuc': "nuc' \<in> set (sp_nuclides sp)" "n = index_in ?d nuc'"
        by (auto simp: nuc_ind_of_def)
      with sub have "nuc' \<in> fst ` set ?d" by blast
      from index_in_inj [OF dv key this] n nuc'(2) have "nuc = nuc'" by simp
      with False nuc'(1) show False by simp
    qed
    then show ?thesis by (simp add: untouched)
  next
    case True
    then have nin: "n \<in> set (nuc_ind_of sp op)" by (simp add: n nuc_ind_of_def)
    show ?thesis
    proof (cases "?f \<in> set (react_ind_of sp op)")
      case False
      then show ?thesis by (simp add: untouched)
    next
      case fin: True
      then have "react_ind_of sp op \<noteq> []" by auto
      with wf_expansion(4) [OF wf mat] True
      have num: "number_of sp op mat n = atoms (op_number op) mat nuc" by (simp add: n)
      have dv: "divided_of sp op mat n ?f =
          (if atoms (op_number op) mat nuc \<noteq> 0
           then ?re n ?f / atoms (op_number op) mat nuc else ?re n ?f)"
        unfolding divided_of_def
          divide_nuclides_eq [OF wf_nuc_ind_distinct [OF wf] wf_react_ind_distinct [OF wf]]
        using nin fin by (simp add: num)
      show ?thesis
      proof (cases "atoms (op_number op) mat nuc = 0")
        case z: True
        with np mat True have "?re n ?f * power_vec_of op n = 0"
          unfolding no_power_without_atoms_def n by blast
        with z dv show ?thesis by simp
      next
        case False
        with dv show ?thesis by simp
      qed
    qed
  qed
qed

lemma material_sum:
  fixes op :: "real operator"
  assumes wf: "wf_tally sp op" and mat: "mat \<in> set (burn_mat_list (op_number op))"
    and np: "no_power_without_atoms sp op"
  shows "(\<Sum>(nuc, n) \<leftarrow> rr_nuc_to_ind (op_reaction_rates op).
            divided_of sp op mat n (fission_ind_of op) *
            atoms (op_number op) mat nuc * power_vec_of op n) =
         material_power seq_numpy sp op mat"
proof -
  let ?d = "rr_nuc_to_ind (op_reaction_rates op)"
  let ?f = "fission_ind_of op"
  let ?g = "\<lambda>n. results_expanded_of sp op mat n ?f * power_vec_of op n"
  from wf have dv: "distinct (map snd ?d)"
    and bound: "\<forall>e \<in> set ?d. snd e < n_nuc (op_reaction_rates op)"
    and sub: "set (sp_nuclides sp) \<subseteq> fst ` set ?d" by (simp_all add: wf_tally_def)
  have "(\<Sum>(nuc, n) \<leftarrow> ?d. divided_of sp op mat n ?f *
            atoms (op_number op) mat nuc * power_vec_of op n) =
        (\<Sum>e \<leftarrow> ?d. ?g (snd e))"
    by (rule arg_cong [where f = sum_list], rule map_cong [OF refl])
       (auto simp: divided_term [OF wf mat np])
  also have "\<dots> = (\<Sum>n \<leftarrow> map snd ?d. ?g n)"
    by (simp add: comp_def)
  also have "\<dots> = sum ?g (set (map snd ?d))"
    by (rule sum_list_distinct_conv_sum_set [OF dv])
  also have "\<dots> = sum ?g {..< n_nuc (op_reaction_rates op)}"
  proof (rule sum.mono_neutral_left)
    show "finite {..< n_nuc (op_reaction_rates op)}" by simp
    show "set (map snd ?d) \<subseteq> {..< n_nuc (op_reaction_rates op)}" using bound by auto
    show "\<forall>n \<in> {..< n_nuc (op_reaction_rates op)} - set (map snd ?d). ?g n = 0"
    proof
      fix n assume "n \<in> {..< n_nuc (op_reaction_rates op)} - set (map snd ?d)"
      then have out: "n \<notin> snd ` set ?d" by simp
      have "n \<notin> set (nuc_ind_of sp op)"
      proof
        assume "n \<in> set (nuc_ind_of sp op)"
        then obtain nuc where "nuc \<in> set (sp_nuclides sp)" "n = index_in ?d nuc"
          by (auto simp: nuc_ind_of_def)
        with sub index_in_range [of nuc ?d] have "(nuc, n) \<in> set ?d" by blast
        with out show False by force
      qed
      with wf_expansion(2) [OF wf mat] show "?g n = 0" by simp
    qed
  qed
  finally show ?thesis by (simp add: material_power_def dot_fission_real)
qed

lemma power_vec_loop_rates:
  "power_vec_loop (rr\<lparr>rates := x\<rparr>) ns pv = power_vec_loop rr ns pv"
  by (induction ns arbitrary: pv) (simp_all split: sum.splits)

lemma number_normalize [simp]: "op_number (normalize pw (ingested sp op)) = op_number op"
  by (simp add: normalize_def ingested_def)

lemma nuc_to_ind_normalize [simp]:
  "rr_nuc_to_ind (op_reaction_rates (normalize pw (ingested sp op))) =
   rr_nuc_to_ind (op_reaction_rates op)"
  by (simp add: normalize_def ingested_def)

lemma power_vec_of_normalize [simp]:
  "power_vec_of (normalize pw (ingested sp op)) = power_vec_of op"
  by (simp add: power_vec_of_def normalize_def ingested_def power_vec_loop_rates)

lemma fission_ind_of_normalize [simp]:
  "fission_ind_of (normalize pw (ingested sp op)) = fission_ind_of op"
  by (simp add: fission_ind_of_def normalize_def ingested_def)

lemma rates_normalize:
  "rates (op_reaction_rates (normalize pw (ingested sp op))) i n r =
     ingested_rates sp op i n r * (power_setting (op_settings op) / pw)"
  by (simp add: normalize_def ingested_def)

lemma sum_list_enumerate: "(\<Sum>(i, x) \<leftarrow> enumerate k xs. (h x :: real)) = (\<Sum>x \<leftarrow> xs. h x)"
  by (induction xs arbitrary: k) simp_all

lemma reconstructed_power_normalize:
  fixes op :: "real operator"
  assumes wf: "wf_tally sp op" and np: "no_power_without_atoms sp op"
  shows "reconstructed_power (normalize pw (ingested sp op)) =
         partial_power seq_numpy sp op * (power_setting (op_settings op) / pw)"
proof -
  let ?c = "power_setting (op_settings op) / pw"
  let ?bml = "burn_mat_list (op_number op)"
  let ?d = "rr_nuc_to_ind (op_reaction_rates op)"
  let ?f = "fission_ind_of op"
  have inner: "(\<Sum>(nuc, n) \<leftarrow> ?d.
          (ingested_rates sp op i n ?f * ?c) *
          atoms (op_number op) mat nuc * power_vec_of op n) = material_power seq_numpy sp op mat * ?c"
    if "(i, mat) \<in> set (enumerate 0 ?bml)" for i mat
  proof -
    from that have i: "i < length ?bml" and m: "?bml ! i = mat"
      by (simp_all add: in_set_enumerate_eq)
    then have mat: "mat \<in> set ?bml" by auto
    have "(\<Sum>(nuc, n) \<leftarrow> ?d.
          (ingested_rates sp op i n ?f * ?c) *
          atoms (op_number op) mat nuc * power_vec_of op n) =
        (\<Sum>e \<leftarrow> ?d. (case e of (nuc, n) \<Rightarrow>
          divided_of sp op mat n ?f * atoms (op_number op) mat nuc * power_vec_of op n) * ?c)"
      by (rule arg_cong [where f = sum_list], rule map_cong [OF refl])
         (auto simp: ingested_rates_def i m)
    also have "\<dots> = (\<Sum>(nuc, n) \<leftarrow> ?d.
          divided_of sp op mat n ?f * atoms (op_number op) mat nuc * power_vec_of op n) * ?c"
      by (rule sum_list_mult_const)
    finally show ?thesis unfolding material_sum [OF wf mat np] .
  qed
  have "reconstructed_power (normalize pw (ingested sp op)) =
      (\<Sum>(i, mat) \<leftarrow> enumerate 0 ?bml. \<Sum>(nuc, n) \<leftarrow> ?d.
          (ingested_rates sp op i n ?f * ?c) *
          atoms (op_number op) mat nuc * power_vec_of op n)"
    unfolding reconstructed_power_def rates_normalize by simp
  also have "\<dots> = (\<Sum>(i, mat) \<leftarrow> enumerate 0 ?bml. material_power seq_numpy sp op mat * ?c)"
  proof (rule arg_cong [where f = sum_list], rule map_cong [OF refl])
    fix x assume x: "x \<in> set (enumerate 0 ?bml)"
    obtain i mat where e: "x = (i, mat)" by (cases x)
    show "(case x of (i, mat) \<Rightarrow> \<Sum>(nuc, n) \<leftarrow> ?d.
          (ingested_rates sp op i n ?f * ?c) *
          atoms (op_number op) mat nuc * power_vec_of op n) =
        (case x of (i, mat) \<Rightarrow> material_power seq_numpy sp op mat * ?c)"
      unfolding e prod.case by (rule inner [OF x [unfolded e]])
  qed
  also have "\<dots> = (\<Sum>mat \<leftarrow> ?bml. material_power seq_numpy sp op mat * ?c)"
    by (rule sum_list_enumerate)
  also have "\<dots> = partial_power seq_numpy sp op * ?c"
    unfolding partial_power_real by (rule sum_list_mult_const)
  finally show ?thesis .
qed


subsection \<open>The small world\<close>

lemma str_nat_digits:
  "str_nat (Suc 0) = ''1''" "str_nat 1 = ''1''" "str_nat 2 = ''2''" "str_nat 3 = ''3''"
  by code_simp+

lemma rank0_wf: "wf_tally (example_statepoint lit) (rank_operator lit 0 [''1'', ''2''])"
  by (simp add: wf_tally_def rank_operator_def rank_number_def rank_rates_def
      example_statepoint_def enumerate_dict_def str_nat_digits)

lemma rank1_wf: "wf_tally (example_statepoint lit) (rank_operator lit 1 [''3''])"
  by (simp add: wf_tally_def rank_operator_def rank_number_def rank_rates_def
      example_statepoint_def enumerate_dict_def str_nat_digits)

lemma example_world_wf: "\<forall>op \<in> set (example_world lit). wf_tally (example_statepoint lit) op"
  unfolding example_world_def using rank0_wf [of lit] rank1_wf [of lit] by simp

lemma cold_world_wf: "\<forall>op \<in> set (example_world lit). wf_tally (cold_statepoint lit) op"
  by (simp add: example_world_def wf_tally_def rank_operator_def rank_number_def rank_rates_def
      cold_statepoint_def enumerate_dict_def str_nat_digits)

lemma example_measured:
  "measured_power seq_numpy (example_statepoint of_int) (example_world of_int) = (1200 :: real)"
  by code_simp

lemma cold_measured:
  "float_eq (measured_power seq_numpy (cold_statepoint double_of_int) (example_world double_of_int)) 0"
  by code_simp

lemma example_np:
  "\<forall>op \<in> set (example_world of_int).
     no_power_without_atoms (example_statepoint of_int) (op :: real operator)"
  by code_simp

lemma example_target:
  "\<forall>op \<in> set (example_world of_int). power_setting (op_settings op) = (600 :: real)"
  by (simp add: example_world_def rank_operator_def)

subsection \<open>The claims about the ingestion and the normalisation\<close>

text \<open>
  Claim C4. When the loop of a rank has stored the rates of a burnable material (lines
  786--795, before the reduction of the power), the entries of a nuclide of the tally
  whose number of atoms in the material is zero (\<^verbatim>\<open>number != 0.0\<close> is false) are the
  values of the expansion: the division was skipped for them. For the scores of the
  tally these are the tallied values of the file, so they are finite when the tallied
  values are. No entry of any material was divided by zero: an entry is the expanded
  value, or the expanded value divided by a number of atoms that is not zero.
\<close>

theorem zero_atom_entries_not_divided:
  fixes op :: "double operator"
  assumes wf: "wf_tally sp op"
    and i: "i < length (burn_mat_list (op_number op))"
    and nuc: "nuc \<in> set (sp_nuclides sp)"
    and zero: "float_eq (atoms (op_number op) (burn_mat_list (op_number op) ! i) nuc) 0"
  shows "\<exists>op' pw. unpack_tallies np sp op = Inr (op', pw) \<and>
     (\<forall>r. rates (op_reaction_rates op') i (index_in (rr_nuc_to_ind (op_reaction_rates op)) nuc) r =
          results_expanded_of sp op (burn_mat_list (op_number op) ! i)
            (index_in (rr_nuc_to_ind (op_reaction_rates op)) nuc) r) \<and>
     (\<forall>a < length (sp_nuclides sp). \<forall>b < length (sp_reactions sp). sp_nuclides sp ! a = nuc \<longrightarrow>
        rates (op_reaction_rates op') i (index_in (rr_nuc_to_ind (op_reaction_rates op)) nuc)
          (index_in (rr_react_to_ind (op_reaction_rates op)) (sp_reactions sp ! b)) =
        sp_results sp ! slab_of sp (burn_mat_list (op_number op) ! i) !
          (a * length (sp_reactions sp) + b)) \<and>
     ((\<forall>x \<in> set (sp_results sp ! slab_of sp (burn_mat_list (op_number op) ! i)). is_finite x) \<longrightarrow>
        (\<forall>r. is_finite (rates (op_reaction_rates op') i
                (index_in (rr_nuc_to_ind (op_reaction_rates op)) nuc) r))) \<and>
     (\<forall>j < length (burn_mat_list (op_number op)). \<forall>n r.
        rates (op_reaction_rates op') j n r =
          results_expanded_of sp op (burn_mat_list (op_number op) ! j) n r \<or>
        \<not> float_eq (number_of sp op (burn_mat_list (op_number op) ! j) n) 0 \<and>
        rates (op_reaction_rates op') j n r =
          results_expanded_of sp op (burn_mat_list (op_number op) ! j) n r /
          number_of sp op (burn_mat_list (op_number op) ! j) n)"
proof -
  let ?mat = "burn_mat_list (op_number op) ! i"
  let ?n = "index_in (rr_nuc_to_ind (op_reaction_rates op)) nuc"
  let ?op' = "op\<lparr>op_reaction_rates := (op_reaction_rates op)\<lparr>rates := ingested_rates sp op\<rparr>\<rparr>"
  from i have mat: "?mat \<in> set (burn_mat_list (op_number op))" by simp
  have run: "unpack_tallies np sp op = Inr (?op', partial_power np sp op)"
    by (rule unpack_tallies_eq [OF wf])
  have r: "rates (op_reaction_rates ?op') = ingested_rates sp op"
    by simp
  have a: "ingested_rates sp op i ?n r = results_expanded_of sp op ?mat ?n r" for r
    using i divided_of_zero_atoms [OF wf mat nuc zero] by (simp add: ingested_rates_def)
  have b: "ingested_rates sp op i ?n (index_in (rr_react_to_ind (op_reaction_rates op)) (sp_reactions sp ! b)) =
        sp_results sp ! slab_of sp ?mat ! (a * length (sp_reactions sp) + b)"
    if "a < length (sp_nuclides sp)" "b < length (sp_reactions sp)" "sp_nuclides sp ! a = nuc" for a b
  proof -
    from that have n: "nuc_ind_of sp op ! a = ?n"
      and rb: "react_ind_of sp op ! b = index_in (rr_react_to_ind (op_reaction_rates op)) (sp_reactions sp ! b)"
      by (simp_all add: nuc_ind_of_def react_ind_of_def)
    from wf_expansion(5) [OF wf mat] that(1,2)
    have "results_expanded_of sp op ?mat (nuc_ind_of sp op ! a) (react_ind_of sp op ! b) =
        sp_results sp ! slab_of sp ?mat ! (a * length (sp_reactions sp) + b)"
      by blast
    then show ?thesis unfolding a n rb .
  qed
  have c: "is_finite (ingested_rates sp op i ?n r)"
    if "\<forall>x \<in> set (sp_results sp ! slab_of sp ?mat). is_finite x" for r
    unfolding a using results_expanded_of_cases [OF wf mat, of ?n r] that
    by (auto simp: is_finite_zero)
  have d: "ingested_rates sp op j n r = results_expanded_of sp op (burn_mat_list (op_number op) ! j) n r \<or>
        \<not> float_eq (number_of sp op (burn_mat_list (op_number op) ! j) n) 0 \<and>
        ingested_rates sp op j n r =
          results_expanded_of sp op (burn_mat_list (op_number op) ! j) n r /
          number_of sp op (burn_mat_list (op_number op) ! j) n"
    if "j < length (burn_mat_list (op_number op))" for j n r
    using that divided_of_cases [OF wf, of "burn_mat_list (op_number op) ! j" n r]
    by (simp add: ingested_rates_def)
  show ?thesis
    unfolding run using a b c d
    by (intro exI [of _ ?op'] exI [of _ "partial_power np sp op"]) (simp only: r, blast)
qed

theorem zero_atom_entries_not_divided_witness:
  "wf_tally (example_statepoint double_of_int) (rank_operator double_of_int 0 [''1'', ''2'']) \<and>
   float_eq (atoms (op_number (rank_operator double_of_int 0 [''1'', ''2''])) ''1'' ''Xe135'') 0 \<and>
   (\<exists>op' pw. unpack_tallies seq_numpy (example_statepoint double_of_int)
                (rank_operator double_of_int 0 [''1'', ''2'']) = Inr (op', pw) \<and>
      rates (op_reaction_rates op') 0 1 0 = double_of_int 0 \<and>
      rates (op_reaction_rates op') 0 1 1 = double_of_int 5)"
proof -
  let ?op = "rank_operator double_of_int 0 [''1'', ''2'']"
  let ?sp = "example_statepoint double_of_int"
  have i: "0 < length (burn_mat_list (op_number ?op))"
    by (simp add: rank_operator_def rank_number_def)
  have nuc: "''Xe135'' \<in> set (sp_nuclides ?sp)"
    by (simp add: example_statepoint_def)
  have z: "float_eq (atoms (op_number ?op) ''1'' ''Xe135'') 0"
    by code_simp
  have zero: "float_eq (atoms (op_number ?op) (burn_mat_list (op_number ?op) ! 0) ''Xe135'') 0"
    by code_simp
  have ix: "index_in (rr_nuc_to_ind (op_reaction_rates ?op)) ''Xe135'' = 1"
    "index_in (rr_react_to_ind (op_reaction_rates ?op)) (sp_reactions ?sp ! 0) = 0"
    "index_in (rr_react_to_ind (op_reaction_rates ?op)) (sp_reactions ?sp ! 1) = 1"
    by (simp_all add: index_in_def rank_operator_def rank_rates_def example_statepoint_def)
  have n: "sp_nuclides ?sp ! 1 = ''Xe135''"
    "(1::nat) < length (sp_nuclides ?sp)"
    "(0::nat) < length (sp_reactions ?sp)"
    "(1::nat) < length (sp_reactions ?sp)"
    "1 * length (sp_reactions ?sp) + 0 = 2"
    "1 * length (sp_reactions ?sp) + 1 = 3"
    by (simp_all add: example_statepoint_def)
  have v: "sp_results ?sp ! slab_of ?sp (burn_mat_list (op_number ?op) ! 0) ! 2 = double_of_int 0"
    "sp_results ?sp ! slab_of ?sp (burn_mat_list (op_number ?op) ! 0) ! 3 = double_of_int 5"
    by code_simp+
  from zero_atom_entries_not_divided [OF rank0_wf i nuc zero, where np = seq_numpy] obtain op' pw where
    run: "unpack_tallies seq_numpy ?sp ?op = Inr (op', pw)"
    and vals: "\<forall>a < length (sp_nuclides ?sp).
       \<forall>b < length (sp_reactions ?sp). sp_nuclides ?sp ! a = ''Xe135'' \<longrightarrow>
        rates (op_reaction_rates op') 0 (index_in (rr_nuc_to_ind (op_reaction_rates ?op)) ''Xe135'')
          (index_in (rr_react_to_ind (op_reaction_rates ?op)) (sp_reactions ?sp ! b)) =
        sp_results ?sp ! slab_of ?sp (burn_mat_list (op_number ?op) ! 0) !
          (a * length (sp_reactions ?sp) + b)"
    by blast
  have "rates (op_reaction_rates op') 0 1 0 = double_of_int 0"
    using vals [rule_format, OF n(2) n(3) n(1)] unfolding ix n(5) v(1) .
  moreover have "rates (op_reaction_rates op') 0 1 1 = double_of_int 5"
    using vals [rule_format, OF n(2) n(4) n(1)] unfolding ix n(6) v(2) .
  ultimately show ?thesis using run rank0_wf [of double_of_int] z by blast
qed

text \<open>
  Claim C10. The factor \<^verbatim>\<open>settings.power / power\<close> is computed without a test of
  \<^verbatim>\<open>power\<close>; \<^verbatim>\<open>power\<close> is a \<^verbatim>\<open>float64\<close> of numpy, so the division does not
  raise. On well-formed states the method returns on every rank, whatever the order in
  which numpy adds, and every rate is the stored rate times that factor. When the global
  power is zero the factor is an infinity or not a number, and every rate of every rank
  is not finite.
\<close>

theorem zero_power_not_finite:
  fixes ops :: "double operator list"
  assumes wf: "\<forall>op \<in> set ops. wf_tally sp op"
  shows "\<exists>ops'. unpack_tallies_and_normalize np sp ops = Inr (k_combined sp, ops') \<and>
     length ops' = length ops \<and>
     (\<forall>rank < length ops. \<forall>i n r.
        rates (op_reaction_rates (ops' ! rank)) i n r =
          ingested_rates sp (ops ! rank) i n r *
            (power_setting (op_settings (ops ! rank)) / measured_power np sp ops)) \<and>
     (float_eq (measured_power np sp ops) 0 \<longrightarrow>
        (\<forall>rank < length ops.
           \<not> is_finite (power_setting (op_settings (ops ! rank)) / measured_power np sp ops) \<and>
           (\<forall>i n r. \<not> is_finite (rates (op_reaction_rates (ops' ! rank)) i n r))))"
proof -
  let ?M = "measured_power np sp ops"
  let ?ops' = "map (\<lambda>op. normalize ?M (ingested sp op)) ops"
  have run: "unpack_tallies_and_normalize np sp ops = Inr (k_combined sp, ?ops')"
    by (rule unpack_tallies_and_normalize_eq [OF wf])
  have r: "rates (op_reaction_rates (?ops' ! rank)) i n r =
          ingested_rates sp (ops ! rank) i n r * (power_setting (op_settings (ops ! rank)) / ?M)"
    if "rank < length ops" for rank i n r
    using that by (simp add: rates_normalize)
  have f: "\<not> is_finite (power_setting (op_settings (ops ! rank)) / ?M)"
    if "float_eq ?M 0" for rank
    using that by (rule divide_by_zero_not_finite)
  have z: "\<not> is_finite (rates (op_reaction_rates (?ops' ! rank)) i n r)"
    if "rank < length ops" "float_eq ?M 0" for rank i n r
    unfolding r [OF that(1)] by (rule times_not_finite) (rule f [OF that(2)])
  have l: "length ?ops' = length ops" by simp
  show ?thesis
    using run l r f z by (intro exI [of _ ?ops']) blast
qed

theorem zero_power_not_finite_witness:
  "wf_tally (cold_statepoint double_of_int) (example_world double_of_int ! 0) \<and>
   wf_tally (cold_statepoint double_of_int) (example_world double_of_int ! 1) \<and>
   float_eq (measured_power seq_numpy (cold_statepoint double_of_int) (example_world double_of_int)) 0 \<and>
   (\<exists>ops'. unpack_tallies_and_normalize seq_numpy (cold_statepoint double_of_int)
              (example_world double_of_int) =
            Inr (k_combined (cold_statepoint double_of_int), ops') \<and>
      \<not> is_finite (rates (op_reaction_rates (ops' ! 0)) 0 0 1) \<and>
      \<not> is_finite (rates (op_reaction_rates (ops' ! 1)) 0 0 0))"
proof -
  let ?sp = "cold_statepoint double_of_int"
  let ?ops = "example_world double_of_int"
  have l: "0 < length ?ops" "1 < length ?ops"
    by (simp_all add: example_world_def)
  from cold_world_wf [of double_of_int] have w: "wf_tally ?sp (?ops ! 0)" "wf_tally ?sp (?ops ! 1)"
    by (simp_all add: example_world_def)
  from zero_power_not_finite [OF cold_world_wf, where np = seq_numpy] obtain ops' where
    run: "unpack_tallies_and_normalize seq_numpy ?sp ?ops = Inr (k_combined ?sp, ops')"
    and z: "float_eq (measured_power seq_numpy ?sp ?ops) 0 \<longrightarrow>
        (\<forall>rank < length ?ops.
           \<not> is_finite (power_setting (op_settings (?ops ! rank)) / measured_power seq_numpy ?sp ?ops) \<and>
           (\<forall>i n r. \<not> is_finite (rates (op_reaction_rates (ops' ! rank)) i n r)))"
    by blast
  from z cold_measured have zz: "rank < length ?ops \<Longrightarrow>
      \<not> is_finite (rates (op_reaction_rates (ops' ! rank)) i n r)" for rank i n r
    by blast
  from run zz [OF l(1)] zz [OF l(2)] w cold_measured show ?thesis by blast
qed

text \<open>
  Claim C2, as the code has it, in exact arithmetic (the definitions over the reals).
  On well-formed states on which the global power is not zero and a nuclide without atoms
  contributes nothing to the tallied power: after the normalisation, the sum over all
  ranks, over the burnable materials of the rank and over the nuclides of the fission
  rate times the number of atoms of the nuclide times the fission power of the nuclide
  is the configured power, for every number of ranks. (Over the reals every order of the
  additions of numpy gives the sums of \<open>seq_numpy\<close>.)
\<close>

theorem normalized_power_is_target:
  fixes ops :: "real operator list"
  assumes wf: "\<forall>op \<in> set ops. wf_tally sp op"
    and np: "\<forall>op \<in> set ops. no_power_without_atoms sp op"
    and target: "\<forall>op \<in> set ops. power_setting (op_settings op) = P"
    and nz: "measured_power seq_numpy sp ops \<noteq> 0"
  shows "\<exists>ops'. unpack_tallies_and_normalize seq_numpy sp ops = Inr (k_combined sp, ops') \<and>
           length ops' = length ops \<and>
           (\<Sum>op' \<leftarrow> ops'. reconstructed_power op') = P"
proof -
  let ?M = "measured_power seq_numpy sp ops"
  let ?ops' = "map (\<lambda>op. normalize ?M (ingested sp op)) ops"
  have run: "unpack_tallies_and_normalize seq_numpy sp ops = Inr (k_combined sp, ?ops')"
    by (rule unpack_tallies_and_normalize_eq [OF wf])
  have "(\<Sum>op' \<leftarrow> ?ops'. reconstructed_power op') =
        (\<Sum>op \<leftarrow> ops. reconstructed_power (normalize ?M (ingested sp op)))"
    by (simp add: comp_def)
  also have "\<dots> = (\<Sum>op \<leftarrow> ops. partial_power seq_numpy sp op * (P / ?M))"
    by (rule arg_cong [where f = sum_list], rule map_cong [OF refl])
       (use wf np target in \<open>simp add: reconstructed_power_normalize\<close>)
  also have "\<dots> = (\<Sum>op \<leftarrow> ops. partial_power seq_numpy sp op) * (P / ?M)"
    by (rule sum_list_mult_const)
  also have "\<dots> = P"
    using nz by (simp add: measured_power_real)
  finally have "(\<Sum>op' \<leftarrow> ?ops'. reconstructed_power op') = P" .
  with run show ?thesis by (intro exI [of _ ?ops']) simp
qed

text \<open>
  Without the fission power of the nuclides the sum is not the configured power: in
  the small world the rates times the atoms sum to 3, and the configured power is 600.
\<close>

theorem unweighted_sum_counterexample:
  "length (normalized seq_numpy (example_statepoint of_int) (example_world of_int)) = 2 \<and>
   sum_list (map fission_rate_times_atoms
     (normalized seq_numpy (example_statepoint of_int) (example_world of_int))) = 3 \<and>
   power_setting (op_settings (example_world of_int ! 0)) = (600 :: real) \<and>
   power_setting (op_settings (example_world of_int ! 1)) = (600 :: real)"
  by code_simp

theorem normalized_power_is_target_witness:
  "wf_tally (example_statepoint of_int) (example_world of_int ! 0 :: real operator) \<and>
   wf_tally (example_statepoint of_int) (example_world of_int ! 1 :: real operator) \<and>
   measured_power seq_numpy (example_statepoint of_int) (example_world of_int) = (1200 :: real) \<and>
   (\<exists>ops'. unpack_tallies_and_normalize seq_numpy (example_statepoint of_int)
              (example_world of_int) = Inr (1 :: real, ops') \<and>
      length ops' = 2 \<and> sum_list (map reconstructed_power ops') = 600)"
proof -
  let ?sp = "example_statepoint of_int :: real statepoint"
  let ?ops = "example_world of_int :: real operator list"
  have nz: "measured_power seq_numpy ?sp ?ops \<noteq> 0"
    by (simp add: example_measured)
  have l: "length ?ops = 2" by (simp add: example_world_def)
  have k: "k_combined ?sp = 1" by (simp add: example_statepoint_def)
  from example_world_wf [of "of_int :: int \<Rightarrow> real"] have w: "wf_tally ?sp (?ops ! 0)" "wf_tally ?sp (?ops ! 1)"
    by (simp_all add: example_world_def)
  from normalized_power_is_target [OF example_world_wf example_np example_target nz] w l k
    example_measured
  show ?thesis by simp
qed

end
